(* ===== verification/Prelude.thy ===== *)
theory Prelude
  imports Main "HOL-Library.Word" "HOL-Library.Multiset"
begin

text \<open>
  Shared vocabulary of the development: the outcome of a C++ call (a value, a thrown
  exception, undefined behaviour, or \<^verbatim>\<open>std::terminate\<close>), commands as functions from a state to an
  outcome and the state left behind (a C++ exception does not undo the effects made before it was
  thrown), the machine integers of the source, and generic lemmas on commands, on sorted lists and
  on runs of a step function.
\<close>

unbundle bit_operations_syntax

named_theorems cmd_simps \<open>rewrite rules that run commands\<close>

subsection \<open>Machine integers and bytes\<close>

type_synonym byte = "8 word"
type_synonym uint16 = "16 word"
type_synonym uint32 = "32 word"
type_synonym uint64 = "64 word"
type_synonym size_t = "64 word"
type_synonym addr = "64 word"

text \<open>
  \<^verbatim>\<open>int\<close> and \<^verbatim>\<open>ssize_t\<close> values are mathematical integers; the
  implicit narrowing of an \<^verbatim>\<open>ssize_t\<close> to an \<^verbatim>\<open>int\<close> is written out.
\<close>

definition narrow_int :: "int \<Rightarrow> int" where
  "narrow_int r = sint (word_of_int r :: 32 word)"

definition to_size :: "int \<Rightarrow> size_t" where
  "to_size r = word_of_int r"

definition int_flag_or :: "int \<Rightarrow> int \<Rightarrow> int" where
  "int_flag_or a b = a OR b"

lemma narrow_int_id [simp]: "- (2 ^ 31) \<le> r \<Longrightarrow> r < 2 ^ 31 \<Longrightarrow> narrow_int r = r"
  unfolding narrow_int_def
  by (simp add: sint_word_ariths signed_take_bit_int_eq_self sint_sbintrunc')

lemma narrow_int_minus_one [simp]: "narrow_int (- 1) = - 1"
  by (simp add: narrow_int_def)

lemma unat_bound: "unat (w :: 'a::len word) < 2 ^ LENGTH('a)"
  by (rule unsigned_less)

lemma unat_bound8: "unat (w :: byte) < 256"
  and unat_bound16: "unat (x :: uint16) < 65536"
  and unat_bound32: "unat (y :: uint32) < 4294967296"
  and unat_bound64: "unat (z :: uint64) < 18446744073709551616"
  using unat_bound [of w] unat_bound [of x] unat_bound [of y] unat_bound [of z] by simp_all

lemma unat_to_size: "0 \<le> r \<Longrightarrow> r < 2 ^ 64 \<Longrightarrow> unat (to_size r) = nat r"
  by (simp add: to_size_def unat_eq_nat_uint uint_word_of_int_eq take_bit_int_eq_self)

subsection \<open>Exceptions, outcomes, commands\<close>

text \<open>
  The exceptions the library throws: \<^verbatim>\<open>std::system_error\<close> with its error code,
  \<^verbatim>\<open>std::runtime_error\<close>, \<^verbatim>\<open>std::logic_error\<close>,
  \<^verbatim>\<open>std::invalid_argument\<close>, one nested in another
  (\<^verbatim>\<open>std::throw_with_nested\<close>), and whatever a user callback throws.
\<close>

datatype exn =
    System_error int string
  | Runtime_error string
  | Logic_error string
  | Invalid_argument string
  | Nested exn exn
  | User_exception nat

datatype 'a res = Ok 'a | Throw exn | Undefined | Terminated

type_synonym ('s, 'a) cmd = "'s \<Rightarrow> 'a res \<times> 's"

definition ret_c :: "'a \<Rightarrow> ('s, 'a) cmd" where
  "ret_c x = (\<lambda>s. (Ok x, s))"

definition throw_c :: "exn \<Rightarrow> ('s, 'a) cmd" where
  "throw_c e = (\<lambda>s. (Throw e, s))"

definition undefined_c :: "('s, 'a) cmd" where
  "undefined_c = (\<lambda>s. (Undefined, s))"

definition terminate_c :: "('s, 'a) cmd" where
  "terminate_c = (\<lambda>s. (Terminated, s))"

definition bind_c :: "('s, 'a) cmd \<Rightarrow> ('a \<Rightarrow> ('s, 'b) cmd) \<Rightarrow> ('s, 'b) cmd" where
  "bind_c m f = (\<lambda>s. case m s of
      (Ok x, s') \<Rightarrow> f x s'
    | (Throw e, s') \<Rightarrow> (Throw e, s')
    | (Undefined, s') \<Rightarrow> (Undefined, s')
    | (Terminated, s') \<Rightarrow> (Terminated, s'))"

definition then_c :: "('s, 'a) cmd \<Rightarrow> ('s, 'b) cmd \<Rightarrow> ('s, 'b) cmd" where
  "then_c m n = bind_c m (\<lambda>_. n)"

text \<open>\<^verbatim>\<open>try { m } catch (...) { h }\<close>\<close>

definition catch_c :: "('s, 'a) cmd \<Rightarrow> (exn \<Rightarrow> ('s, 'a) cmd) \<Rightarrow> ('s, 'a) cmd" where
  "catch_c m h = (\<lambda>s. case m s of
      (Throw e, s') \<Rightarrow> h e s'
    | r \<Rightarrow> r)"

definition gets_c :: "('s \<Rightarrow> 'a) \<Rightarrow> ('s, 'a) cmd" where
  "gets_c f = (\<lambda>s. (Ok (f s), s))"

definition modify_c :: "('s \<Rightarrow> 's) \<Rightarrow> ('s, unit) cmd" where
  "modify_c f = (\<lambda>s. (Ok (), f s))"

definition when_c :: "bool \<Rightarrow> ('s, unit) cmd \<Rightarrow> ('s, unit) cmd" where
  "when_c b m = (if b then m else ret_c ())"

text \<open>\<^verbatim>\<open>for (auto x : xs) f(x)\<close>\<close>

fun for_each :: "('a \<Rightarrow> ('s, unit) cmd) \<Rightarrow> 'a list \<Rightarrow> ('s, unit) cmd" where
  "for_each f [] = ret_c ()"
| "for_each f (x # xs) = then_c (f x) (for_each f xs)"

lemma ret_c_run [cmd_simps]: "ret_c x s = (Ok x, s)"
  by (simp add: ret_c_def)

lemma throw_c_run [cmd_simps]: "throw_c e s = (Throw e, s)"
  by (simp add: throw_c_def)

lemma undefined_c_run [cmd_simps]: "undefined_c s = (Undefined, s)"
  by (simp add: undefined_c_def)

lemma terminate_c_run [cmd_simps]: "terminate_c s = (Terminated, s)"
  by (simp add: terminate_c_def)

lemma gets_c_run [cmd_simps]: "gets_c f s = (Ok (f s), s)"
  by (simp add: gets_c_def)

lemma modify_c_run [cmd_simps]: "modify_c f s = (Ok (), f s)"
  by (simp add: modify_c_def)

lemma bind_c_run [cmd_simps]:
  "bind_c m f s = (case m s of
      (Ok x, s') \<Rightarrow> f x s' | (Throw e, s') \<Rightarrow> (Throw e, s')
    | (Undefined, s') \<Rightarrow> (Undefined, s') | (Terminated, s') \<Rightarrow> (Terminated, s'))"
  by (simp add: bind_c_def)

lemma then_c_run [cmd_simps]:
  "then_c m n s = (case m s of
      (Ok x, s') \<Rightarrow> n s' | (Throw e, s') \<Rightarrow> (Throw e, s')
    | (Undefined, s') \<Rightarrow> (Undefined, s') | (Terminated, s') \<Rightarrow> (Terminated, s'))"
  by (simp add: then_c_def bind_c_def)

lemma catch_c_run [cmd_simps]:
  "catch_c m h s = (case m s of (Throw e, s') \<Rightarrow> h e s' | r \<Rightarrow> r)"
  by (simp add: catch_c_def)

lemma when_c_run [cmd_simps]: "when_c b m s = (if b then m s else (Ok (), s))"
  by (simp add: when_c_def ret_c_def)

lemma for_each_append:
  "for_each f (xs @ ys) = then_c (for_each f xs) (for_each f ys)"
  by (induction xs) (auto simp: fun_eq_iff cmd_simps split: res.splits prod.splits)

text \<open>A command on the system state, run beside an object that lives outside it (one the caller passed
  by reference, or the object whose method runs).\<close>

definition beside :: "('s, 'a) cmd \<Rightarrow> ('b \<times> 's, 'a) cmd" where
  "beside m = (\<lambda>(b, s). case m s of (r, s') \<Rightarrow> (r, (b, s')))"

lemma beside_run [cmd_simps]: "beside m (b, s) = (fst (m s), (b, snd (m s)))"
  by (simp add: beside_def split: prod.splits)

subsection \<open>Containers of the C++ library\<close>

text \<open>\<^verbatim>\<open>std::vector::resize\<close> and \<^verbatim>\<open>std::copy\<close> into a range of \<open>dst\<close>.\<close>

definition vec_resize :: "'a \<Rightarrow> nat \<Rightarrow> 'a list \<Rightarrow> 'a list" where
  "vec_resize d n xs = take n xs @ replicate (n - length xs) d"

definition std_copy :: "'a list \<Rightarrow> nat \<Rightarrow> 'a list \<Rightarrow> 'a list" where
  "std_copy src off dst = take off dst @ src @ drop (off + length src) dst"

lemma length_vec_resize [simp]: "length (vec_resize d n xs) = n"
  by (simp add: vec_resize_def)

lemma vec_resize_same [simp]: "length xs = n \<Longrightarrow> vec_resize d n xs = xs"
  by (simp add: vec_resize_def)

lemma length_std_copy:
  "off + length src \<le> length dst \<Longrightarrow> length (std_copy src off dst) = length dst"
  by (simp add: std_copy_def)

lemma std_copy_tail: "length dst = off + length src \<Longrightarrow> std_copy src off dst = take off dst @ src"
  by (simp add: std_copy_def)

subsection \<open>Runs of a step relation\<close>

text \<open>What every step keeps, every run keeps.\<close>

locale step_invariant =
  fixes step :: "'a \<Rightarrow> 'a \<Rightarrow> bool" and I :: "'a \<Rightarrow> bool"
  assumes kept: "step x y \<Longrightarrow> I x \<Longrightarrow> I y"
begin

lemma kept_star: "step\<^sup>*\<^sup>* x y \<Longrightarrow> I x \<Longrightarrow> I y"
  by (induction rule: rtranclp_induct) (auto intro: kept)

end

end
