(* ===== verification/Kernel.thy ===== *)
theory Kernel
  imports Prelude
begin

text \<open>
  What the library calls but does not contain. The Linux system calls, the clock and the signal
  mask are parameters: fields of the records below, functions on a system state that holds the
  thread's \<^verbatim>\<open>errno\<close>, the memory of the process and an arbitrary \<open>world\<close>. No
  behaviour is given to them here; the theorems that need some of their documented behaviour
  assume it by name. Also here: the constants of the Linux headers the source uses, and
  the parameters for the third-party library \<^verbatim>\<open>libndgpp\<close>.
\<close>

record 'w sys =
  errno :: int
  mem :: "addr \<Rightarrow> byte"
  world :: 'w

type_synonym ('w, 'a) syscall = "'w sys \<Rightarrow> 'a \<times> 'w sys"

definition call :: "('w, 'a) syscall \<Rightarrow> ('w sys, 'a) cmd" where
  "call f = (\<lambda>s. case f s of (x, s') \<Rightarrow> (Ok x, s'))"

lemma call_run [cmd_simps]: "call f s = (Ok (fst (f s)), snd (f s))"
  by (simp add: call_def split: prod.splits)

text \<open>
  \<^verbatim>\<open>throw ndgpp_error(std::system_error, errno, ...)\<close>: the error code is the
  value of \<^verbatim>\<open>errno\<close> when the exception is built.
\<close>

definition throw_errno :: "string \<Rightarrow> ('w sys, 'a) cmd" where
  "throw_errno msg = (\<lambda>s. (Throw (System_error (errno s) msg), s))"

lemma throw_errno_run [cmd_simps]:
  "throw_errno msg s = (Throw (System_error (errno s) msg), s)"
  by (simp add: throw_errno_def)

text \<open>The bytes a pointer and a length denote.\<close>

definition mem_read :: "(addr \<Rightarrow> byte) \<Rightarrow> addr \<Rightarrow> nat \<Rightarrow> byte list" where
  "mem_read m p n = map (\<lambda>i. m (p + of_nat i)) [0..<n]"

fun mem_write :: "(addr \<Rightarrow> byte) \<Rightarrow> addr \<Rightarrow> byte list \<Rightarrow> (addr \<Rightarrow> byte)" where
  "mem_write m p [] = m"
| "mem_write m p (b # bs) = mem_write (m(p := b)) (p + 1) bs"

lemma length_mem_read [simp]: "length (mem_read m p n) = n"
  by (simp add: mem_read_def)

lemma mem_read_0 [simp]: "mem_read m p 0 = []"
  by (simp add: mem_read_def)

lemma mem_read_Suc: "mem_read m p (Suc n) = m p # mem_read m (p + 1) n"
  by (simp add: mem_read_def map_upt_Suc algebra_simps del: upt_Suc)

lemma mem_write_other:
  "(\<And>i. i < length bs \<Longrightarrow> a \<noteq> p + of_nat i) \<Longrightarrow> mem_write m p bs a = m a"
proof (induction bs arbitrary: m p)
  case (Cons b bs)
  from Cons.prems [of 0] have "a \<noteq> p" by simp
  moreover have "a \<noteq> p + 1 + of_nat i" if "i < length bs" for i
    using Cons.prems [of "Suc i"] that by (simp add: algebra_simps)
  ultimately show ?case
    by (simp only: mem_write.simps) (subst Cons.IH, auto)
qed simp

lemma mem_read_cong:
  "(\<And>i. i < n \<Longrightarrow> m (p + of_nat i) = m' (p + of_nat i)) \<Longrightarrow> mem_read m p n = mem_read m' p n"
  by (simp add: mem_read_def)

lemma addr_not_self: "i < n \<Longrightarrow> n < 2 ^ 64 \<Longrightarrow> (p :: addr) \<noteq> p + 1 + of_nat i"
proof
  assume i: "i < n" "n < 2 ^ 64" and eq: "p = p + 1 + of_nat i"
  then have "(of_nat (Suc i) :: addr) = 0" by simp
  then have "2 ^ 64 dvd Suc i" by (simp add: word_of_nat_eq_0_iff del: of_nat_Suc)
  with i show False by (auto dest: dvd_imp_le)
qed

lemma mem_read_write: "length bs < 2 ^ 64 \<Longrightarrow> mem_read (mem_write m p bs) p (length bs) = bs"
proof (induction bs arbitrary: m p)
  case (Cons b bs)
  have "mem_write (m(p := b)) (p + 1) bs p = b"
    using Cons.prems by (subst mem_write_other) (auto dest: addr_not_self [of _ "length bs" p])
  with Cons show ?case by (simp add: mem_read_Suc del: fun_upd_apply)
qed simp

subsection \<open>Constants of the Linux headers (x86-64 values)\<close>

definition EINTR :: int where "EINTR = 4"
definition EBADF :: int where "EBADF = 9"
definition EAGAIN :: int where "EAGAIN = 11"
definition ENOENT :: int where "ENOENT = 2"
definition EINVAL :: int where "EINVAL = 22"
definition ENODATA :: int where "ENODATA = 61"
definition O_RDWR :: int where "O_RDWR = 2"
definition O_CLOEXEC :: int where "O_CLOEXEC = 524288"
definition SOCK_CLOEXEC :: int where "SOCK_CLOEXEC = 524288"
definition SOCK_STREAM :: int where "SOCK_STREAM = 1"
definition SOCK_DGRAM :: int where "SOCK_DGRAM = 2"
definition AF_INET :: int where "AF_INET = 2"
definition MSG_DONTWAIT :: int where "MSG_DONTWAIT = 64"
definition MSG_WAITALL :: int where "MSG_WAITALL = 256"

lemmas errno_consts = EINTR_def EBADF_def EAGAIN_def ENOENT_def EINVAL_def ENODATA_def
lemmas flag_consts = O_RDWR_def O_CLOEXEC_def SOCK_CLOEXEC_def SOCK_STREAM_def SOCK_DGRAM_def
  AF_INET_def MSG_DONTWAIT_def MSG_WAITALL_def

subsection \<open>System calls on descriptors\<close>

text \<open>
  A call that fills a caller's buffer (\<^verbatim>\<open>read\<close>) returns the bytes it stored beside
  its return value; a call that reads a caller's buffer (\<^verbatim>\<open>write\<close>) takes the pointer
  and the length.
\<close>

record 'w fd_calls =
  sys_close :: "int \<Rightarrow> ('w, int) syscall"
  sys_read :: "int \<Rightarrow> size_t \<Rightarrow> ('w, int \<times> byte list) syscall"
  sys_write :: "int \<Rightarrow> addr \<Rightarrow> size_t \<Rightarrow> ('w, int) syscall"
  sys_open :: "string option \<Rightarrow> int \<Rightarrow> int \<Rightarrow> ('w, int) syscall"
  sys_pipe2 :: "int \<Rightarrow> ('w, int \<times> int \<times> int) syscall"
  sys_fcntl :: "int \<Rightarrow> int \<Rightarrow> int list \<Rightarrow> ('w, int) syscall"

end
