(* ===== verification/Syscall_Return.thy ===== *)
theory Syscall_Return
  imports Kernel
begin

text \<open>
  \<^verbatim>\<open>linuxpp::syscall_return\<close>: the pair of an errno value and a return value that the
  \<^verbatim>\<open>std::nothrow\<close> overloads hand back instead of throwing.
\<close>

record 'a syscall_return =
  errno_member :: int
  return_member :: 'a

definition syscall_return_value :: "'a \<Rightarrow> 'a syscall_return" where
  "syscall_return_value v = \<lparr>errno_member = 0, return_member = v\<rparr>"

definition syscall_return_seterrno :: "'a \<Rightarrow> int \<Rightarrow> ('s, 'a syscall_return) cmd" where
  "syscall_return_seterrno dflt e =
     (if e = 0 then throw_c (Logic_error ''errno value cannot be 0'')
      else ret_c \<lparr>errno_member = e, return_member = dflt\<rparr>)"

definition syscall_return_pair :: "int \<Rightarrow> 'a \<Rightarrow> 'a syscall_return" where
  "syscall_return_pair e v = \<lparr>errno_member = e, return_member = v\<rparr>"

definition sr_bool :: "'a syscall_return \<Rightarrow> bool" where
  "sr_bool r \<longleftrightarrow> errno_member r = 0"

definition good :: "'a syscall_return \<Rightarrow> bool" where
  "good r \<longleftrightarrow> sr_bool r = True"

definition fail :: "'a syscall_return \<Rightarrow> bool" where
  "fail r \<longleftrightarrow> sr_bool r = False"

definition return_value :: "'a syscall_return \<Rightarrow> 'a" where
  "return_value r = return_member r"

definition errno_value :: "'a syscall_return \<Rightarrow> int" where
  "errno_value r = errno_member r"

lemmas syscall_return_defs = syscall_return_value_def syscall_return_pair_def sr_bool_def good_def
  fail_def return_value_def errno_value_def

lemma sr_bool_value [simp]: "sr_bool (syscall_return_value v)"
  by (simp add: syscall_return_defs)

lemma sr_bool_pair [simp]: "sr_bool (syscall_return_pair e v) \<longleftrightarrow> e = 0"
  by (simp add: syscall_return_defs)

lemma errno_value_pair [simp]: "errno_value (syscall_return_pair e v) = e"
  and errno_value_value [simp]: "errno_value (syscall_return_value v) = 0"
  and return_value_pair [simp]: "return_value (syscall_return_pair e v) = v"
  and return_value_value [simp]: "return_value (syscall_return_value v) = v"
  by (simp_all add: syscall_return_defs)

lemma good_not_fail: "good r \<longleftrightarrow> \<not> fail r"
  by (simp add: syscall_return_defs)

text \<open>
  The \<open>seterrno\<close> constructor either throws or builds a failed result: no successful
  \<open>syscall_return\<close> can come out of it.
\<close>

lemma seterrno_fails:
  "syscall_return_seterrno d e s = (Ok r, s') \<Longrightarrow> fail r \<and> errno_value r = e \<and> s' = s"
  by (auto simp: syscall_return_seterrno_def syscall_return_defs cmd_simps split: if_splits)

end
