(* ===== verification/Files.thy ===== *)
theory Files
  imports Syscall_Return
begin

text \<open>
  The thin wrappers around \<^verbatim>\<open>open\<close>, \<^verbatim>\<open>read\<close>,
  \<^verbatim>\<open>write\<close> and \<^verbatim>\<open>fcntl\<close> (\<^verbatim>\<open>open.cpp\<close>,
  \<^verbatim>\<open>read.hpp\<close>, \<^verbatim>\<open>write.hpp\<close>, \<^verbatim>\<open>fcntl.hpp\<close>).
  An overload is named by its tags: \<open>nothrow\<close> returns a \<open>syscall_return\<close>, \<open>nocloexec\<close> does not add
  \<^verbatim>\<open>O_CLOEXEC\<close>, \<open>mode\<close> takes the mode argument. A null path is \<open>None\<close>.
\<close>

definition open_nothrow_nocloexec_mode ::
  "('w, 'x) fd_calls_scheme \<Rightarrow> string option \<Rightarrow> int \<Rightarrow> int \<Rightarrow> ('w sys, int syscall_return) cmd" where
  "open_nothrow_nocloexec_mode K path flags mode =
     then_c (modify_c (errno_update (\<lambda>_. 0)))
     (bind_c (call (sys_open K path flags mode)) (\<lambda>ret.
      bind_c (gets_c errno) (\<lambda>e.
      ret_c (syscall_return_pair e ret))))"

definition open_nocloexec_mode ::
  "('w, 'x) fd_calls_scheme \<Rightarrow> string option \<Rightarrow> int \<Rightarrow> int \<Rightarrow> ('w sys, int) cmd" where
  "open_nocloexec_mode K path flags mode =
     bind_c (open_nothrow_nocloexec_mode K path flags mode) (\<lambda>ret.
     if \<not> sr_bool ret
     then throw_c (System_error (errno_value ret)
            (case path of Some p \<Rightarrow> p | None \<Rightarrow> ''path is null''))
     else ret_c (return_value ret))"

definition open_nothrow_nocloexec ::
  "('w, 'x) fd_calls_scheme \<Rightarrow> string option \<Rightarrow> int \<Rightarrow> ('w sys, int syscall_return) cmd" where
  "open_nothrow_nocloexec K path flags = open_nothrow_nocloexec_mode K path flags 0"

definition open_nocloexec ::
  "('w, 'x) fd_calls_scheme \<Rightarrow> string option \<Rightarrow> int \<Rightarrow> ('w sys, int) cmd" where
  "open_nocloexec K path flags = open_nocloexec_mode K path flags 0"

definition open_flags ::
  "('w, 'x) fd_calls_scheme \<Rightarrow> string option \<Rightarrow> int \<Rightarrow> ('w sys, int) cmd" where
  "open_flags K path flags = open_nocloexec K path (flags OR O_CLOEXEC)"

definition open_nothrow ::
  "('w, 'x) fd_calls_scheme \<Rightarrow> string option \<Rightarrow> int \<Rightarrow> ('w sys, int syscall_return) cmd" where
  "open_nothrow K path flags = open_nothrow_nocloexec K path (flags OR O_CLOEXEC)"

definition open_mode ::
  "('w, 'x) fd_calls_scheme \<Rightarrow> string option \<Rightarrow> int \<Rightarrow> int \<Rightarrow> ('w sys, int) cmd" where
  "open_mode K path flags mode = open_nocloexec_mode K path (flags OR O_CLOEXEC) mode"

definition open_nothrow_mode ::
  "('w, 'x) fd_calls_scheme \<Rightarrow> string option \<Rightarrow> int \<Rightarrow> int \<Rightarrow> ('w sys, int syscall_return) cmd" where
  "open_nothrow_mode K path flags mode =
     open_nothrow_nocloexec_mode K path (flags OR O_CLOEXEC) mode"

definition read_file ::
  "('w, 'x) fd_calls_scheme \<Rightarrow> int \<Rightarrow> size_t \<Rightarrow> ('w sys, size_t \<times> byte list) cmd" where
  "read_file K fd len =
     bind_c (call (sys_read K fd len)) (\<lambda>(ret, bytes).
     if ret = - 1 then throw_errno ''read failed''
     else ret_c (to_size ret, bytes))"

definition write_file ::
  "('w, 'x) fd_calls_scheme \<Rightarrow> int \<Rightarrow> addr \<Rightarrow> size_t \<Rightarrow> ('w sys, size_t) cmd" where
  "write_file K fd buf len =
     bind_c (call (sys_write K fd buf len)) (\<lambda>ret.
     if ret = - 1 then throw_errno ''write failed''
     else ret_c (to_size ret))"

definition write_file_nothrow ::
  "('w, 'x) fd_calls_scheme \<Rightarrow> int \<Rightarrow> addr \<Rightarrow> size_t \<Rightarrow> ('w sys, int syscall_return) cmd" where
  "write_file_nothrow K fd buf len =
     bind_c (call (sys_write K fd buf len)) (\<lambda>ret.
     if ret = - 1 then bind_c (gets_c errno) (\<lambda>e. ret_c (syscall_return_pair e ret))
     else ret_c (syscall_return_value ret))"

definition fcntl ::
  "('w, 'x) fd_calls_scheme \<Rightarrow> int \<Rightarrow> int \<Rightarrow> int list \<Rightarrow> ('w sys, int) cmd" where
  "fcntl K fd command args =
     bind_c (call (sys_fcntl K fd command args)) (\<lambda>ret.
     if ret = - 1 then throw_errno ''fcntl failed'' else ret_c ret)"

lemmas open_defs = open_nothrow_nocloexec_mode_def open_nocloexec_mode_def
  open_nothrow_nocloexec_def open_nocloexec_def open_flags_def open_nothrow_def open_mode_def
  open_nothrow_mode_def

text \<open>
  The documented contract of a system call's \<^verbatim>\<open>errno\<close>: set to a non-zero value on
  failure, and left alone by the call on success.
\<close>

definition errno_law :: "('w, int) syscall \<Rightarrow> bool" where
  "errno_law f \<longleftrightarrow> (\<forall>s. case f s of (ret, s') \<Rightarrow>
      (ret = - 1 \<longrightarrow> errno s' \<noteq> 0) \<and> (ret \<noteq> - 1 \<longrightarrow> errno s' = errno s))"

lemma errno_lawD:
  "errno_law f \<Longrightarrow> f s = (ret, s') \<Longrightarrow> ret = - 1 \<Longrightarrow> errno s' \<noteq> 0"
  "errno_law f \<Longrightarrow> f s = (ret, s') \<Longrightarrow> ret \<noteq> - 1 \<Longrightarrow> errno s' = errno s"
  by (auto simp: errno_law_def split: prod.splits dest: spec [of _ s])

subsection \<open>Properties\<close>

text \<open>
  The overload of \<^verbatim>\<open>linuxpp::open\<close> that throws and the one that does not agree, and
  both report failure exactly when the system call failed, whatever \<^verbatim>\<open>errno\<close> held
  before: the throwing one returns the descriptor where the other holds it with errno 0, and throws a
  \<^verbatim>\<open>system_error\<close> with the system call's errno where the other holds that errno.
\<close>

theorem open_throw_nothrow_agree:
  assumes "errno_law (sys_open K path (flags OR O_CLOEXEC) mode)"
    and "sys_open K path (flags OR O_CLOEXEC) mode (s\<lparr>errno := 0\<rparr>) = (fd, s')"
  shows "open_nothrow_mode K path flags mode s = (Ok (syscall_return_pair (errno s') fd), s') \<and>
         (sr_bool (syscall_return_pair (errno s') fd) \<longleftrightarrow> fd \<noteq> - 1) \<and>
         open_mode K path flags mode s =
           (if fd = - 1 then (Throw (System_error (errno s')
               (case path of Some p \<Rightarrow> p | None \<Rightarrow> ''path is null'')), s') else (Ok fd, s'))"
  using errno_lawD [OF assms(1,2)] assms(2)
  by (cases "fd = - 1") (auto simp: open_defs cmd_simps)

definition no_calls :: "'w fd_calls" where
  "no_calls = \<lparr>sys_close = (\<lambda>_ s. (- 1, s\<lparr>errno := 38\<rparr>)), sys_read = (\<lambda>_ _ s. ((- 1, []), s\<lparr>errno := 38\<rparr>)),
     sys_write = (\<lambda>_ _ _ s. (- 1, s\<lparr>errno := 38\<rparr>)), sys_open = (\<lambda>_ _ _ s. (- 1, s\<lparr>errno := 38\<rparr>)),
     sys_pipe2 = (\<lambda>_ s. ((- 1, 0, 0), s\<lparr>errno := 38\<rparr>)), sys_fcntl = (\<lambda>_ _ _ s. (- 1, s\<lparr>errno := 38\<rparr>))\<rparr>"

abbreviation sys0 :: "'w \<Rightarrow> 'w sys" where
  "sys0 w \<equiv> \<lparr>errno = 0, mem = (\<lambda>_. 0), world = w\<rparr>"

theorem open_throw_nothrow_agree_witness:
  "open_mode (no_calls\<lparr>sys_open := (\<lambda>p f m s. (3, s))\<rparr>) (Some ''/dev/null'') 2 0 ((sys0 ())\<lparr>errno := 11\<rparr>)
     = (Ok 3, sys0 ())"
proof -
  let ?K = "no_calls\<lparr>sys_open := (\<lambda>p f m s. (3, s))\<rparr> :: unit fd_calls"
  have l: "errno_law (sys_open ?K (Some ''/dev/null'') (2 OR O_CLOEXEC) 0)"
    by (simp add: errno_law_def)
  have c: "sys_open ?K (Some ''/dev/null'') (2 OR O_CLOEXEC) 0 ((sys0 ())\<lparr>errno := 11, errno := 0\<rparr>)
      = (3, sys0 ())"
    by simp
  from open_throw_nothrow_agree [OF l c] show ?thesis by simp
qed

text \<open>
  Every overload of \<^verbatim>\<open>linuxpp::open\<close> without the \<^verbatim>\<open>nocloexec\<close> tag
  asks the kernel for close-on-exec, whatever flags the caller passes: its result depends on the
  kernel's behaviour only for flag words with the \<^verbatim>\<open>O_CLOEXEC\<close> bit (bit 19) set.
\<close>

theorem open_requests_cloexec:
  fixes K K' :: "'w fd_calls"
  assumes "\<forall>p f m. bit f 19 \<longrightarrow> sys_open K p f m = sys_open K' p f m"
  shows "open_flags K path flags = open_flags K' path flags
       \<and> open_nothrow K path flags = open_nothrow K' path flags
       \<and> open_mode K path flags mode = open_mode K' path flags mode
       \<and> open_nothrow_mode K path flags mode = open_nothrow_mode K' path flags mode"
proof -
  have "bit O_CLOEXEC 19"
    by (simp add: O_CLOEXEC_def bit_iff_odd)
  then have "bit (flags OR O_CLOEXEC) 19"
    by (simp add: bit_or_iff)
  with assms show ?thesis by (simp add: open_defs)
qed

theorem open_requests_cloexec_witness:
  "open_flags (no_calls :: unit fd_calls) None 0
     = open_flags (no_calls\<lparr>sys_open := (\<lambda>p f m. if bit f 19 then sys_open no_calls p f m
                                              else (\<lambda>s. (5, s)))\<rparr>) None 0"
proof -
  have "\<forall>p f m. bit f 19 \<longrightarrow> sys_open (no_calls :: unit fd_calls) p f m =
      sys_open (no_calls\<lparr>sys_open := (\<lambda>p f m. if bit f 19 then sys_open no_calls p f m
                                              else (\<lambda>s. (5, s)))\<rparr>) p f m"
    by simp
  from open_requests_cloexec [OF this, of None 0 0] show ?thesis by simp
qed

end
