(* ===== verification/Descriptor.thy ===== *)
theory Descriptor
  imports Kernel
begin

text \<open>
  \<^verbatim>\<open>linuxpp::int_descriptor\<close>, the value type under file descriptors and process ids. The
  template's \<^verbatim>\<open>type_traits::invalid_value\<close> is the parameter \<open>ival\<close>. The locale
  \<open>handle_cell\<close> is the interface that the owning classes (\<open>unique_fd\<close>, \<open>popen\<close>) rely on: a cell that
  holds a handle or the invalid value, and moves it without duplicating it. It is interpreted for
  file descriptors and for process ids.
\<close>

record 'i int_descriptor =
  descriptor :: 'i

definition int_descriptor_default :: "'i \<Rightarrow> 'i int_descriptor" where
  "int_descriptor_default ival = \<lparr>descriptor = ival\<rparr>"

definition int_descriptor_of :: "'i \<Rightarrow> 'i int_descriptor" where
  "int_descriptor_of v = \<lparr>descriptor = v\<rparr>"

definition id_move_ctor :: "'i \<Rightarrow> 'i int_descriptor \<Rightarrow> 'i int_descriptor \<times> 'i int_descriptor" where
  "id_move_ctor ival other =
     (\<lparr>descriptor = descriptor other\<rparr>, other\<lparr>descriptor := ival\<rparr>)"

text \<open>
  Move assignment writes \<open>this\<close> and then \<open>other\<close>; on one and the same object the second write wins.
  The objects are cells of a store, so that \<open>x = std::move(x)\<close> is the case \<open>a = b\<close>.
\<close>

definition id_move_assign ::
  "'i \<Rightarrow> 'o \<Rightarrow> 'o \<Rightarrow> ('o \<Rightarrow> 'i int_descriptor) \<Rightarrow> ('o \<Rightarrow> 'i int_descriptor)" where
  "id_move_assign ival a b st =
     (let st1 = st(a := (st a)\<lparr>descriptor := descriptor (st b)\<rparr>)
      in st1(b := (st1 b)\<lparr>descriptor := ival\<rparr>))"

definition id_swap ::
  "'i int_descriptor \<Rightarrow> 'i int_descriptor \<Rightarrow> 'i int_descriptor \<times> 'i int_descriptor" where
  "id_swap a b = (a\<lparr>descriptor := descriptor b\<rparr>, b\<lparr>descriptor := descriptor a\<rparr>)"

definition id_reset :: "'i \<Rightarrow> 'i int_descriptor \<Rightarrow> 'i int_descriptor" where
  "id_reset v d = d\<lparr>descriptor := v\<rparr>"

definition id_release :: "'i \<Rightarrow> 'i int_descriptor \<Rightarrow> 'i \<times> 'i int_descriptor" where
  "id_release ival d = (let old = descriptor d in (old, d\<lparr>descriptor := ival\<rparr>))"

definition id_get :: "'i int_descriptor \<Rightarrow> 'i" where
  "id_get d = descriptor d"

definition id_bool :: "'i \<Rightarrow> 'i int_descriptor \<Rightarrow> bool" where
  "id_bool ival d \<longleftrightarrow> descriptor d \<noteq> ival"

definition id_eq :: "'i int_descriptor \<Rightarrow> 'i int_descriptor \<Rightarrow> bool" where
  "id_eq a b \<longleftrightarrow> id_get a = id_get b"

definition id_ne :: "'i int_descriptor \<Rightarrow> 'i int_descriptor \<Rightarrow> bool" where
  "id_ne a b \<longleftrightarrow> \<not> id_eq a b"

definition id_less :: "'i::linorder int_descriptor \<Rightarrow> 'i int_descriptor \<Rightarrow> bool" where
  "id_less a b \<longleftrightarrow> id_get a < id_get b"

text \<open>\<^verbatim>\<open>closed_fd\<close> and \<^verbatim>\<open>invalid_pid\<close>\<close>

definition closed_fd :: int where
  "closed_fd = - 1"

definition invalid_pid :: int where
  "invalid_pid = - 1"

type_synonym file_descriptor = "int int_descriptor"
type_synonym pid = "int int_descriptor"

lemmas int_descriptor_defs = int_descriptor_default_def int_descriptor_of_def id_move_ctor_def
  id_move_assign_def id_swap_def id_reset_def id_release_def id_get_def id_bool_def

subsection \<open>The interface of a handle cell\<close>

locale handle_cell =
  fixes ival :: 'i
    and make :: "'i \<Rightarrow> 'd"
    and cget :: "'d \<Rightarrow> 'i"
    and creset :: "'i \<Rightarrow> 'd \<Rightarrow> 'd"
    and crelease :: "'d \<Rightarrow> 'i \<times> 'd"
    and cmove :: "'d \<Rightarrow> 'd \<times> 'd"
    and cswap :: "'d \<Rightarrow> 'd \<Rightarrow> 'd \<times> 'd"
    and cvalid :: "'d \<Rightarrow> bool"
  assumes get_make: "cget (make v) = v"
    and get_reset: "cget (creset v d) = v"
    and release_fst: "fst (crelease d) = cget d"
    and release_snd: "cget (snd (crelease d)) = ival"
    and move_fst: "cget (fst (cmove d)) = cget d"
    and move_snd: "cget (snd (cmove d)) = ival"
    and swap_fst: "cget (fst (cswap d e)) = cget e"
    and swap_snd: "cget (snd (cswap d e)) = cget d"
    and valid_iff: "cvalid d \<longleftrightarrow> cget d \<noteq> ival"
begin

text \<open>The handles a cell is responsible for: one, or none.\<close>

definition owned :: "'d \<Rightarrow> 'i multiset" where
  "owned d = (if cvalid d then {#cget d#} else {#})"

lemma owned_get: "owned d = (if cget d = ival then {#} else {#cget d#})"
  by (simp add: owned_def valid_iff)

lemma move_owned: "owned (fst (cmove d)) + owned (snd (cmove d)) = owned d"
  by (simp add: owned_get move_fst move_snd)

lemma move_source_empty: "owned (snd (cmove d)) = {#}"
  by (simp add: owned_get move_snd)

lemma swap_owned: "owned (fst (cswap d e)) + owned (snd (cswap d e)) = owned d + owned e"
  by (simp add: owned_get swap_fst swap_snd add.commute)

lemma release_owned:
  "owned (snd (crelease d)) = {#}"
  "cvalid d \<Longrightarrow> owned d = {#fst (crelease d)#}"
  by (simp_all add: owned_get release_snd release_fst valid_iff)

lemma reset_owned: "v \<noteq> ival \<Longrightarrow> owned (creset v d) = {#v#}"
  by (simp add: owned_get get_reset)

end

interpretation fd_cell: handle_cell closed_fd int_descriptor_of id_get id_reset
  "id_release closed_fd" "id_move_ctor closed_fd" id_swap "id_bool closed_fd"
  by unfold_locales (simp_all add: int_descriptor_defs)

interpretation pid_cell: handle_cell invalid_pid int_descriptor_of id_get id_reset
  "id_release invalid_pid" "id_move_ctor invalid_pid" id_swap "id_bool invalid_pid"
  by unfold_locales (simp_all add: int_descriptor_defs)

lemma id_move_assign_other: "a \<noteq> b \<Longrightarrow>
    descriptor (id_move_assign ival a b st a) = descriptor (st b) \<and>
    descriptor (id_move_assign ival a b st b) = ival"
  by (simp add: id_move_assign_def Let_def)

lemma id_move_assign_self: "descriptor (id_move_assign ival a a st a) = ival"
  by (simp add: id_move_assign_def Let_def)

end
