(* ===== verification/Unique_Fd.thy ===== *)
theory Unique_Fd
  imports Descriptor
begin

text \<open>
  \<^verbatim>\<open>linuxpp::unique_fd<Closer>\<close>. The closer is a value of any type \<open>'c\<close> with a call
  operator \<open>run\<close>; \<^verbatim>\<open>default_close\<close> is the one that calls \<^verbatim>\<open>close\<close>. The
  second half runs programs of operations on a store of \<open>unique_fd\<close> objects and accounts for every
  descriptor that enters or leaves it.
\<close>

type_synonym ('c, 'w) closer = "'c \<Rightarrow> int \<Rightarrow> ('w, unit) syscall"

definition default_close :: "('w, 'x) fd_calls_scheme \<Rightarrow> (unit, 'w) closer" where
  "default_close K c fd = (\<lambda>s. ((), snd (sys_close K fd s)))"

record 'c unique_fd =
  fd_member :: file_descriptor
  closer_member :: 'c

definition unique_fd_default :: "'c \<Rightarrow> 'c unique_fd" where
  "unique_fd_default c = \<lparr>fd_member = int_descriptor_default closed_fd, closer_member = c\<rparr>"

definition unique_fd_of :: "int \<Rightarrow> 'c \<Rightarrow> 'c unique_fd" where
  "unique_fd_of fd c = \<lparr>fd_member = int_descriptor_of fd, closer_member = c\<rparr>"

definition ufd_get :: "'c unique_fd \<Rightarrow> int" where
  "ufd_get u = id_get (fd_member u)"

definition ufd_get_closer :: "'c unique_fd \<Rightarrow> 'c" where
  "ufd_get_closer u = closer_member u"

definition ufd_release :: "'c unique_fd \<Rightarrow> int \<times> 'c unique_fd" where
  "ufd_release u =
     (case id_release closed_fd (fd_member u) of (fd, d) \<Rightarrow> (fd, u\<lparr>fd_member := d\<rparr>))"

definition ufd_reset ::
  "('c, 'w) closer \<Rightarrow> int \<Rightarrow> 'c unique_fd \<Rightarrow> ('w, 'c unique_fd) syscall" where
  "ufd_reset run fd u = (\<lambda>s.
     let old_fd = id_get (fd_member u);
         u' = u\<lparr>fd_member := id_reset fd (fd_member u)\<rparr>
     in if old_fd \<noteq> closed_fd
        then (u', snd (run (ufd_get_closer u') old_fd s))
        else (u', s))"

definition ufd_destroy :: "('c, 'w) closer \<Rightarrow> 'c unique_fd \<Rightarrow> ('w, 'c unique_fd) syscall" where
  "ufd_destroy run u = ufd_reset run closed_fd u"

definition ufd_bool :: "'c unique_fd \<Rightarrow> bool" where
  "ufd_bool u \<longleftrightarrow> ufd_get u \<noteq> closed_fd"

text \<open>
  The defaulted move operations move the tuple member by member: the descriptor through
  \<open>int_descriptor\<close>'s move, the closer by copy.
\<close>

definition ufd_move_ctor :: "'c unique_fd \<Rightarrow> 'c unique_fd \<times> 'c unique_fd" where
  "ufd_move_ctor src =
     (case id_move_ctor closed_fd (fd_member src) of (d, d') \<Rightarrow>
        (\<lparr>fd_member = d, closer_member = closer_member src\<rparr>, src\<lparr>fd_member := d'\<rparr>))"

definition ufd_move_assign ::
  "'o \<Rightarrow> 'o \<Rightarrow> ('o \<Rightarrow> 'c unique_fd) \<Rightarrow> ('o \<Rightarrow> 'c unique_fd)" where
  "ufd_move_assign a b st =
     (let fds = id_move_assign closed_fd a b (\<lambda>x. fd_member (st x));
          st1 = (\<lambda>x. (st x)\<lparr>fd_member := fds x\<rparr>)
      in st1(a := (st1 a)\<lparr>closer_member := closer_member (st b)\<rparr>))"

definition ufd_swap :: "'c unique_fd \<Rightarrow> 'c unique_fd \<Rightarrow> 'c unique_fd \<times> 'c unique_fd" where
  "ufd_swap u v =
     (case id_swap (fd_member u) (fd_member v) of (d, e) \<Rightarrow>
        (u\<lparr>fd_member := d, closer_member := closer_member v\<rparr>,
         v\<lparr>fd_member := e, closer_member := closer_member u\<rparr>))"

definition ufd_eq :: "'c unique_fd \<Rightarrow> 'c unique_fd \<Rightarrow> bool" where
  "ufd_eq a b \<longleftrightarrow> ufd_get a = ufd_get b"

definition ufd_ne :: "'c unique_fd \<Rightarrow> 'c unique_fd \<Rightarrow> bool" where
  "ufd_ne a b \<longleftrightarrow> \<not> ufd_eq a b"

definition ufd_less :: "'c unique_fd \<Rightarrow> 'c unique_fd \<Rightarrow> bool" where
  "ufd_less a b \<longleftrightarrow> ufd_get a < ufd_get b"

lemmas unique_fd_defs = unique_fd_default_def unique_fd_of_def ufd_get_def ufd_get_closer_def
  ufd_release_def ufd_reset_def ufd_destroy_def ufd_bool_def ufd_move_ctor_def
  ufd_move_assign_def ufd_swap_def

lemma ufd_get_of [simp]: "ufd_get (unique_fd_of fd c) = fd"
  by (simp add: unique_fd_defs fd_cell.get_make)

lemma ufd_get_default [simp]: "ufd_get (unique_fd_default c) = closed_fd"
  by (simp add: unique_fd_defs int_descriptor_defs)

lemma ufd_get_reset [simp]: "ufd_get (fst (ufd_reset run fd u s)) = fd"
  by (simp add: unique_fd_defs Let_def fd_cell.get_reset)

subsection \<open>Programs over a store of objects\<close>

text \<open>
  \<open>cells a\<close> is the object at address \<open>a\<close>, \<open>None\<close> where none is alive. An operation on an object that
  is not alive (or a construction over a live one) is not a program: \<open>None\<close>. The second component of
  the result is the descriptor handed out by \<open>release\<close>.
\<close>

datatype ufd_op =
    Construct nat int
  | MoveConstruct nat nat
  | MoveAssign nat nat
  | Swap nat nat
  | Release nat
  | Reset nat int
  | Destroy nat

type_synonym ufd_store = "nat \<Rightarrow> unit unique_fd option"

fun ufd_step :: "(unit, 'w) closer \<Rightarrow> ufd_op \<Rightarrow> ufd_store \<Rightarrow> 'w sys
    \<Rightarrow> (ufd_store \<times> 'w sys \<times> int option) option" where
  "ufd_step run (Construct i fd) st s =
     (if st i = None then Some (st(i \<mapsto> unique_fd_of fd ()), s, None) else None)"
| "ufd_step run (MoveConstruct i j) st s =
     (case (st i, st j) of
        (None, Some v) \<Rightarrow>
          (case ufd_move_ctor v of (u, v') \<Rightarrow> Some (st(i \<mapsto> u, j \<mapsto> v'), s, None))
      | _ \<Rightarrow> None)"
| "ufd_step run (MoveAssign i j) st s =
     (case (st i, st j) of
        (Some u, Some v) \<Rightarrow>
          (let st' = ufd_move_assign i j (\<lambda>x. the (st x))
           in Some (st(i \<mapsto> st' i, j \<mapsto> st' j), s, None))
      | _ \<Rightarrow> None)"
| "ufd_step run (Swap i j) st s =
     (case (st i, st j) of
        (Some u, Some v) \<Rightarrow>
          (case ufd_swap u v of (u', v') \<Rightarrow> Some (st(i \<mapsto> u', j \<mapsto> v'), s, None))
      | _ \<Rightarrow> None)"
| "ufd_step run (Release i) st s =
     (case st i of
        Some u \<Rightarrow> (case ufd_release u of (fd, u') \<Rightarrow> Some (st(i \<mapsto> u'), s, Some fd))
      | None \<Rightarrow> None)"
| "ufd_step run (Reset i fd) st s =
     (case st i of
        Some u \<Rightarrow> (case ufd_reset run fd u s of (u', s') \<Rightarrow> Some (st(i \<mapsto> u'), s', None))
      | None \<Rightarrow> None)"
| "ufd_step run (Destroy i) st s =
     (case st i of
        Some u \<Rightarrow> (case ufd_destroy run u s of (u', s') \<Rightarrow> Some (st(i := None), s', None))
      | None \<Rightarrow> None)"

fun ufd_run :: "(unit, 'w) closer \<Rightarrow> ufd_op list \<Rightarrow> ufd_store \<Rightarrow> 'w sys
    \<Rightarrow> (ufd_store \<times> 'w sys \<times> int list) option" where
  "ufd_run run [] st s = Some (st, s, [])"
| "ufd_run run (x # xs) st s =
     (case ufd_step run x st s of
        None \<Rightarrow> None
      | Some (st', s', r) \<Rightarrow>
          (case ufd_run run xs st' s' of
             None \<Rightarrow> None
           | Some (st'', s'', rs) \<Rightarrow>
               Some (st'', s'', (case r of None \<Rightarrow> rs | Some fd \<Rightarrow> fd # rs))))"

text \<open>A closer that records what it is asked to close, in the order it is asked.\<close>

definition record_close :: "(unit, int list) closer" where
  "record_close c fd = (\<lambda>s. ((), s\<lparr>world := world s @ [fd]\<rparr>))"

subsection \<open>Accounting for descriptors\<close>

abbreviation fds :: "int \<Rightarrow> int multiset" where
  "fds fd \<equiv> (if fd = closed_fd then {#} else {#fd#})"

definition cell_fds :: "unit unique_fd option \<Rightarrow> int multiset" where
  "cell_fds c = (case c of None \<Rightarrow> {#} | Some u \<Rightarrow> fd_cell.owned (fd_member u))"

definition owned_fds :: "nat set \<Rightarrow> ufd_store \<Rightarrow> int multiset" where
  "owned_fds A st = (\<Sum>a\<in>A. cell_fds (st a))"

fun op_cells :: "ufd_op \<Rightarrow> nat set" where
  "op_cells (Construct i fd) = {i}"
| "op_cells (MoveConstruct i j) = {i, j}"
| "op_cells (MoveAssign i j) = {i, j}"
| "op_cells (Swap i j) = {i, j}"
| "op_cells (Release i) = {i}"
| "op_cells (Reset i fd) = {i}"
| "op_cells (Destroy i) = {i}"

fun op_acquired :: "ufd_op \<Rightarrow> int multiset" where
  "op_acquired (Construct i fd) = fds fd"
| "op_acquired (Reset i fd) = fds fd"
| "op_acquired _ = {#}"

text \<open>What an operation drops without closing it: only a move assignment drops anything.\<close>

fun op_lost :: "ufd_op \<Rightarrow> ufd_store \<Rightarrow> int multiset" where
  "op_lost (MoveAssign i j) st = cell_fds (st i)"
| "op_lost _ st = {#}"

fun run_acquired :: "ufd_op list \<Rightarrow> int multiset" where
  "run_acquired [] = {#}"
| "run_acquired (x # xs) = op_acquired x + run_acquired xs"

fun run_lost :: "(unit, 'w) closer \<Rightarrow> ufd_op list \<Rightarrow> ufd_store \<Rightarrow> 'w sys \<Rightarrow> int multiset" where
  "run_lost run [] st s = {#}"
| "run_lost run (x # xs) st s =
     op_lost x st +
     (case ufd_step run x st s of None \<Rightarrow> {#} | Some (st', s', r) \<Rightarrow> run_lost run xs st' s')"

abbreviation released :: "int list \<Rightarrow> int multiset" where
  "released rs \<equiv> (\<Sum>fd \<in># mset rs. fds fd)"

lemma cell_fds_None [simp]: "cell_fds None = {#}"
  by (simp add: cell_fds_def)

lemma cell_fds_Some: "cell_fds (Some u) = fds (ufd_get u)"
  by (simp add: cell_fds_def fd_cell.owned_get ufd_get_def)

lemma owned_fds_upd:
  assumes "finite A" and "i \<in> A"
  shows "owned_fds A (st(i := c)) + cell_fds (st i) = owned_fds A st + cell_fds c"
proof -
  have "(\<Sum>a\<in>A - {i}. cell_fds ((st(i := c)) a)) = (\<Sum>a\<in>A - {i}. cell_fds (st a))"
    by (rule sum.cong) auto
  with assms show ?thesis
    by (simp add: owned_fds_def sum.remove [of A i] ac_simps)
qed

lemma owned_fds_upd2:
  assumes "finite A" and "i \<in> A" and "j \<in> A" and "i \<noteq> j"
  shows "owned_fds A (st(i := c, j := d)) + cell_fds (st i) + cell_fds (st j)
       = owned_fds A st + cell_fds c + cell_fds d"
  using owned_fds_upd [OF assms(1,2), of st c] owned_fds_upd [OF assms(1,3), of "st(i := c)" d]
    assms(4) by (simp add: ac_simps)

text \<open>One cell, or two distinct cells, are overwritten: the books balance if the cells' do.\<close>

lemma balance_cell:
  assumes "finite A" and "i \<in> A" and "cell_fds (st i) + a = cell_fds c + b"
  shows "owned_fds A st + a = owned_fds A (st(i := c)) + b"
proof -
  from owned_fds_upd [OF assms(1,2), of st c] assms(3)
  have "cell_fds (st i) + (owned_fds A st + a) = cell_fds (st i) + (owned_fds A (st(i := c)) + b)"
    by (metis add.assoc add.commute)
  then show ?thesis by simp
qed

lemma balance_cells:
  assumes "finite A" and "i \<in> A" and "j \<in> A" and "i \<noteq> j"
    and "cell_fds (st i) + cell_fds (st j) + a = cell_fds c + cell_fds d + b"
  shows "owned_fds A st + a = owned_fds A (st(i := c, j := d)) + b"
proof -
  let ?o = "cell_fds (st i) + cell_fds (st j)"
  from owned_fds_upd2 [OF assms(1-4), of st c d] assms(5)
  have "?o + (owned_fds A st + a) = ?o + (owned_fds A (st(i := c, j := d)) + b)"
    by (metis add.assoc add.commute)
  then show ?thesis by simp
qed

lemma ufd_move_ctor_get:
  assumes "ufd_move_ctor v = (u, v')"
  shows "ufd_get u = ufd_get v" and "ufd_get v' = closed_fd"
  using assms by (auto simp: unique_fd_defs int_descriptor_defs)

lemma ufd_move_assign_get:
  "ufd_get (ufd_move_assign i j st i) = (if i = j then closed_fd else ufd_get (st j))"
  "ufd_get (ufd_move_assign i j st j) = closed_fd"
  by (simp_all add: unique_fd_defs int_descriptor_defs Let_def)

lemma ufd_swap_get:
  assumes "ufd_swap u v = (u', v')"
  shows "ufd_get u' = ufd_get v" and "ufd_get v' = ufd_get u"
  using assms by (auto simp: unique_fd_defs int_descriptor_defs)

lemma ufd_release_get:
  assumes "ufd_release u = (fd, u')"
  shows "fd = ufd_get u" and "ufd_get u' = closed_fd"
  using assms by (auto simp: unique_fd_defs int_descriptor_defs)

lemma ufd_reset_record:
  assumes "ufd_reset record_close fd u s = (u', s')"
  shows "ufd_get u' = fd" and "mset (world s') = mset (world s) + fds (ufd_get u)"
  using assms
  by (auto simp: unique_fd_defs int_descriptor_defs record_close_def Let_def split: if_splits)

lemma move_assign_balance:
  assumes "finite A" and "i \<in> A" and "j \<in> A" and "st i = Some u" and "st j = Some v"
  shows "owned_fds A st = owned_fds A (st(i \<mapsto> ufd_move_assign i j (\<lambda>x. the (st x)) i,
                                            j \<mapsto> ufd_move_assign i j (\<lambda>x. the (st x)) j))
                        + cell_fds (st i)"
proof (cases "i = j")
  case True
  with assms balance_cell [of A i st "{#}"] show ?thesis
    by (simp add: cell_fds_Some ufd_move_assign_get)
next
  case False
  with assms balance_cells [of A i j st "{#}"] show ?thesis
    by (simp add: cell_fds_Some ufd_move_assign_get ac_simps)
qed

lemma swap_balance:
  assumes "finite A" and "i \<in> A" and "j \<in> A" and "st i = Some u" and "st j = Some v"
    and "ufd_swap u v = (u', v')"
  shows "owned_fds A st = owned_fds A (st(i \<mapsto> u', j \<mapsto> v'))"
proof (cases "i = j")
  case True
  with assms balance_cell [of A i st "{#}" "Some v'" "{#}"] show ?thesis
    by (simp add: cell_fds_Some ufd_swap_get)
next
  case False
  with assms balance_cells [of A i j st "{#}" "Some u'" "Some v'" "{#}"] show ?thesis
    by (simp add: cell_fds_Some ufd_swap_get ac_simps)
qed

lemma move_construct_balance:
  assumes "finite A" and "i \<in> A" and "j \<in> A" and "st i = None" and "st j = Some v"
    and "ufd_move_ctor v = (u, v')"
  shows "owned_fds A st = owned_fds A (st(i \<mapsto> u, j \<mapsto> v'))"
proof -
  have "i \<noteq> j" using assms(4,5) by auto
  with assms balance_cells [of A i j st "{#}" "Some u" "Some v'" "{#}"] show ?thesis
    by (simp add: cell_fds_Some ufd_move_ctor_get)
qed

lemma reset_balance:
  assumes "finite A" and "i \<in> A" and "st i = Some u"
    and "ufd_reset record_close fd u s = (u', s')" and "cell_fds c = fds fd"
  shows "owned_fds A st + mset (world s) + fds fd = owned_fds A (st(i := c)) + mset (world s')"
  using balance_cell [OF assms(1,2), of st "fds fd" c "fds (ufd_get u)"] assms(3,5)
  by (simp add: ufd_reset_record [OF assms(4)] cell_fds_Some ac_simps)

lemma ufd_step_balance:
  assumes step: "ufd_step record_close x st s = Some (st', s', r)"
    and A: "finite A" and sub: "op_cells x \<subseteq> A"
  shows "owned_fds A st + mset (world s) + op_acquired x
       = owned_fds A st' + mset (world s') + released (case r of None \<Rightarrow> [] | Some fd \<Rightarrow> [fd])
         + op_lost x st"
proof (cases x)
  case (Construct i fd)
  with step sub balance_cell [OF A, of i st "fds fd" "Some (unique_fd_of fd ())" "{#}"] show ?thesis
    by (cases "fd = closed_fd") (auto simp: cell_fds_Some split: if_splits)
next
  case (MoveConstruct i j)
  with step sub move_construct_balance [OF A, of i j st] show ?thesis
    by (auto split: option.splits prod.splits)
next
  case (MoveAssign i j)
  with step sub move_assign_balance [OF A, of i j st] show ?thesis
    by (auto simp: Let_def ac_simps split: option.splits)
next
  case (Swap i j)
  with step sub swap_balance [OF A, of i j st] show ?thesis
    by (auto split: option.splits prod.splits)
next
  case (Release i)
  then obtain u fd u' where st: "st i = Some u" "ufd_release u = (fd, u')"
    "st' = st(i \<mapsto> u')" "s' = s" "r = Some fd" "i \<in> A"
    using step sub by (auto split: option.splits prod.splits)
  moreover from st(2) have "fd = ufd_get u" "ufd_get u' = closed_fd"
    by (rule ufd_release_get)+
  ultimately show ?thesis
    using balance_cell [OF A, of i st "{#}" "Some u'" "fds fd"] Release
    by (simp add: cell_fds_Some)
next
  case (Reset i fd)
  then obtain u u' where "st i = Some u" "ufd_reset record_close fd u s = (u', s')"
    "st' = st(i \<mapsto> u')" "r = None" "i \<in> A"
    using step sub by (auto split: option.splits prod.splits)
  with reset_balance [OF A, of i st u fd s u' s' "Some u'"] Reset show ?thesis
    by (simp add: cell_fds_Some ufd_reset_record)
next
  case (Destroy i)
  then obtain u u' where "st i = Some u" "ufd_reset record_close closed_fd u s = (u', s')"
    "st' = st(i := None)" "r = None" "i \<in> A"
    using step sub by (auto split: option.splits prod.splits simp: ufd_destroy_def)
  with reset_balance [OF A, of i st u closed_fd s u' s' None] Destroy show ?thesis
    by simp
qed

lemma balance_trans:
  fixes p :: "'a :: comm_monoid_add"
  assumes "p + a = q + r + l" and "q + a' = t + r' + l'"
  shows "p + (a + a') = t + (r + r') + (l + l')"
proof -
  have "p + (a + a') = (q + r + l) + a'" by (simp add: assms(1) add.assoc [symmetric])
  also have "\<dots> = (q + a') + (r + l)" by (simp add: ac_simps)
  also have "\<dots> = t + (r + r') + (l + l')" unfolding assms(2) by (simp add: ac_simps)
  finally show ?thesis .
qed

lemma released_step:
  "released (case r of None \<Rightarrow> rs | Some fd \<Rightarrow> fd # rs)
     = released (case r of None \<Rightarrow> [] | Some fd \<Rightarrow> [fd]) + released rs"
  by (cases r) simp_all

lemma ufd_run_balance:
  assumes "ufd_run record_close xs st s = Some (st', s', rs)" and "finite A"
    and "(\<Union>x\<in>set xs. op_cells x) \<subseteq> A"
  shows "owned_fds A st + mset (world s) + run_acquired xs
       = owned_fds A st' + mset (world s') + released rs + run_lost record_close xs st s"
  using assms
proof (induction xs arbitrary: st s rs)
  case Nil
  then show ?case by simp
next
  case (Cons x xs)
  from Cons.prems(1) obtain st1 s1 r1 rs1 where
    x: "ufd_step record_close x st s = Some (st1, s1, r1)" and
    xs: "ufd_run record_close xs st1 s1 = Some (st', s', rs1)" and
    rs: "rs = (case r1 of None \<Rightarrow> rs1 | Some fd \<Rightarrow> fd # rs1)"
    by (auto split: option.splits)
  from Cons.prems(3) have "op_cells x \<subseteq> A" and sub: "(\<Union>x\<in>set xs. op_cells x) \<subseteq> A"
    by auto
  from balance_trans [OF ufd_step_balance [OF x Cons.prems(2) this(1)]
      Cons.IH [OF xs Cons.prems(2) sub]]
  show ?case using x unfolding rs released_step [where r = r1 and rs = rs1] by simp
qed

lemma run_lost_no_move_assign:
  "(\<forall>x\<in>set xs. \<forall>i j. x \<noteq> MoveAssign i j) \<Longrightarrow> run_lost run xs st s = {#}"
proof (induction xs arbitrary: st s)
  case (Cons x xs)
  then show ?case by (cases x) (auto split: option.splits)
qed simp

lemma distinct_mset_count: "(\<forall>x. count (mset xs) x \<le> 1) \<longleftrightarrow> distinct xs"
  by (auto simp: distinct_count_atmost_1 le_Suc_eq)

abbreviation no_objects :: ufd_store where
  "no_objects \<equiv> (\<lambda>_. None)"

abbreviation program_cells :: "ufd_op list \<Rightarrow> nat set" where
  "program_cells xs \<equiv> (\<Union>x\<in>set xs. op_cells x)"

lemma finite_program_cells: "finite (program_cells xs)"
proof -
  have "finite (op_cells x)" for x by (cases x) auto
  then show ?thesis by simp
qed

lemma owned_fds_empty [simp]: "owned_fds A no_objects = {#}"
  by (simp add: owned_fds_def)

lemma ufd_program_balance:
  assumes "ufd_run record_close xs no_objects s = Some (st, s', rs)" and "world s = []"
  shows "run_acquired xs = owned_fds (program_cells xs) st + mset (world s') + released rs
           + run_lost record_close xs no_objects s"
  using ufd_run_balance [OF assms(1) finite_program_cells subset_refl] assms(2) by simp

text \<open>The descriptors owned by the objects at the addresses \<open>is\<close>.\<close>

definition scope_fds :: "ufd_store \<Rightarrow> nat list \<Rightarrow> int list" where
  "scope_fds st is = filter (\<lambda>fd. fd \<noteq> closed_fd) (map (\<lambda>i. ufd_get (the (st i))) is)"

lemma ufd_destroy_record:
  "snd (ufd_destroy record_close u s) = s\<lparr>world := world s @ (if ufd_bool u then [ufd_get u] else [])\<rparr>"
  by (auto simp: unique_fd_defs int_descriptor_defs record_close_def Let_def)

lemma ufd_run_destroys:
  assumes "distinct is" and "set is \<subseteq> dom st"
  shows "ufd_run record_close (map Destroy is) st s
       = Some (st |` (- set is), s\<lparr>world := world s @ scope_fds st is\<rparr>, [])"
  using assms
proof (induction "is" arbitrary: st s)
  case Nil
  then show ?case by (simp add: scope_fds_def)
next
  case (Cons i "is")
  then obtain u where u: "st i = Some u" by auto
  let ?s = "snd (ufd_destroy record_close u s)"
  have "ufd_run record_close (map Destroy is) (st(i := None)) ?s
      = Some ((st(i := None)) |` (- set is), ?s\<lparr>world := world ?s @ scope_fds (st(i := None)) is\<rparr>, [])"
    using Cons.prems by (intro Cons.IH) auto
  moreover have "scope_fds (st(i := None)) is = scope_fds st is"
    using Cons.prems(1) unfolding scope_fds_def by (auto intro!: arg_cong [where f = "filter _"])
  moreover have "(st(i := None)) |` (- set is) = st |` (- set (i # is))"
    by (auto simp: restrict_map_def fun_eq_iff)
  ultimately show ?case
    using u ufd_destroy_record [of u s]
    by (cases "ufd_destroy record_close u s") (auto simp: scope_fds_def ufd_bool_def)
qed

lemma restrict_compl_dom: "st |` (- dom st) = no_objects"
  by (auto simp: restrict_map_def fun_eq_iff)

lemma ufd_run_append:
  assumes "ufd_run run xs st s = Some (st1, s1, rs)" and "ufd_run run ys st1 s1 = Some (st2, s2, rs')"
  shows "ufd_run run (xs @ ys) st s = Some (st2, s2, rs @ rs')"
  using assms
proof (induction xs arbitrary: st s rs)
  case (Cons x xs)
  then show ?case by (force split: option.splits)
qed simp

lemma run_lost_append:
  assumes "ufd_run run xs st s = Some (st1, s1, rs)"
  shows "run_lost run (xs @ ys) st s = run_lost run xs st s + run_lost run ys st1 s1"
  using assms
proof (induction xs arbitrary: st s rs)
  case (Cons x xs)
  then show ?case by (auto simp: ac_simps split: option.splits)
qed simp

lemma run_acquired_destroys: "run_acquired (xs @ map Destroy is) = run_acquired xs"
proof (induction xs)
  case Nil
  then show ?case by (induction "is") simp_all
qed simp

subsection \<open>Properties\<close>

abbreviation fresh_sys :: "int list sys" where
  "fresh_sys \<equiv> \<lparr>errno = 0, mem = (\<lambda>_. 0), world = []\<rparr>"

text \<open>
  C6. Whatever program of constructions, moves, swaps, releases, resets and destructions runs on a
  store of \<^verbatim>\<open>unique_fd\<close> objects, every descriptor given to them is, with its
  multiplicity, either still owned by a live object, or was passed to the closer, or was handed out by
  \<^verbatim>\<open>release\<close>, or was overwritten by a move assignment.
\<close>

theorem ufd_accounting:
  assumes "ufd_run record_close xs no_objects s = Some (st, s', rs)" and "world s = []"
  shows "run_acquired xs = owned_fds (program_cells xs) st + mset (world s') + released rs
           + run_lost record_close xs no_objects s"
  by (rule ufd_program_balance [OF assms])

theorem ufd_accounting_witness:
  "run_acquired [Construct 0 3, MoveConstruct 1 0, Destroy 1, Destroy 0] =
     owned_fds (program_cells [Construct 0 3, MoveConstruct 1 0, Destroy 1, Destroy 0]) no_objects
     + mset [3] + released [] + {#}"
proof -
  let ?xs = "[Construct 0 3, MoveConstruct 1 0, Destroy 1, Destroy 0]"
  have r: "ufd_run record_close ?xs no_objects fresh_sys
      = Some (no_objects, fresh_sys\<lparr>world := [3]\<rparr>, [])"
    by (simp add: unique_fd_defs int_descriptor_defs record_close_def Let_def closed_fd_def
        fun_eq_iff)
  from ufd_accounting [OF r] show ?thesis
    by (simp add: unique_fd_defs int_descriptor_defs record_close_def Let_def closed_fd_def
        run_lost_no_move_assign)
qed

text \<open>
  C7. No descriptor is closed twice: if every descriptor given to the objects is given once, the
  closer is called at most once for each of them, and never for one that a live object still owns.
\<close>

theorem ufd_no_double_close:
  assumes "ufd_run record_close xs no_objects s = Some (st, s', rs)" and "world s = []"
    and "\<forall>fd. count (run_acquired xs) fd \<le> 1"
  shows "distinct (world s') \<and> (\<forall>fd \<in> set (world s'). fd \<notin># owned_fds (program_cells xs) st)"
proof -
  have eq: "run_acquired xs = mset (world s') + (owned_fds (program_cells xs) st + released rs
           + run_lost record_close xs no_objects s)"
    using ufd_program_balance [OF assms(1,2)] by (simp add: ac_simps)
  have c: "count (mset (world s')) fd + count (owned_fds (program_cells xs) st) fd \<le> 1" for fd
    using assms(3) [rule_format, of fd] unfolding eq by simp
  have "distinct (world s')"
    unfolding distinct_mset_count [symmetric] using c by (meson le_trans le_add1)
  moreover have "fd \<notin># owned_fds (program_cells xs) st" if "fd \<in> set (world s')" for fd
  proof -
    from that have "1 \<le> count (mset (world s')) fd" by (simp add: count_greater_eq_one_iff)
    with c [of fd] show ?thesis by (simp only: not_in_iff)
  qed
  ultimately show ?thesis by blast
qed

theorem ufd_no_double_close_witness:
  "distinct [3 :: int] \<and>
     3 \<notin># owned_fds (program_cells [Construct 0 3, Construct 1 4, Destroy 0]) [1 \<mapsto> unique_fd_of 4 ()]"
proof -
  let ?xs = "[Construct 0 3, Construct 1 4, Destroy 0]"
  have r: "ufd_run record_close ?xs no_objects fresh_sys
      = Some ([1 \<mapsto> unique_fd_of 4 ()], fresh_sys\<lparr>world := [3]\<rparr>, [])"
    by (simp add: unique_fd_defs int_descriptor_defs record_close_def Let_def closed_fd_def
        fun_eq_iff)
  from ufd_no_double_close [OF r] show ?thesis by (simp add: closed_fd_def)
qed

text \<open>
  C8. Scope exit closes everything that is still owned: after any program (releases and move
  assignments included), destroying the objects that are alive, in whatever order, leaves no object,
  hands nothing out, and passes to the closer exactly the descriptors the destroyed objects own, once
  each and in the order of the destructions; what the program acquired has then been closed, except
  for what \<^verbatim>\<open>release\<close> handed out and what a move assignment overwrote.
\<close>

theorem ufd_scope_closes_all:
  assumes "ufd_run record_close xs no_objects s = Some (st, s1, rs)" and "world s = []"
    and "distinct is" and "set is = dom st"
  shows "\<exists>s'. ufd_run record_close (map Destroy is) st s1 = Some (no_objects, s', [])
           \<and> world s' = world s1 @ scope_fds st is
           \<and> run_acquired xs = mset (world s') + released rs
               + run_lost record_close xs no_objects s"
proof (intro exI conjI)
  let ?s' = "s1\<lparr>world := world s1 @ scope_fds st is\<rparr>"
  have run: "ufd_run record_close (map Destroy is) st s1 = Some (no_objects, ?s', [])"
    using ufd_run_destroys [OF assms(3), of st s1] assms(4) by (simp add: restrict_compl_dom)
  then show "ufd_run record_close (map Destroy is) st s1 = Some (no_objects, ?s', [])" .
  have "run_acquired (xs @ map Destroy is) = mset (world ?s') + released rs
          + run_lost record_close (xs @ map Destroy is) no_objects s"
    using ufd_program_balance [OF ufd_run_append [OF assms(1) run] assms(2)] by simp
  then show "run_acquired xs = mset (world ?s') + released rs + run_lost record_close xs no_objects s"
    using run_lost_append [OF assms(1), of "map Destroy is"]
    by (simp add: run_acquired_destroys run_lost_no_move_assign)
qed simp

theorem ufd_scope_closes_all_witness:
  "\<exists>s'. ufd_run record_close (map Destroy [2, 1, 0]) [0 \<mapsto> unique_fd_of 3 (), 1 \<mapsto> unique_fd_of (- 1) (),
           2 \<mapsto> unique_fd_of 5 ()] fresh_sys = Some (no_objects, s', [])
     \<and> world s' = [5, 3 :: int]
     \<and> {#3, 4, 5#} = mset (world s') + {#4#}"
proof -
  let ?xs = "[Construct 0 3, Construct 1 4, Construct 2 5, Release 1]"
  let ?st = "[0 \<mapsto> unique_fd_of 3 (), 1 \<mapsto> unique_fd_of (- 1) (), 2 \<mapsto> unique_fd_of 5 ()]"
  have r: "ufd_run record_close ?xs no_objects fresh_sys = Some (?st, fresh_sys, [4])"
    by (simp add: unique_fd_defs int_descriptor_defs closed_fd_def fun_eq_iff)
  have d: "set [2, 1, 0] = dom ?st" by auto
  have l: "run_lost record_close ?xs no_objects fresh_sys = {#}"
    by (rule run_lost_no_move_assign) simp
  have "scope_fds ?st [2, 1, 0] = [5, 3]" by (simp add: scope_fds_def closed_fd_def)
  with ufd_scope_closes_all [OF r _ _ d] l show ?thesis
    by (simp add: closed_fd_def add_mset_commute del: ufd_run.simps run_lost.simps list.map)
qed

text \<open>
  Move assignment onto an object that owns a descriptor drops it: the closer is not called, the
  target ends up with the source's descriptor and the source with none, so no object of
  the pair refers to the old descriptor any more.
\<close>

theorem ufd_move_assign_drops:
  assumes "st i = Some u" and "st j = Some v" and "i \<noteq> j" and "ufd_get u \<noteq> ufd_get v" and "ufd_bool u"
  shows "\<exists>u' v'. ufd_step run (MoveAssign i j) st s = Some (st(i \<mapsto> u', j \<mapsto> v'), s, None)
           \<and> ufd_get u' = ufd_get v \<and> ufd_get v' = closed_fd
           \<and> ufd_get u \<notin> {ufd_get u', ufd_get v'}"
proof (intro exI conjI)
  let ?w = "ufd_move_assign i j (\<lambda>x. the (st x))"
  show "ufd_step run (MoveAssign i j) st s = Some (st(i \<mapsto> ?w i, j \<mapsto> ?w j), s, None)"
    using assms(1,2) by (simp add: Let_def)
  show "ufd_get (?w i) = ufd_get v" "ufd_get (?w j) = closed_fd"
    "ufd_get u \<notin> {ufd_get (?w i), ufd_get (?w j)}"
    using assms by (simp_all add: ufd_move_assign_get ufd_bool_def)
qed

theorem ufd_move_assign_drops_witness:
  "\<exists>u' v'. ufd_step record_close (MoveAssign 0 1)
       [0 \<mapsto> unique_fd_of 3 (), 1 \<mapsto> unique_fd_of 4 ()] fresh_sys
     = Some ([0 \<mapsto> unique_fd_of 3 (), 1 \<mapsto> unique_fd_of 4 (), 0 \<mapsto> u', 1 \<mapsto> v'], fresh_sys, None)
     \<and> ufd_get u' = 4 \<and> ufd_get v' = closed_fd \<and> (3::int) \<notin> {ufd_get u', ufd_get v'}"
  using ufd_move_assign_drops [of "[0 \<mapsto> unique_fd_of 3 (), 1 \<mapsto> unique_fd_of 4 ()]" 0
      "unique_fd_of 3 ()" 1 "unique_fd_of 4 ()" record_close fresh_sys]
  by (simp add: ufd_bool_def closed_fd_def)

end
