(* ===== verification/Pipe.thy ===== *)
theory Pipe
  imports Files Unique_Fd
begin

text \<open>
  \<^verbatim>\<open>linuxpp::pipe\<close> and the functions that create one (\<^verbatim>\<open>pipe.cpp\<close>,
  \<^verbatim>\<open>pipe.hpp\<close>). The member array of two \<open>unique_fd\<close> is the record \<open>pipe\<close>.
\<close>

definition pipe_fd_nocloexec ::
  "('w, 'x) fd_calls_scheme \<Rightarrow> int \<Rightarrow> ('w sys, int \<times> int) cmd" where
  "pipe_fd_nocloexec K flags =
     bind_c (call (sys_pipe2 K flags)) (\<lambda>(ret, fd0, fd1).
     if ret = - 1 then throw_errno ''pipe2 failed'' else ret_c (fd0, fd1))"

definition pipe_fd :: "('w, 'x) fd_calls_scheme \<Rightarrow> int \<Rightarrow> ('w sys, int \<times> int) cmd" where
  "pipe_fd K flags = pipe_fd_nocloexec K (flags OR O_CLOEXEC)"

definition pipe_unique_fd_nocloexec ::
  "('w, 'x) fd_calls_scheme \<Rightarrow> int \<Rightarrow> ('w sys, unit unique_fd \<times> unit unique_fd) cmd" where
  "pipe_unique_fd_nocloexec K flags =
     bind_c (pipe_fd_nocloexec K flags) (\<lambda>(fd0, fd1).
     ret_c (unique_fd_of fd0 (), unique_fd_of fd1 ()))"

definition pipe_unique_fd ::
  "('w, 'x) fd_calls_scheme \<Rightarrow> int \<Rightarrow> ('w sys, unit unique_fd \<times> unit unique_fd) cmd" where
  "pipe_unique_fd K flags = pipe_unique_fd_nocloexec K (flags OR O_CLOEXEC)"

record pipe =
  read_fd_member :: "unit unique_fd"
  write_fd_member :: "unit unique_fd"

definition pipe_ctor :: "('w, 'x) fd_calls_scheme \<Rightarrow> int \<Rightarrow> ('w sys, pipe) cmd" where
  "pipe_ctor K flags =
     bind_c (pipe_unique_fd K flags) (\<lambda>(r, w).
     ret_c \<lparr>read_fd_member = r, write_fd_member = w\<rparr>)"

definition pipe_ctor_nocloexec :: "('w, 'x) fd_calls_scheme \<Rightarrow> int \<Rightarrow> ('w sys, pipe) cmd" where
  "pipe_ctor_nocloexec K flags =
     bind_c (pipe_unique_fd_nocloexec K flags) (\<lambda>(r, w).
     ret_c \<lparr>read_fd_member = r, write_fd_member = w\<rparr>)"

text \<open>The defaulted destructor destroys the members in reverse order.\<close>

definition pipe_destroy :: "('w, 'x) fd_calls_scheme \<Rightarrow> pipe \<Rightarrow> ('w, unit) syscall" where
  "pipe_destroy K p = (\<lambda>s.
     let s1 = snd (ufd_destroy (default_close K) (write_fd_member p) s);
         s2 = snd (ufd_destroy (default_close K) (read_fd_member p) s1)
     in ((), s2))"

definition pipe_write_nothrow ::
  "('w, 'x) fd_calls_scheme \<Rightarrow> pipe \<Rightarrow> addr \<Rightarrow> size_t \<Rightarrow> ('w sys, int syscall_return) cmd" where
  "pipe_write_nothrow K p buf len =
     bind_c (call (sys_write K (ufd_get (write_fd_member p)) buf len)) (\<lambda>ret.
     bind_c (gets_c errno) (\<lambda>e.
     ret_c (syscall_return_pair e ret)))"

definition pipe_write ::
  "('w, 'x) fd_calls_scheme \<Rightarrow> pipe \<Rightarrow> addr \<Rightarrow> size_t \<Rightarrow> ('w sys, size_t) cmd" where
  "pipe_write K p buf len =
     bind_c (pipe_write_nothrow K p buf len) (\<lambda>ret.
     if \<not> sr_bool ret
     then throw_c (System_error (errno_value ret) ''write system call failed'')
     else ret_c (to_size (return_value ret)))"

definition pipe_read_nothrow ::
  "('w, 'x) fd_calls_scheme \<Rightarrow> pipe \<Rightarrow> size_t \<Rightarrow> ('w sys, int syscall_return \<times> byte list) cmd" where
  "pipe_read_nothrow K p len =
     bind_c (call (sys_read K (ufd_get (read_fd_member p)) len)) (\<lambda>(ret, bytes).
     bind_c (gets_c errno) (\<lambda>e.
     ret_c (syscall_return_pair e ret, bytes)))"

definition pipe_read ::
  "('w, 'x) fd_calls_scheme \<Rightarrow> pipe \<Rightarrow> size_t \<Rightarrow> ('w sys, size_t \<times> byte list) cmd" where
  "pipe_read K p len =
     bind_c (pipe_read_nothrow K p len) (\<lambda>(ret, bytes).
     if \<not> sr_bool ret
     then throw_c (System_error (errno_value ret) ''read system call failed'')
     else ret_c (to_size (return_value ret), bytes))"

definition pipe_swap :: "pipe \<Rightarrow> pipe \<Rightarrow> pipe \<times> pipe" where
  "pipe_swap a b =
     (case (ufd_swap (read_fd_member a) (read_fd_member b),
            ufd_swap (write_fd_member a) (write_fd_member b)) of
        ((ra, rb), (wa, wb)) \<Rightarrow>
          (\<lparr>read_fd_member = ra, write_fd_member = wa\<rparr>,
           \<lparr>read_fd_member = rb, write_fd_member = wb\<rparr>))"

text \<open>The defaulted moves are those of the members.\<close>

definition pipe_move_ctor :: "pipe \<Rightarrow> pipe \<times> pipe" where
  "pipe_move_ctor src =
     (case (ufd_move_ctor (read_fd_member src), ufd_move_ctor (write_fd_member src)) of
        ((r, r'), (w, w')) \<Rightarrow>
          (\<lparr>read_fd_member = r, write_fd_member = w\<rparr>, \<lparr>read_fd_member = r', write_fd_member = w'\<rparr>))"

definition pipe_move_assign :: "'o \<Rightarrow> 'o \<Rightarrow> ('o \<Rightarrow> pipe) \<Rightarrow> ('o \<Rightarrow> pipe)" where
  "pipe_move_assign a b st =
     (let rs = ufd_move_assign a b (\<lambda>x. read_fd_member (st x)); ws = ufd_move_assign a b (\<lambda>x. write_fd_member (st x))
      in (\<lambda>x. \<lparr>read_fd_member = rs x, write_fd_member = ws x\<rparr>))"

definition pipe_read_fd :: "pipe \<Rightarrow> unit unique_fd" where
  "pipe_read_fd p = read_fd_member p"

definition pipe_write_fd :: "pipe \<Rightarrow> unit unique_fd" where
  "pipe_write_fd p = write_fd_member p"

text \<open>
  The templates \<^verbatim>\<open>write(const T& obj)\<close> pass \<^verbatim>\<open>obj\<close> itself where a
  pointer is expected, so they are defined for arrays, which decay to a pointer to their first element, and for pointers:
  \<open>obj\<close> is that pointer, \<open>size_of\<close> is \<^verbatim>\<open>sizeof(T)\<close> (8 for a pointer).
\<close>

definition pipe_write_obj_nothrow ::
  "('w, 'x) fd_calls_scheme \<Rightarrow> pipe \<Rightarrow> addr \<Rightarrow> size_t \<Rightarrow> ('w sys, int syscall_return) cmd" where
  "pipe_write_obj_nothrow K p obj size_of =
     bind_c (pipe_write_nothrow K p obj size_of) (\<lambda>ret.
     if \<not> sr_bool ret \<or> to_size (return_value ret) \<noteq> size_of
     then ret_c (syscall_return_pair EAGAIN (return_value ret))
     else ret_c (syscall_return_pair 0 (return_value ret)))"

definition pipe_write_obj :: "('w, 'x) fd_calls_scheme \<Rightarrow> pipe \<Rightarrow> addr \<Rightarrow> size_t \<Rightarrow> ('w sys, unit) cmd" where
  "pipe_write_obj K p obj size_of =
     bind_c (pipe_write_obj_nothrow K p obj size_of) (\<lambda>ret.
     if \<not> sr_bool ret then throw_c (System_error (errno_value ret) ''object write failed'')
     else if to_size (return_value ret) \<noteq> size_of then throw_c (System_error EAGAIN ''partial object write'')
     else ret_c ())"

text \<open>
  The templates \<^verbatim>\<open>read<T>()\<close> return the result of the call where the object read is expected: they are
  defined for \<^verbatim>\<open>T = ssize_t\<close> only, and the object is dropped.
\<close>

definition pipe_read_obj_nothrow :: "('w, 'x) fd_calls_scheme \<Rightarrow> pipe \<Rightarrow> ('w sys, int syscall_return) cmd" where
  "pipe_read_obj_nothrow K p =
     bind_c (pipe_read_nothrow K p 8) (\<lambda>(ret, t).
     if \<not> sr_bool ret then syscall_return_seterrno 0 (errno_value ret)
     else if to_size (return_value ret) \<noteq> 8 then syscall_return_seterrno 0 ENODATA
     else ret_c ret)"

definition pipe_read_obj :: "('w, 'x) fd_calls_scheme \<Rightarrow> pipe \<Rightarrow> ('w sys, int) cmd" where
  "pipe_read_obj K p =
     bind_c (pipe_read_obj_nothrow K p) (\<lambda>ret.
     if \<not> sr_bool ret then throw_c (System_error (errno_value ret) ''failed to read object'')
     else ret_c (return_value ret))"

lemmas pipe_defs = pipe_fd_nocloexec_def pipe_fd_def pipe_unique_fd_nocloexec_def
  pipe_unique_fd_def pipe_ctor_def pipe_ctor_nocloexec_def pipe_destroy_def pipe_write_nothrow_def
  pipe_write_def pipe_read_nothrow_def pipe_read_def

lemmas pipe_obj_defs = pipe_write_obj_nothrow_def pipe_write_obj_def pipe_read_obj_nothrow_def pipe_read_obj_def

text \<open>A whole object has been written when the write returns; a short write and an error are both \<^verbatim>\<open>EAGAIN\<close>.\<close>

lemma pipe_write_obj_cases:
  assumes "sys_write K (ufd_get (write_fd_member p)) obj size_of s = (n, s')"
  shows "pipe_write_obj K p obj size_of s =
     (if errno s' = 0 \<and> to_size n = size_of then (Ok (), s')
      else (Throw (System_error EAGAIN ''object write failed''), s'))"
  using assms by (auto simp: pipe_obj_defs pipe_write_nothrow_def cmd_simps syscall_return_defs errno_consts)

text \<open>What was read is never returned: a read that succeeds returns 8.\<close>

lemma pipe_read_obj_count:
  assumes "pipe_read_obj K p s = (Ok n, s')"
  shows "to_size n = 8"
  using assms
  by (auto simp: pipe_obj_defs pipe_read_nothrow_def cmd_simps syscall_return_defs syscall_return_seterrno_def errno_consts
      split: prod.splits if_splits)

lemma pipe_move_ctor_fds: "pipe_move_ctor p = (a, b) \<Longrightarrow>
    ufd_get (pipe_read_fd a) = ufd_get (pipe_read_fd p) \<and> ufd_get (pipe_write_fd a) = ufd_get (pipe_write_fd p)
    \<and> \<not> ufd_bool (pipe_read_fd b) \<and> \<not> ufd_bool (pipe_write_fd b)"
  by (auto simp: pipe_move_ctor_def pipe_read_fd_def pipe_write_fd_def unique_fd_defs int_descriptor_defs ufd_bool_def)

subsection \<open>Properties\<close>

text \<open>
  A pipe closes both of its ends, each exactly once: constructing a pipe that
  \<^verbatim>\<open>pipe2\<close> creates with two valid descriptors and destroying it closes the write end
  and then the read end, and nothing else.
\<close>

theorem pipe_closes_both_ends:
  assumes "sys_pipe2 K (flags OR O_CLOEXEC) s = ((0, r, w), s1)"
    and "r \<noteq> closed_fd" and "w \<noteq> closed_fd"
    and "pipe_ctor K flags s = (Ok p, s1')"
  shows "s1' = s1 \<and> ufd_get (read_fd_member p) = r \<and> ufd_get (write_fd_member p) = w \<and>
         pipe_destroy K p s1 = ((), snd (sys_close K r (snd (sys_close K w s1))))"
  using assms
  by (auto simp: pipe_defs cmd_simps unique_fd_defs int_descriptor_defs default_close_def Let_def)

theorem pipe_closes_both_ends_witness:
  "let K = no_calls\<lparr>sys_pipe2 := (\<lambda>f s. ((0, 3, 4), s)),
                   sys_close := (\<lambda>fd s. (0, s\<lparr>world := world s @ [fd]\<rparr>))\<rparr>;
       p = \<lparr>read_fd_member = unique_fd_of 3 (), write_fd_member = unique_fd_of 4 ()\<rparr>
   in pipe_destroy K p (sys0 []) = ((), (sys0 [])\<lparr>world := [4, 3 :: int]\<rparr>)"
proof -
  let ?K = "no_calls\<lparr>sys_pipe2 := (\<lambda>f s. ((0, 3, 4), s)),
                   sys_close := (\<lambda>fd s. (0, s\<lparr>world := world s @ [fd]\<rparr>))\<rparr>"
  let ?p = "\<lparr>read_fd_member = unique_fd_of 3 (), write_fd_member = unique_fd_of 4 ()\<rparr>"
  have p2: "sys_pipe2 ?K (0 OR O_CLOEXEC) (sys0 []) = ((0, 3, 4), sys0 [])" by simp
  have c: "pipe_ctor ?K 0 (sys0 []) = (Ok ?p, sys0 [])"
    by (simp add: pipe_defs cmd_simps)
  from pipe_closes_both_ends [OF p2 _ _ c] show ?thesis
    by (simp add: closed_fd_def)
qed

text \<open>
  \<^verbatim>\<open>pipe::write\<close> reports a successful write as a failure when the thread's
  \<^verbatim>\<open>errno\<close> was non-zero before the call: the result pairs the return value with an
  \<^verbatim>\<open>errno\<close> that the successful system call left alone. It reports it correctly when
  \<^verbatim>\<open>errno\<close> was 0.
\<close>

theorem pipe_write_stale_errno:
  assumes "errno_law (sys_write K (ufd_get (write_fd_member p)) buf len)"
    and "sys_write K (ufd_get (write_fd_member p)) buf len s = (n, s')" and "n \<noteq> - 1"
  shows "pipe_write K p buf len s =
     (if errno s = 0 then (Ok (to_size n), s')
      else (Throw (System_error (errno s) ''write system call failed''), s'))"
  using errno_lawD(2) [OF assms] assms(2) by (simp add: pipe_defs cmd_simps)

theorem pipe_write_stale_errno_witness:
  "pipe_write (no_calls\<lparr>sys_write := (\<lambda>fd p n s. (8, s))\<rparr>)
     \<lparr>read_fd_member = unique_fd_of 3 (), write_fd_member = unique_fd_of 4 ()\<rparr> 0 8
     ((sys0 ())\<lparr>errno := ENOENT\<rparr>)
   = (Throw (System_error ENOENT ''write system call failed''), (sys0 ())\<lparr>errno := ENOENT\<rparr>)"
proof -
  let ?K = "no_calls\<lparr>sys_write := (\<lambda>fd p n s. (8, s))\<rparr> :: unit fd_calls"
  let ?p = "\<lparr>read_fd_member = unique_fd_of 3 (), write_fd_member = unique_fd_of 4 ()\<rparr>"
  have l: "errno_law (sys_write ?K (ufd_get (write_fd_member ?p)) 0 8)"
    by (simp add: errno_law_def)
  have c: "sys_write ?K (ufd_get (write_fd_member ?p)) 0 8 ((sys0 ())\<lparr>errno := ENOENT\<rparr>)
      = (8, (sys0 ())\<lparr>errno := ENOENT\<rparr>)"
    by simp
  from pipe_write_stale_errno [OF l c] show ?thesis by (simp add: errno_consts)
qed

end
