(* ===== verification/Iovec.thy ===== *)
theory Iovec
  imports Kernel
begin

text \<open>
  \<^verbatim>\<open>iovec.hpp\<close>: building \<^verbatim>\<open>struct iovec\<close> values from typed buffers, and the
  sum of their lengths. A buffer of objects of type \<^verbatim>\<open>T\<close> is its address and its element
  count, with \<^verbatim>\<open>sizeof(T)\<close> a parameter; a \<^verbatim>\<open>void\<close> buffer is its address and
  its size in bytes. The const variants of the source differ only in the pointee's constness and
  call the const variants of what they call.
\<close>

record iovec =
  iov_base :: addr
  iov_len :: size_t

text \<open>The \<^verbatim>\<open>data()\<close> and \<^verbatim>\<open>size()\<close> of a \<^verbatim>\<open>std::vector\<close> or \<^verbatim>\<open>std::array\<close>.\<close>

type_synonym buffer = "addr \<times> size_t"

definition fill_iovec_void :: "addr \<Rightarrow> size_t \<Rightarrow> iovec \<Rightarrow> iovec" where
  "fill_iovec_void buf size_buf v = v\<lparr>iov_base := buf, iov_len := size_buf\<rparr>"

definition fill_iovec :: "size_t \<Rightarrow> addr \<Rightarrow> size_t \<Rightarrow> iovec \<Rightarrow> iovec" where
  "fill_iovec sizeof_T buf size_buf v = fill_iovec_void buf (sizeof_T * size_buf) v"

definition fill_iovec_vector :: "size_t \<Rightarrow> buffer \<Rightarrow> iovec \<Rightarrow> iovec" where
  "fill_iovec_vector sizeof_T vec v = fill_iovec sizeof_T (fst vec) (snd vec) v"

definition fill_iovec_array :: "size_t \<Rightarrow> buffer \<Rightarrow> iovec \<Rightarrow> iovec" where
  "fill_iovec_array sizeof_T arr v = fill_iovec sizeof_T (fst arr) (snd arr) v"

definition fill_iovec_pair :: "size_t \<Rightarrow> addr \<times> size_t \<Rightarrow> iovec \<Rightarrow> iovec" where
  "fill_iovec_pair sizeof_T p v = fill_iovec sizeof_T (fst p) (snd p) v"

definition fill_iovec_const_void :: "addr \<Rightarrow> size_t \<Rightarrow> iovec \<Rightarrow> iovec" where
  "fill_iovec_const_void buf size_buf v = v\<lparr>iov_base := buf, iov_len := size_buf\<rparr>"

definition fill_iovec_const :: "size_t \<Rightarrow> addr \<Rightarrow> size_t \<Rightarrow> iovec \<Rightarrow> iovec" where
  "fill_iovec_const sizeof_T buf size_buf v = fill_iovec_const_void buf (sizeof_T * size_buf) v"

definition fill_iovec_const_vector :: "size_t \<Rightarrow> buffer \<Rightarrow> iovec \<Rightarrow> iovec" where
  "fill_iovec_const_vector sizeof_T vec v = fill_iovec_const sizeof_T (fst vec) (snd vec) v"

definition fill_iovec_const_array :: "size_t \<Rightarrow> buffer \<Rightarrow> iovec \<Rightarrow> iovec" where
  "fill_iovec_const_array sizeof_T arr v = fill_iovec_const sizeof_T (fst arr) (snd arr) v"

definition fill_iovec_const_pair :: "size_t \<Rightarrow> addr \<times> size_t \<Rightarrow> iovec \<Rightarrow> iovec" where
  "fill_iovec_const_pair sizeof_T p v = fill_iovec_const sizeof_T (fst p) (snd p) v"

definition fill_iovec_const_pair_void :: "addr \<times> size_t \<Rightarrow> iovec \<Rightarrow> iovec" where
  "fill_iovec_const_pair_void p v = fill_iovec_const_void (fst p) (snd p) v"

text \<open>The local \<^verbatim>\<open>struct iovec\<close> of the \<open>make\<close> functions is overwritten in full.\<close>

definition uninit_iovec :: iovec where
  "uninit_iovec = \<lparr>iov_base = 0, iov_len = 0\<rparr>"

definition make_iovec_void :: "addr \<Rightarrow> size_t \<Rightarrow> iovec" where
  "make_iovec_void buf size_buf = fill_iovec_void buf size_buf uninit_iovec"

definition make_iovec :: "size_t \<Rightarrow> addr \<Rightarrow> size_t \<Rightarrow> iovec" where
  "make_iovec sizeof_T buf size_buf = make_iovec_void buf (sizeof_T * size_buf)"

definition make_iovec_vector :: "size_t \<Rightarrow> buffer \<Rightarrow> iovec" where
  "make_iovec_vector sizeof_T vec = make_iovec sizeof_T (fst vec) (snd vec)"

definition make_iovec_pair_void :: "addr \<times> size_t \<Rightarrow> iovec" where
  "make_iovec_pair_void p = make_iovec_void (fst p) (snd p)"

definition make_iovec_pair :: "size_t \<Rightarrow> addr \<times> size_t \<Rightarrow> iovec" where
  "make_iovec_pair sizeof_T p = make_iovec sizeof_T (fst p) (snd p)"

definition make_iovec_pair_const_void :: "addr \<times> size_t \<Rightarrow> iovec" where
  "make_iovec_pair_const_void p = make_iovec_void (fst p) (snd p)"

definition make_iovec_pair_const :: "size_t \<Rightarrow> addr \<times> size_t \<Rightarrow> iovec" where
  "make_iovec_pair_const sizeof_T p = make_iovec sizeof_T (fst p) (snd p)"

definition make_iovec_array_buf :: "size_t \<Rightarrow> buffer \<Rightarrow> iovec" where
  "make_iovec_array_buf sizeof_T arr = make_iovec sizeof_T (fst arr) (snd arr)"

definition make_iovec_const_void :: "addr \<Rightarrow> size_t \<Rightarrow> iovec" where
  "make_iovec_const_void buf size_buf = fill_iovec_const_void buf size_buf uninit_iovec"

definition make_iovec_const_object :: "size_t \<Rightarrow> addr \<Rightarrow> iovec" where
  "make_iovec_const_object sizeof_T buf = make_iovec_const_void buf sizeof_T"

definition make_iovec_const :: "size_t \<Rightarrow> addr \<Rightarrow> size_t \<Rightarrow> iovec" where
  "make_iovec_const sizeof_T buf size_buf = make_iovec_const_void buf (sizeof_T * size_buf)"

definition make_iovec_const_vector :: "size_t \<Rightarrow> buffer \<Rightarrow> iovec" where
  "make_iovec_const_vector sizeof_T vec = make_iovec_const sizeof_T (fst vec) (snd vec)"

definition make_iovec_const_pair :: "size_t \<Rightarrow> addr \<times> size_t \<Rightarrow> iovec" where
  "make_iovec_const_pair sizeof_T p = make_iovec_const sizeof_T (fst p) (snd p)"

definition make_iovec_const_pair_void :: "addr \<times> size_t \<Rightarrow> iovec" where
  "make_iovec_const_pair_void p = make_iovec_const_void (fst p) (snd p)"

definition make_iovec_const_pair_const :: "size_t \<Rightarrow> addr \<times> size_t \<Rightarrow> iovec" where
  "make_iovec_const_pair_const sizeof_T p = make_iovec_const sizeof_T (fst p) (snd p)"

definition make_iovec_const_pair_const_void :: "addr \<times> size_t \<Rightarrow> iovec" where
  "make_iovec_const_pair_const_void p = make_iovec_const_void (fst p) (snd p)"

definition make_iovec_const_array_buf :: "size_t \<Rightarrow> buffer \<Rightarrow> iovec" where
  "make_iovec_const_array_buf sizeof_T arr = make_iovec_const sizeof_T (fst arr) (snd arr)"

text \<open>
  What a caller passes to the variadic \<^verbatim>\<open>make_iovec_array\<close> and
  \<^verbatim>\<open>make_iovec_array_const\<close>: an argument selects the overload by its type. The pointer
  of a pair may itself be const (\<open>Arg_pair_const\<close>, \<open>Arg_pair_const_void\<close>), as it is in a pair taken from a map.
  A single object is an argument of the const family only: the cast in \<^verbatim>\<open>make_iovec(const T &)\<close> does not compile.
\<close>

datatype iovec_arg =
    Arg_vector size_t buffer
  | Arg_array size_t buffer
  | Arg_pair size_t "addr \<times> size_t"
  | Arg_pair_void "addr \<times> size_t"
  | Arg_pair_const size_t "addr \<times> size_t"
  | Arg_pair_const_void "addr \<times> size_t"

datatype iovec_const_arg =
    Arg_object size_t addr
  | Arg_buffers iovec_arg

fun make_iovec_arg :: "iovec_arg \<Rightarrow> iovec" where
  "make_iovec_arg (Arg_vector n b) = make_iovec_vector n b"
| "make_iovec_arg (Arg_array n b) = make_iovec_array_buf n b"
| "make_iovec_arg (Arg_pair n b) = make_iovec_pair n b"
| "make_iovec_arg (Arg_pair_void b) = make_iovec_pair_void b"
| "make_iovec_arg (Arg_pair_const n b) = make_iovec_pair_const n b"
| "make_iovec_arg (Arg_pair_const_void b) = make_iovec_pair_const_void b"

fun make_iovec_const_arg :: "iovec_const_arg \<Rightarrow> iovec" where
  "make_iovec_const_arg (Arg_object n p) = make_iovec_const_object n p"
| "make_iovec_const_arg (Arg_buffers (Arg_vector n b)) = make_iovec_const_vector n b"
| "make_iovec_const_arg (Arg_buffers (Arg_array n b)) = make_iovec_const_array_buf n b"
| "make_iovec_const_arg (Arg_buffers (Arg_pair n b)) = make_iovec_const_pair n b"
| "make_iovec_const_arg (Arg_buffers (Arg_pair_void b)) = make_iovec_const_pair_void b"
| "make_iovec_const_arg (Arg_buffers (Arg_pair_const n b)) = make_iovec_const_pair_const n b"
| "make_iovec_const_arg (Arg_buffers (Arg_pair_const_void b)) = make_iovec_const_pair_const_void b"

definition make_iovec_array :: "iovec_arg list \<Rightarrow> iovec list" where
  "make_iovec_array args = map make_iovec_arg args"

definition make_iovec_array_const :: "iovec_const_arg list \<Rightarrow> iovec list" where
  "make_iovec_array_const args = map make_iovec_const_arg args"

text \<open>
  \<^verbatim>\<open>std::accumulate(first, last, 0U, ...)\<close>: the accumulator has the type of the
  initial value, \<^verbatim>\<open>unsigned int\<close>, so every partial sum is truncated to 32 bits.
\<close>

definition accumulate_step :: "uint32 \<Rightarrow> iovec \<Rightarrow> uint32" where
  "accumulate_step val v = ucast (ucast val + iov_len v :: size_t)"

definition accumulate :: "iovec list \<Rightarrow> size_t" where
  "accumulate vs = ucast (foldl accumulate_step 0 vs)"

lemmas fill_iovec_defs = fill_iovec_void_def fill_iovec_def fill_iovec_vector_def
  fill_iovec_array_def fill_iovec_pair_def fill_iovec_const_void_def fill_iovec_const_def
  fill_iovec_const_vector_def fill_iovec_const_array_def fill_iovec_const_pair_def
  fill_iovec_const_pair_void_def

lemmas make_iovec_defs = make_iovec_void_def make_iovec_def
  make_iovec_vector_def make_iovec_pair_void_def make_iovec_pair_def make_iovec_array_buf_def
  make_iovec_const_void_def make_iovec_const_object_def make_iovec_const_def
  make_iovec_const_vector_def make_iovec_const_pair_def make_iovec_const_pair_void_def
  make_iovec_pair_const_void_def make_iovec_pair_const_def make_iovec_const_pair_const_def
  make_iovec_const_pair_const_void_def make_iovec_const_array_buf_def uninit_iovec_def

text \<open>The bytes a list of \<^verbatim>\<open>iovec\<close> denotes, and their number.\<close>

definition gather :: "(addr \<Rightarrow> byte) \<Rightarrow> iovec list \<Rightarrow> byte list" where
  "gather m vs = concat (map (\<lambda>v. mem_read m (iov_base v) (unat (iov_len v))) vs)"

definition total_len :: "iovec list \<Rightarrow> nat" where
  "total_len vs = (\<Sum>v\<leftarrow>vs. unat (iov_len v))"

lemma length_gather: "length (gather m vs) = total_len vs"
  by (induction vs) (simp_all add: gather_def total_len_def)

lemma gather_Cons: "gather m (v # vs) = mem_read m (iov_base v) (unat (iov_len v)) @ gather m vs"
  by (simp add: gather_def)

lemma unat_accumulate_step:
  "unat (accumulate_step a v) = (unat a + unat (iov_len v)) mod 2 ^ 32"
proof -
  have "unat (accumulate_step a v) = unat (ucast a + iov_len v :: size_t) mod 2 ^ 32"
    by (simp add: accumulate_step_def unsigned_ucast_eq take_bit_eq_mod)
  also have "unat (ucast a + iov_len v :: size_t) = (unat a + unat (iov_len v)) mod 2 ^ 64"
    by (simp add: unat_word_ariths unsigned_ucast_eq take_bit_eq_mod mod_add_left_eq)
  also have "(unat a + unat (iov_len v)) mod 2 ^ 64 mod 2 ^ 32
      = (unat a + unat (iov_len v)) mod 2 ^ 32"
    by (rule mod_mod_cancel) simp
  finally show ?thesis .
qed

lemma unat_foldl_accumulate:
  "unat (foldl accumulate_step a vs) = (unat a + total_len vs) mod 2 ^ 32"
proof (induction vs arbitrary: a)
  case Nil
  show ?case using unat_bound32 [of a] by (simp add: total_len_def)
next
  case (Cons v vs)
  show ?case
    by (simp only: foldl_Cons Cons.IH unat_accumulate_step total_len_def list.map sum_list.Cons
        mod_add_left_eq add.assoc)
qed

lemma unat_accumulate: "unat (accumulate vs) = total_len vs mod 2 ^ 32"
proof -
  have "unat (accumulate vs) = unat (foldl accumulate_step 0 vs) mod 2 ^ 64"
    by (simp add: accumulate_def unsigned_ucast_eq take_bit_eq_mod)
  also have "\<dots> = total_len vs mod 2 ^ 32"
    by (simp add: unat_foldl_accumulate)
  finally show ?thesis .
qed

subsection \<open>Properties\<close>

text \<open>
  \<^verbatim>\<open>linuxpp::accumulate\<close> returns the sum of the lengths modulo 2 to the 32, not the
  sum: the accumulator of \<^verbatim>\<open>std::accumulate\<close> has the type of \<^verbatim>\<open>0U\<close>.
  The result is the sum exactly when the sum fits in 32 bits.
\<close>

theorem accumulate_truncates:
  "unat (accumulate vs) = total_len vs mod 2 ^ 32
   \<and> (unat (accumulate vs) = total_len vs \<longleftrightarrow> total_len vs < 2 ^ 32)"
proof (intro conjI iffI)
  show "unat (accumulate vs) = total_len vs mod 2 ^ 32" by (rule unat_accumulate)
  have "total_len vs mod 2 ^ 32 < 2 ^ 32" by (rule mod_less_divisor) simp
  then show "total_len vs < 2 ^ 32" if "unat (accumulate vs) = total_len vs"
    using that by (simp add: unat_accumulate)
qed (simp add: unat_accumulate)

text \<open>The number of bytes the caller's buffer argument has.\<close>

fun arg_bytes :: "iovec_arg \<Rightarrow> nat" where
  "arg_bytes (Arg_vector n b) = unat n * unat (snd b)"
| "arg_bytes (Arg_array n b) = unat n * unat (snd b)"
| "arg_bytes (Arg_pair n b) = unat n * unat (snd b)"
| "arg_bytes (Arg_pair_void b) = unat (snd b)"
| "arg_bytes (Arg_pair_const n b) = unat n * unat (snd b)"
| "arg_bytes (Arg_pair_const_void b) = unat (snd b)"

lemma unat_iov_len_arg:
  "arg_bytes a < 2 ^ 64 \<Longrightarrow> unat (iov_len (make_iovec_arg a)) = arg_bytes a"
  by (cases a) (simp_all add: make_iovec_defs fill_iovec_defs unat_word_ariths)

lemma make_iovec_const_arg_eq: "make_iovec_const_arg (Arg_buffers a) = make_iovec_arg a"
  by (cases a) (simp_all add: make_iovec_defs fill_iovec_defs)

text \<open>
  \<^verbatim>\<open>make_iovec_array\<close> describes its arguments' memory: when no buffer's byte size
  overflows \<^verbatim>\<open>size_t\<close>, the entries cover as many bytes as the typed buffers have (the
  element count times \<^verbatim>\<open>sizeof(T)\<close>, also for a pair of a typed pointer and a count, whose
  documentation says the count itself is stored), and the const variant builds the same entries.
\<close>

theorem make_iovec_array_covers:
  assumes "\<forall>a\<in>set args. arg_bytes a < 2 ^ 64"
  shows "map (\<lambda>v. unat (iov_len v)) (make_iovec_array args) = map arg_bytes args
       \<and> total_len (make_iovec_array args) = sum_list (map arg_bytes args)
       \<and> make_iovec_array_const (map Arg_buffers args) = make_iovec_array args"
proof -
  have lens: "map (\<lambda>v. unat (iov_len v)) (make_iovec_array args) = map arg_bytes args"
    using assms by (simp add: make_iovec_array_def unat_iov_len_arg)
  moreover have "make_iovec_array_const (map Arg_buffers args) = make_iovec_array args"
    by (simp add: make_iovec_array_def make_iovec_array_const_def make_iovec_const_arg_eq)
  ultimately show ?thesis by (simp only: total_len_def)
qed

theorem make_iovec_array_covers_witness:
  "map (\<lambda>v. unat (iov_len v)) (make_iovec_array [Arg_pair 4 (4096, 3), Arg_pair_void (8192, 5)]) = [12, 5]"
  using make_iovec_array_covers [of "[Arg_pair 4 (4096, 3), Arg_pair_void (8192, 5)]"] by simp

end
