(* ===== verification/Net.thy ===== *)
theory Net
  imports Files Unique_Fd Iovec
begin

text \<open>
  The free functions of \<^verbatim>\<open>linuxpp::net\<close>: socket addresses, socket options, and the
  wrappers around the socket system calls (\<^verbatim>\<open>src/net/\<close>, except the socket classes).
  The socket system calls extend the record of descriptor calls. The address and port classes of
  \<^verbatim>\<open>libndgpp\<close> are type parameters with the conversions the source uses (record
  \<open>ndgpp\<close>). A call that fills in an address takes the caller's value and returns the one it leaves.
\<close>

record sockaddr_in =
  sin_family :: int
  sin_port :: uint16
  sin_addr :: uint32

record msghdr =
  msg_name :: "sockaddr_in option"
  msg_namelen :: nat
  msg_iov :: "iovec list"

record ip_mreqn =
  imr_multiaddr :: uint32
  imr_address :: uint32
  imr_ifindex :: int

datatype optval = Opt_int int | Opt_mreqn ip_mreqn

record 'w net_calls = "'w fd_calls" +
  sys_socket :: "int \<Rightarrow> int \<Rightarrow> int \<Rightarrow> ('w, int) syscall"
  sys_bind :: "int \<Rightarrow> sockaddr_in \<Rightarrow> ('w, int) syscall"
  sys_connect :: "int \<Rightarrow> sockaddr_in \<Rightarrow> ('w, int) syscall"
  sys_listen :: "int \<Rightarrow> int \<Rightarrow> ('w, int) syscall"
  sys_accept4 :: "int \<Rightarrow> (sockaddr_in \<times> nat) option \<Rightarrow> int \<Rightarrow> ('w, int \<times> (sockaddr_in \<times> nat) option) syscall"
  sys_shutdown :: "int \<Rightarrow> int \<Rightarrow> ('w, int) syscall"
  sys_getsockname :: "int \<Rightarrow> sockaddr_in \<Rightarrow> ('w, int \<times> sockaddr_in) syscall"
  sys_recv :: "int \<Rightarrow> size_t \<Rightarrow> int \<Rightarrow> ('w, int \<times> byte list) syscall"
  sys_recvfrom :: "int \<Rightarrow> size_t \<Rightarrow> int \<Rightarrow> sockaddr_in \<Rightarrow> nat \<Rightarrow> ('w, int \<times> byte list \<times> sockaddr_in \<times> nat) syscall"
  sys_recvmsg :: "int \<Rightarrow> msghdr \<Rightarrow> int \<Rightarrow> ('w, int \<times> msghdr) syscall"
  sys_send :: "int \<Rightarrow> addr \<Rightarrow> size_t \<Rightarrow> int \<Rightarrow> ('w, int) syscall"
  sys_sendto :: "int \<Rightarrow> addr \<Rightarrow> size_t \<Rightarrow> int \<Rightarrow> sockaddr_in \<Rightarrow> ('w, int) syscall"
  sys_sendmsg :: "int \<Rightarrow> msghdr \<Rightarrow> int \<Rightarrow> ('w, int) syscall"
  sys_getsockopt :: "int \<Rightarrow> int \<Rightarrow> int \<Rightarrow> nat \<Rightarrow> ('w, int \<times> optval \<times> nat) syscall"
  sys_setsockopt :: "int \<Rightarrow> int \<Rightarrow> int \<Rightarrow> optval \<Rightarrow> nat \<Rightarrow> ('w, int) syscall"
  sys_if_nametoindex :: "string \<Rightarrow> ('w, uint32) syscall"

record ('a, 'p) ndgpp =
  to_uint32 :: "'a \<Rightarrow> uint32"
  ipv4_address :: "uint32 \<Rightarrow> 'a"
  port_value :: "'p \<Rightarrow> uint16"
  mk_port :: "uint16 \<Rightarrow> 'p"

text \<open>\<^verbatim>\<open>sizeof(struct sockaddr_in)\<close>\<close>

definition sizeof_sockaddr_in :: nat where
  "sizeof_sockaddr_in = 16"

subsection \<open>Byte order of the host\<close>

text \<open>\<open>le\<close> says that the host is little-endian; then the conversions swap the bytes.\<close>

definition bswap16 :: "uint16 \<Rightarrow> uint16" where
  "bswap16 w = push_bit 8 (take_bit 8 w) OR take_bit 8 (drop_bit 8 w)"

definition bswap32 :: "uint32 \<Rightarrow> uint32" where
  "bswap32 w = push_bit 24 (take_bit 8 w) OR push_bit 16 (take_bit 8 (drop_bit 8 w))
     OR push_bit 8 (take_bit 8 (drop_bit 16 w)) OR take_bit 8 (drop_bit 24 w)"

definition htons :: "bool \<Rightarrow> uint16 \<Rightarrow> uint16" where
  "htons le w = (if le then bswap16 w else w)"

definition ntohs :: "bool \<Rightarrow> uint16 \<Rightarrow> uint16" where
  "ntohs le w = (if le then bswap16 w else w)"

definition htonl :: "bool \<Rightarrow> uint32 \<Rightarrow> uint32" where
  "htonl le w = (if le then bswap32 w else w)"

definition ntohl :: "bool \<Rightarrow> uint32 \<Rightarrow> uint32" where
  "ntohl le w = (if le then bswap32 w else w)"

text \<open>The value of a \<^verbatim>\<open>uint16_t\<close> object whose two bytes are given, first address first.\<close>

definition load16 :: "bool \<Rightarrow> byte \<Rightarrow> byte \<Rightarrow> uint16" where
  "load16 le b0 b1 =
     (if le then ucast b0 OR push_bit 8 (ucast b1) else push_bit 8 (ucast b0) OR ucast b1)"

lemma bswap16_bswap16 [simp]: "bswap16 (bswap16 w) = w"
  by (rule bit_word_eqI) (auto simp: bswap16_def bit_simps)

lemma bit_bswap32:
  "bit (bswap32 w) n \<longleftrightarrow>
     (if n < 8 then bit w (n + 24) else if n < 16 then bit w (n + 8)
      else if n < 24 then bit w (n - 8) else n < 32 \<and> bit w (n - 24))"
proof -
  consider "n < 8" | "8 \<le> n" "n < 16" | "16 \<le> n" "n < 24" | "24 \<le> n" by linarith
  then show ?thesis
    by cases (auto simp: bswap32_def bit_simps add.commute)
qed

lemma bswap32_bswap32 [simp]: "bswap32 (bswap32 w) = w"
proof (rule bit_word_eqI)
  fix n assume "n < LENGTH(32)"
  then consider "n < 8" | "8 \<le> n" "n < 16" | "16 \<le> n" "n < 24" | "24 \<le> n" "n < 32" by fastforce
  then show "bit (bswap32 (bswap32 w)) n = bit w n"
    by cases (auto simp: bit_bswap32)
qed

lemma ntohs_htons [simp]: "ntohs le (htons le w) = w"
  and ntohl_htonl [simp]: "ntohl le (htonl le v) = v"
  by (simp_all add: ntohs_def htons_def ntohl_def htonl_def)

lemma ntohs_load16:
  "ntohs le (load16 le b0 b1) = push_bit 8 (ucast b0) OR ucast b1"
  by (rule bit_word_eqI)
    (auto simp: ntohs_def load16_def bswap16_def bit_simps dest: bit_imp_le_length)

subsection \<open>sockaddr.cpp\<close>

definition make_sockaddr :: "('a, 'p) ndgpp \<Rightarrow> bool \<Rightarrow> 'a \<Rightarrow> 'p \<Rightarrow> sockaddr_in" where
  "make_sockaddr N le address port =
     \<lparr>sin_family = AF_INET, sin_port = htons le (port_value N port),
      sin_addr = htonl le (to_uint32 N address)\<rparr>"

definition make_sockaddr_any_port :: "('a, 'p) ndgpp \<Rightarrow> bool \<Rightarrow> 'a \<Rightarrow> sockaddr_in" where
  "make_sockaddr_any_port N le address =
     \<lparr>sin_family = AF_INET, sin_port = 0, sin_addr = htonl le (to_uint32 N address)\<rparr>"

definition parse_sockaddr :: "('a, 'p) ndgpp \<Rightarrow> bool \<Rightarrow> sockaddr_in \<Rightarrow> 'a \<times> 'p" where
  "parse_sockaddr N le sa =
     (ipv4_address N (ntohl le (sin_addr sa)), mk_port N (ntohs le (sin_port sa)))"

definition zero_sockaddr :: sockaddr_in where
  "zero_sockaddr = \<lparr>sin_family = 0, sin_port = 0, sin_addr = 0\<rparr>"

subsection \<open>Socket options\<close>

text \<open>The option tags and their traits: level, name, and the size of the value type.\<close>

datatype so_option = So_domain | So_reuse_addr | So_reuse_port | So_accept_conn
  | So_add_membership | So_tcp_nodelay

record so_traits =
  t_level :: int
  t_name :: int
  t_sizeof_value :: nat

definition socket_int_trait :: "int \<Rightarrow> so_traits" where
  "socket_int_trait nm = \<lparr>t_level = 1, t_name = nm, t_sizeof_value = 4\<rparr>"

definition tcp_nodelay_traits :: so_traits where
  "tcp_nodelay_traits = \<lparr>t_level = 6, t_name = 1, t_sizeof_value = 4\<rparr>"

definition add_membership_traits :: so_traits where
  "add_membership_traits = \<lparr>t_level = 0, t_name = 35, t_sizeof_value = 12\<rparr>"

fun so_traits_of :: "so_option \<Rightarrow> so_traits" where
  "so_traits_of So_domain = socket_int_trait 39"
| "so_traits_of So_reuse_addr = socket_int_trait 2"
| "so_traits_of So_reuse_port = socket_int_trait 15"
| "so_traits_of So_accept_conn = socket_int_trait 30"
| "so_traits_of So_add_membership = add_membership_traits"
| "so_traits_of So_tcp_nodelay = tcp_nodelay_traits"

definition getsockopt_raw ::
  "('w, 'x) net_calls_scheme \<Rightarrow> int \<Rightarrow> int \<Rightarrow> int \<Rightarrow> nat \<Rightarrow> ('w sys, int \<times> optval \<times> nat) cmd" where
  "getsockopt_raw K sd level optname optlen =
     bind_c (call (sys_getsockopt K sd level optname optlen)) (\<lambda>(ret, optval, optlen').
     if ret = - 1 then throw_errno ''getsockopt failed'' else ret_c (ret, optval, optlen'))"

definition setsockopt_raw ::
  "('w, 'x) net_calls_scheme \<Rightarrow> int \<Rightarrow> int \<Rightarrow> int \<Rightarrow> optval \<Rightarrow> nat \<Rightarrow> ('w sys, int) cmd" where
  "setsockopt_raw K sd level optname optval optlen =
     bind_c (call (sys_setsockopt K sd level optname optval optlen)) (\<lambda>ret.
     if ret = - 1 then throw_errno ''setsockopt failed'' else ret_c ret)"

definition getsockopt ::
  "('w, 'x) net_calls_scheme \<Rightarrow> so_option \<Rightarrow> int \<Rightarrow> ('w sys, optval \<times> int) cmd" where
  "getsockopt K opt sd =
     bind_c (getsockopt_raw K sd (t_level (so_traits_of opt)) (t_name (so_traits_of opt)) (t_sizeof_value (so_traits_of opt)))
       (\<lambda>(ret, value, optlen).
     if optlen \<noteq> t_sizeof_value (so_traits_of opt)
     then throw_c (Invalid_argument ''invalid sockopt length'')
     else ret_c (value, ret))"

definition setsockopt ::
  "('w, 'x) net_calls_scheme \<Rightarrow> so_option \<Rightarrow> int \<Rightarrow> optval \<Rightarrow> ('w sys, int) cmd" where
  "setsockopt K opt sd value =
     setsockopt_raw K sd (t_level (so_traits_of opt)) (t_name (so_traits_of opt)) value (t_sizeof_value (so_traits_of opt))"

subsection \<open>bind.cpp, connect.cpp, accept.cpp, socket.cpp, interface.cpp\<close>

definition bind_sockaddr ::
  "('w, 'x) net_calls_scheme \<Rightarrow> int \<Rightarrow> sockaddr_in \<Rightarrow> bool \<Rightarrow> bool \<Rightarrow> ('w sys, unit) cmd" where
  "bind_sockaddr K sd sa reuse_addr reuse_port =
     then_c (if reuse_addr then then_c (setsockopt K So_reuse_addr sd (Opt_int 1)) (ret_c ())
             else ret_c ())
     (then_c (if reuse_port then then_c (setsockopt K So_reuse_port sd (Opt_int 1)) (ret_c ())
              else ret_c ())
     (bind_c (call (sys_bind K sd sa)) (\<lambda>ret.
      if ret = - 1 then throw_errno ''failed to bind socket'' else ret_c ())))"

definition bind_addr_port ::
  "('w, 'x) net_calls_scheme \<Rightarrow> ('a, 'p) ndgpp \<Rightarrow> bool \<Rightarrow> int \<Rightarrow> 'a \<Rightarrow> 'p \<Rightarrow> bool \<Rightarrow> bool
    \<Rightarrow> ('w sys, unit) cmd" where
  "bind_addr_port K N le sd address port reuse_addr reuse_port =
     bind_sockaddr K sd (make_sockaddr N le address port) reuse_addr reuse_port"

definition bind_addr ::
  "('w, 'x) net_calls_scheme \<Rightarrow> ('a, 'p) ndgpp \<Rightarrow> bool \<Rightarrow> int \<Rightarrow> 'a \<Rightarrow> bool \<Rightarrow> ('w sys, unit) cmd" where
  "bind_addr K N le sd address reuse_addr =
     bind_sockaddr K sd (make_sockaddr_any_port N le address) reuse_addr False"

definition connect_sockaddr ::
  "('w, 'x) net_calls_scheme \<Rightarrow> int \<Rightarrow> sockaddr_in \<Rightarrow> ('w sys, unit) cmd" where
  "connect_sockaddr K sd sa =
     bind_c (call (sys_connect K sd sa)) (\<lambda>ret.
     if ret = - 1 then throw_errno ''failed to connect socket'' else ret_c ())"

definition connect_addr_port ::
  "('w, 'x) net_calls_scheme \<Rightarrow> ('a, 'p) ndgpp \<Rightarrow> bool \<Rightarrow> int \<Rightarrow> 'a \<Rightarrow> 'p \<Rightarrow> ('w sys, unit) cmd" where
  "connect_addr_port K N le sd address port =
     connect_sockaddr K sd (make_sockaddr N le address port)"

definition detail_accept ::
  "('w, 'x) net_calls_scheme \<Rightarrow> int \<Rightarrow> (sockaddr_in \<times> nat) option \<Rightarrow> int
    \<Rightarrow> ('w sys, int \<times> (sockaddr_in \<times> nat) option) cmd" where
  "detail_accept K sd sa flags =
     bind_c (call (sys_accept4 K sd sa flags)) (\<lambda>(ret, sa').
     if ret = - 1 then throw_errno ''accept system call failed'' else ret_c (ret, sa'))"

definition accept_flags :: "('w, 'x) net_calls_scheme \<Rightarrow> int \<Rightarrow> int \<Rightarrow> ('w sys, int) cmd" where
  "accept_flags K sd flags =
     bind_c (detail_accept K sd None (flags OR SOCK_CLOEXEC)) (\<lambda>(ret, _). ret_c ret)"

definition accept_sockaddr ::
  "('w, 'x) net_calls_scheme \<Rightarrow> int \<Rightarrow> sockaddr_in \<Rightarrow> int \<Rightarrow> ('w sys, int \<times> sockaddr_in) cmd" where
  "accept_sockaddr K sd sa flags =
     bind_c (detail_accept K sd (Some (sa, sizeof_sockaddr_in)) (flags OR SOCK_CLOEXEC)) (\<lambda>(ret, out).
     case out of
       None \<Rightarrow> undefined_c
     | Some (sa', socklen) \<Rightarrow>
         if socklen \<noteq> sizeof_sockaddr_in
         then throw_c (Runtime_error ''accept system call returned invalid socklen_t'')
         else ret_c (ret, sa'))"

text \<open>The third overload does not pass its \<open>flags\<close> on: the call inside uses the default, 0.\<close>

definition accept_addr_port ::
  "('w, 'x) net_calls_scheme \<Rightarrow> ('a, 'p) ndgpp \<Rightarrow> bool \<Rightarrow> int \<Rightarrow> int \<Rightarrow> ('w sys, int \<times> 'a \<times> 'p) cmd" where
  "accept_addr_port K N le sd flags =
     bind_c (accept_sockaddr K sd zero_sockaddr 0) (\<lambda>(ret, sa).
     ret_c (ret, parse_sockaddr N le sa))"

definition socket :: "('w, 'x) net_calls_scheme \<Rightarrow> int \<Rightarrow> int \<Rightarrow> int \<Rightarrow> ('w sys, unit unique_fd) cmd" where
  "socket K domain type protocol =
     bind_c (call (sys_socket K domain (type OR SOCK_CLOEXEC) protocol)) (\<lambda>ret.
     let fd = unique_fd_of ret () in
     if \<not> ufd_bool fd then throw_errno ''failed to open UDP socket'' else ret_c fd)"

definition getsockname ::
  "('w, 'x) net_calls_scheme \<Rightarrow> int \<Rightarrow> sockaddr_in \<Rightarrow> ('w sys, sockaddr_in) cmd" where
  "getsockname K sd sa =
     bind_c (call (sys_getsockname K sd sa)) (\<lambda>(ret, sa').
     if ret = - 1 then throw_errno ''getsockname failed'' else ret_c sa')"

text \<open>The local \<^verbatim>\<open>sockaddr_in\<close> is not initialised: \<open>junk\<close>.\<close>

definition getsockname_ipv4 ::
  "('w, 'x) net_calls_scheme \<Rightarrow> ('a, 'p) ndgpp \<Rightarrow> bool \<Rightarrow> sockaddr_in \<Rightarrow> int \<Rightarrow> ('w sys, 'a \<times> 'p) cmd" where
  "getsockname_ipv4 K N le junk sd =
     bind_c (getsockname K sd junk) (\<lambda>sa.
     ret_c (ipv4_address N (ntohl le (sin_addr sa)), mk_port N (ntohs le (sin_port sa))))"

definition listen :: "('w, 'x) net_calls_scheme \<Rightarrow> int \<Rightarrow> int \<Rightarrow> ('w sys, unit) cmd" where
  "listen K sd backlog =
     bind_c (call (sys_listen K sd backlog)) (\<lambda>ret.
     if ret = - 1 then throw_errno ''listen system call failed'' else ret_c ())"

definition if_nametoindex :: "('w, 'x) net_calls_scheme \<Rightarrow> string \<Rightarrow> ('w sys, uint32) cmd" where
  "if_nametoindex K name =
     bind_c (call (sys_if_nametoindex K name)) (\<lambda>index.
     if index = 0 then throw_errno ''failed get interface's index'' else ret_c index)"

subsection \<open>recv.cpp\<close>

definition net_recv ::
  "('w, 'x) net_calls_scheme \<Rightarrow> int \<Rightarrow> size_t \<Rightarrow> int \<Rightarrow> ('w sys, size_t \<times> byte list) cmd" where
  "net_recv K sd len flags =
     bind_c (call (sys_recv K sd len flags)) (\<lambda>(r, bytes).
     let ret = narrow_int r in
     if ret = - 1 then throw_errno ''recv failed'' else ret_c (to_size ret, bytes))"

definition recv_from ::
  "('w, 'x) net_calls_scheme \<Rightarrow> int \<Rightarrow> size_t \<Rightarrow> sockaddr_in \<Rightarrow> nat \<Rightarrow> int
    \<Rightarrow> ('w sys, size_t \<times> byte list \<times> sockaddr_in \<times> nat) cmd" where
  "recv_from K sd len sa addrlen flags =
     bind_c (call (sys_recvfrom K sd len flags sa addrlen)) (\<lambda>(r, bytes, sa', addrlen').
     let ret = narrow_int r in
     if ret = - 1 then throw_errno ''recvfrom failed''
     else ret_c (to_size ret, bytes, sa', addrlen'))"

definition recv_sockaddr ::
  "('w, 'x) net_calls_scheme \<Rightarrow> int \<Rightarrow> size_t \<Rightarrow> sockaddr_in \<Rightarrow> int
    \<Rightarrow> ('w sys, size_t \<times> byte list \<times> sockaddr_in) cmd" where
  "recv_sockaddr K sd len sa flags =
     bind_c (recv_from K sd len sa sizeof_sockaddr_in flags) (\<lambda>(ret, bytes, sa', addr_len).
     if addr_len \<noteq> sizeof_sockaddr_in
     then throw_c (Invalid_argument ''invalid sockaddr length'')
     else ret_c (ret, bytes, sa'))"

definition recv_addr_port ::
  "('w, 'x) net_calls_scheme \<Rightarrow> ('a, 'p) ndgpp \<Rightarrow> bool \<Rightarrow> int \<Rightarrow> size_t \<Rightarrow> int
    \<Rightarrow> ('w sys, size_t \<times> byte list \<times> 'a \<times> 'p) cmd" where
  "recv_addr_port K N le sd len flags =
     bind_c (recv_sockaddr K sd len zero_sockaddr flags) (\<lambda>(ret, bytes, sa).
     ret_c (ret, bytes, parse_sockaddr N le sa))"

text \<open>
  \<^verbatim>\<open>detail::recv\<close> over \<^verbatim>\<open>recvmsg\<close>; the kernel scatters the bytes
  into the process memory.
\<close>

definition detail_recv ::
  "('w, 'x) net_calls_scheme \<Rightarrow> int \<Rightarrow> iovec list \<Rightarrow> sockaddr_in option \<Rightarrow> nat \<Rightarrow> bool \<Rightarrow> int
    \<Rightarrow> ('w sys, size_t \<times> sockaddr_in option) cmd" where
  "detail_recv K sd buffs name size_name variable_name_length flags =
     bind_c (call (sys_recvmsg K sd
       \<lparr>msg_name = name, msg_namelen = size_name, msg_iov = buffs\<rparr> flags)) (\<lambda>(r, hdr).
     let ret = narrow_int r in
     if ret = - 1 then throw_errno ''recvmsg failed''
     else if \<not> variable_name_length \<and> msg_namelen hdr \<noteq> size_name
     then throw_c (Invalid_argument ''msg_name length missmatch in recvmsg'')
     else ret_c (to_size ret, msg_name hdr))"

definition recv_iovec ::
  "('w, 'x) net_calls_scheme \<Rightarrow> int \<Rightarrow> iovec list \<Rightarrow> int \<Rightarrow> ('w sys, size_t) cmd" where
  "recv_iovec K sd buffs flags =
     bind_c (detail_recv K sd buffs None 0 False flags) (\<lambda>(ret, _). ret_c ret)"

definition recv_iovec_sockaddr ::
  "('w, 'x) net_calls_scheme \<Rightarrow> int \<Rightarrow> iovec list \<Rightarrow> sockaddr_in \<Rightarrow> int
    \<Rightarrow> ('w sys, size_t \<times> sockaddr_in) cmd" where
  "recv_iovec_sockaddr K sd buffs sa flags =
     bind_c (detail_recv K sd buffs (Some sa) sizeof_sockaddr_in False flags) (\<lambda>(ret, name).
     case name of None \<Rightarrow> undefined_c | Some sa' \<Rightarrow> ret_c (ret, sa'))"

definition recv_iovec_addr_port ::
  "('w, 'x) net_calls_scheme \<Rightarrow> ('a, 'p) ndgpp \<Rightarrow> bool \<Rightarrow> int \<Rightarrow> iovec list \<Rightarrow> int
    \<Rightarrow> ('w sys, size_t \<times> 'a \<times> 'p) cmd" where
  "recv_iovec_addr_port K N le sd buffs flags =
     bind_c (recv_iovec_sockaddr K sd buffs zero_sockaddr flags) (\<lambda>(ret, sa).
     ret_c (ret, parse_sockaddr N le sa))"

subsection \<open>send.cpp\<close>

definition send_msghdr ::
  "('w, 'x) net_calls_scheme \<Rightarrow> int \<Rightarrow> msghdr \<Rightarrow> int \<Rightarrow> ('w sys, size_t) cmd" where
  "send_msghdr K sd msg flags =
     bind_c (call (sys_sendmsg K sd msg flags)) (\<lambda>ret.
     if ret = - 1 then throw_errno ''sendmsg failed'' else ret_c (to_size ret))"

definition send_iovec_addr_port ::
  "('w, 'x) net_calls_scheme \<Rightarrow> ('a, 'p) ndgpp \<Rightarrow> bool \<Rightarrow> int \<Rightarrow> iovec list \<Rightarrow> 'a \<Rightarrow> 'p \<Rightarrow> int
    \<Rightarrow> ('w sys, size_t) cmd" where
  "send_iovec_addr_port K N le fd buffers address port flags =
     send_msghdr K fd \<lparr>msg_name = Some (make_sockaddr N le address port),
                       msg_namelen = sizeof_sockaddr_in, msg_iov = buffers\<rparr> flags"

definition send_iovec ::
  "('w, 'x) net_calls_scheme \<Rightarrow> int \<Rightarrow> iovec list \<Rightarrow> int \<Rightarrow> ('w sys, size_t) cmd" where
  "send_iovec K fd buffers flags =
     send_msghdr K fd \<lparr>msg_name = None, msg_namelen = 0, msg_iov = buffers\<rparr> flags"

definition send_buf_sockaddr ::
  "('w, 'x) net_calls_scheme \<Rightarrow> int \<Rightarrow> addr \<Rightarrow> size_t \<Rightarrow> sockaddr_in \<Rightarrow> int \<Rightarrow> ('w sys, size_t) cmd" where
  "send_buf_sockaddr K sd msg len sa flags =
     bind_c (call (sys_sendto K sd msg len flags sa)) (\<lambda>r.
     let ret = narrow_int r in
     if ret = - 1 then throw_errno ''sendmsg failed'' else ret_c (to_size ret))"

definition send_buf_addr_port ::
  "('w, 'x) net_calls_scheme \<Rightarrow> ('a, 'p) ndgpp \<Rightarrow> bool \<Rightarrow> int \<Rightarrow> addr \<Rightarrow> size_t \<Rightarrow> 'a \<Rightarrow> 'p \<Rightarrow> int
    \<Rightarrow> ('w sys, size_t) cmd" where
  "send_buf_addr_port K N le sd msg len address port flags =
     send_buf_sockaddr K sd msg len (make_sockaddr N le address port) flags"

definition send_buf ::
  "('w, 'x) net_calls_scheme \<Rightarrow> int \<Rightarrow> addr \<Rightarrow> size_t \<Rightarrow> int \<Rightarrow> ('w sys, size_t) cmd" where
  "send_buf K sd msg len flags =
     bind_c (call (sys_send K sd msg len flags)) (\<lambda>r.
     let ret = narrow_int r in
     if ret = - 1 then throw_errno ''send failed'' else ret_c (to_size ret))"

subsection \<open>A kernel without behaviour\<close>

text \<open>Every call succeeds and does nothing; the instances of the kernel in the examples override it.\<close>

definition idle_calls :: "'w net_calls" where
  "idle_calls =
     \<lparr>sys_close = (\<lambda>_ s. (0, s)), sys_read = (\<lambda>_ _ s. ((0, []), s)), sys_write = (\<lambda>_ _ _ s. (0, s)),
      sys_open = (\<lambda>_ _ _ s. (3, s)), sys_pipe2 = (\<lambda>_ s. ((0, 3, 4), s)), sys_fcntl = (\<lambda>_ _ _ s. (0, s)),
      sys_socket = (\<lambda>_ _ _ s. (3, s)), sys_bind = (\<lambda>_ _ s. (0, s)), sys_connect = (\<lambda>_ _ s. (0, s)),
      sys_listen = (\<lambda>_ _ s. (0, s)), sys_accept4 = (\<lambda>_ a _ s. ((5, a), s)), sys_shutdown = (\<lambda>_ _ s. (0, s)),
      sys_getsockname = (\<lambda>_ a s. ((0, a), s)), sys_recv = (\<lambda>_ _ _ s. ((0, []), s)),
      sys_recvfrom = (\<lambda>_ _ _ a n s. ((0, [], a, n), s)), sys_recvmsg = (\<lambda>_ h _ s. ((0, h), s)),
      sys_send = (\<lambda>_ _ _ _ s. (0, s)), sys_sendto = (\<lambda>_ _ _ _ _ s. (0, s)), sys_sendmsg = (\<lambda>_ _ _ s. (0, s)),
      sys_getsockopt = (\<lambda>_ _ _ n s. ((0, Opt_int 0, n), s)), sys_setsockopt = (\<lambda>_ _ _ _ _ s. (0, s)),
      sys_if_nametoindex = (\<lambda>_ s. (1, s))\<rparr>"

end
