(* ===== verification/Tcp_Socket.thy ===== *)
theory Tcp_Socket
  imports Net
begin

text \<open>
  \<^verbatim>\<open>linuxpp::net::tcp_socket\<close>: a \<open>unique_fd\<close> and the operations on it. A constructor
  that delegates to another one and then throws runs the destructor of the object the
  first one completed: \<open>ctor_body\<close>.
\<close>

record tcp_socket =
  sock_descriptor :: "unit unique_fd"

definition tcp_descriptor :: "tcp_socket \<Rightarrow> int" where
  "tcp_descriptor t = ufd_get (sock_descriptor t)"

definition tcp_bool :: "tcp_socket \<Rightarrow> bool" where
  "tcp_bool t \<longleftrightarrow> ufd_bool (sock_descriptor t)"

definition tcp_default :: tcp_socket where
  "tcp_default = \<lparr>sock_descriptor = unique_fd_default ()\<rparr>"

definition tcp_destroy :: "('w, 'x) fd_calls_scheme \<Rightarrow> tcp_socket \<Rightarrow> ('w, unit) syscall" where
  "tcp_destroy K t = (\<lambda>s. ((), snd (ufd_destroy (default_close K) (sock_descriptor t) s)))"

text \<open>The body of a delegating constructor: on a throw the completed object \<open>t\<close> is destroyed.\<close>

definition ctor_body ::
  "('w, unit) syscall \<Rightarrow> 't \<Rightarrow> ('w sys, unit) cmd \<Rightarrow> ('w sys, 't) cmd" where
  "ctor_body dtor t body = (\<lambda>s. case body s of
      (Ok _, s') \<Rightarrow> (Ok t, s')
    | (Throw e, s') \<Rightarrow> (Throw e, snd (dtor s'))
    | (Undefined, s') \<Rightarrow> (Undefined, s')
    | (Terminated, s') \<Rightarrow> (Terminated, s'))"

definition tcp_socket_domain :: "('w, 'x) net_calls_scheme \<Rightarrow> int \<Rightarrow> ('w sys, tcp_socket) cmd" where
  "tcp_socket_domain K domain =
     bind_c (socket K domain SOCK_STREAM 0) (\<lambda>fd. ret_c \<lparr>sock_descriptor = fd\<rparr>)"

definition tcp_socket_of_fd :: "file_descriptor \<Rightarrow> tcp_socket \<times> file_descriptor" where
  "tcp_socket_of_fd sock_fd = (\<lparr>sock_descriptor = unique_fd_of (id_get sock_fd) ()\<rparr>, sock_fd)"

definition tcp_socket_bind_port ::
  "('w, 'x) net_calls_scheme \<Rightarrow> ('a, 'p) ndgpp \<Rightarrow> bool \<Rightarrow> 'a \<Rightarrow> 'p \<Rightarrow> ('w sys, tcp_socket) cmd" where
  "tcp_socket_bind_port K N le address port =
     bind_c (tcp_socket_domain K AF_INET) (\<lambda>t.
     ctor_body (tcp_destroy K t) t (bind_addr_port K N le (tcp_descriptor t) address port False False))"

definition tcp_socket_bind ::
  "('w, 'x) net_calls_scheme \<Rightarrow> ('a, 'p) ndgpp \<Rightarrow> bool \<Rightarrow> 'a \<Rightarrow> ('w sys, tcp_socket) cmd" where
  "tcp_socket_bind K N le address =
     bind_c (tcp_socket_domain K AF_INET) (\<lambda>t.
     ctor_body (tcp_destroy K t) t (bind_addr K N le (tcp_descriptor t) address False))"

definition tcp_socket_connect ::
  "('w, 'x) net_calls_scheme \<Rightarrow> ('a, 'p) ndgpp \<Rightarrow> bool \<Rightarrow> 'a \<Rightarrow> 'p \<Rightarrow> ('w sys, tcp_socket) cmd" where
  "tcp_socket_connect K N le address port =
     bind_c (tcp_socket_domain K AF_INET) (\<lambda>t.
     ctor_body (tcp_destroy K t) t (connect_addr_port K N le (tcp_descriptor t) address port))"

definition tcp_close :: "('w, 'x) net_calls_scheme \<Rightarrow> tcp_socket \<Rightarrow> ('w sys, tcp_socket) cmd" where
  "tcp_close K t =
     bind_c (call (ufd_reset (default_close K) closed_fd (sock_descriptor t))) (\<lambda>u.
     ret_c (t\<lparr>sock_descriptor := u\<rparr>))"

definition tcp_shutdown :: "('w, 'x) net_calls_scheme \<Rightarrow> tcp_socket \<Rightarrow> int \<Rightarrow> ('w sys, unit) cmd" where
  "tcp_shutdown K t how =
     bind_c (call (sys_shutdown K (tcp_descriptor t) how)) (\<lambda>ret.
     if ret = - 1 then throw_errno ''shutdown failed'' else ret_c ())"

definition tcp_bind_port ::
  "('w, 'x) net_calls_scheme \<Rightarrow> ('a, 'p) ndgpp \<Rightarrow> bool \<Rightarrow> tcp_socket \<Rightarrow> 'a \<Rightarrow> 'p \<Rightarrow> ('w sys, unit) cmd" where
  "tcp_bind_port K N le t address port =
     bind_addr_port K N le (tcp_descriptor t) address port False False"

definition tcp_bind ::
  "('w, 'x) net_calls_scheme \<Rightarrow> ('a, 'p) ndgpp \<Rightarrow> bool \<Rightarrow> tcp_socket \<Rightarrow> 'a \<Rightarrow> ('w sys, unit) cmd" where
  "tcp_bind K N le t address = bind_addr K N le (tcp_descriptor t) address False"

definition tcp_connect ::
  "('w, 'x) net_calls_scheme \<Rightarrow> ('a, 'p) ndgpp \<Rightarrow> bool \<Rightarrow> tcp_socket \<Rightarrow> 'a \<Rightarrow> 'p \<Rightarrow> ('w sys, unit) cmd" where
  "tcp_connect K N le t address port = connect_addr_port K N le (tcp_descriptor t) address port"

definition tcp_listen :: "('w, 'x) net_calls_scheme \<Rightarrow> tcp_socket \<Rightarrow> int \<Rightarrow> ('w sys, unit) cmd" where
  "tcp_listen K t backlog = listen K (tcp_descriptor t) backlog"

definition tcp_accept :: "('w, 'x) net_calls_scheme \<Rightarrow> tcp_socket \<Rightarrow> int \<Rightarrow> ('w sys, int) cmd" where
  "tcp_accept K t flags = accept_flags K (tcp_descriptor t) flags"

definition tcp_accept_addr ::
  "('w, 'x) net_calls_scheme \<Rightarrow> ('a, 'p) ndgpp \<Rightarrow> bool \<Rightarrow> tcp_socket \<Rightarrow> int
    \<Rightarrow> ('w sys, int \<times> 'a \<times> 'p) cmd" where
  "tcp_accept_addr K N le t flags = accept_addr_port K N le (tcp_descriptor t) flags"

definition tcp_recv ::
  "('w, 'x) net_calls_scheme \<Rightarrow> tcp_socket \<Rightarrow> size_t \<Rightarrow> int \<Rightarrow> ('w sys, size_t \<times> byte list) cmd" where
  "tcp_recv K t buflen flags = net_recv K (tcp_descriptor t) buflen flags"

definition tcp_recv_iovec ::
  "('w, 'x) net_calls_scheme \<Rightarrow> tcp_socket \<Rightarrow> iovec list \<Rightarrow> int \<Rightarrow> ('w sys, size_t) cmd" where
  "tcp_recv_iovec K t buffs flags = recv_iovec K (tcp_descriptor t) buffs flags"

definition tcp_send ::
  "('w, 'x) net_calls_scheme \<Rightarrow> tcp_socket \<Rightarrow> addr \<Rightarrow> size_t \<Rightarrow> int \<Rightarrow> ('w sys, size_t) cmd" where
  "tcp_send K t buf len flags = send_buf K (tcp_descriptor t) buf len flags"

definition tcp_send_iovec ::
  "('w, 'x) net_calls_scheme \<Rightarrow> tcp_socket \<Rightarrow> iovec list \<Rightarrow> int \<Rightarrow> ('w sys, size_t) cmd" where
  "tcp_send_iovec K t buffers flags = send_iovec K (tcp_descriptor t) buffers flags"

definition tcp_swap :: "tcp_socket \<Rightarrow> tcp_socket \<Rightarrow> tcp_socket \<times> tcp_socket" where
  "tcp_swap a b =
     (case ufd_swap (sock_descriptor a) (sock_descriptor b) of
        (u, v) \<Rightarrow> (\<lparr>sock_descriptor = u\<rparr>, \<lparr>sock_descriptor = v\<rparr>))"

definition tcp_move_ctor :: "tcp_socket \<Rightarrow> tcp_socket \<times> tcp_socket" where
  "tcp_move_ctor src =
     (case ufd_move_ctor (sock_descriptor src) of
        (u, v) \<Rightarrow> (\<lparr>sock_descriptor = u\<rparr>, \<lparr>sock_descriptor = v\<rparr>))"

definition tcp_move_assign :: "'o \<Rightarrow> 'o \<Rightarrow> ('o \<Rightarrow> tcp_socket) \<Rightarrow> ('o \<Rightarrow> tcp_socket)" where
  "tcp_move_assign a b st =
     (let fds = ufd_move_assign a b (\<lambda>x. sock_descriptor (st x)) in (\<lambda>x. \<lparr>sock_descriptor = fds x\<rparr>))"

end
