(* ===== verification/Udp_Socket.thy ===== *)
theory Udp_Socket
  imports Tcp_Socket
begin

text \<open>
  \<^verbatim>\<open>linuxpp::net::udp_socket\<close>. The multicast address class of
  \<^verbatim>\<open>libndgpp\<close> is a type parameter with its \<^verbatim>\<open>to_uint32\<close>.
\<close>

record udp_socket =
  udp_sock :: "unit unique_fd"

definition udp_descriptor :: "udp_socket \<Rightarrow> int" where
  "udp_descriptor u = ufd_get (udp_sock u)"

definition udp_bool :: "udp_socket \<Rightarrow> bool" where
  "udp_bool u \<longleftrightarrow> ufd_bool (udp_sock u)"

definition udp_default :: udp_socket where
  "udp_default = \<lparr>udp_sock = unique_fd_default ()\<rparr>"

definition udp_destroy :: "('w, 'x) fd_calls_scheme \<Rightarrow> udp_socket \<Rightarrow> ('w, unit) syscall" where
  "udp_destroy K u = (\<lambda>s. ((), snd (ufd_destroy (default_close K) (udp_sock u) s)))"

definition udp_socket_domain :: "('w, 'x) net_calls_scheme \<Rightarrow> int \<Rightarrow> ('w sys, udp_socket) cmd" where
  "udp_socket_domain K domain =
     bind_c (socket K domain SOCK_DGRAM 0) (\<lambda>fd. ret_c \<lparr>udp_sock = fd\<rparr>)"

definition udp_socket_bind ::
  "('w, 'x) net_calls_scheme \<Rightarrow> ('a, 'p) ndgpp \<Rightarrow> bool \<Rightarrow> 'a \<Rightarrow> 'p \<Rightarrow> ('w sys, udp_socket) cmd" where
  "udp_socket_bind K N le address port =
     bind_c (udp_socket_domain K AF_INET) (\<lambda>u.
     ctor_body (udp_destroy K u) u (bind_addr_port K N le (udp_descriptor u) address port False False))"

definition udp_close :: "('w, 'x) net_calls_scheme \<Rightarrow> udp_socket \<Rightarrow> ('w sys, udp_socket) cmd" where
  "udp_close K u =
     bind_c (call (ufd_reset (default_close K) closed_fd (udp_sock u))) (\<lambda>fd.
     ret_c (u\<lparr>udp_sock := fd\<rparr>))"

definition udp_bind_port ::
  "('w, 'x) net_calls_scheme \<Rightarrow> ('a, 'p) ndgpp \<Rightarrow> bool \<Rightarrow> udp_socket \<Rightarrow> 'a \<Rightarrow> 'p \<Rightarrow> bool \<Rightarrow> bool
    \<Rightarrow> ('w sys, unit) cmd" where
  "udp_bind_port K N le u address port reuse_addr reuse_port =
     bind_addr_port K N le (udp_descriptor u) address port reuse_addr reuse_port"

definition udp_bind ::
  "('w, 'x) net_calls_scheme \<Rightarrow> ('a, 'p) ndgpp \<Rightarrow> bool \<Rightarrow> udp_socket \<Rightarrow> 'a \<Rightarrow> bool \<Rightarrow> ('w sys, unit) cmd" where
  "udp_bind K N le u address reuse_addr = bind_addr K N le (udp_descriptor u) address reuse_addr"

definition udp_join_group_interface ::
  "('w, 'x) net_calls_scheme \<Rightarrow> ('m \<Rightarrow> uint32) \<Rightarrow> bool \<Rightarrow> udp_socket \<Rightarrow> 'm \<Rightarrow> string
    \<Rightarrow> ('w sys, unit) cmd" where
  "udp_join_group_interface K m_to_uint32 le u maddr interface =
     bind_c (if_nametoindex K interface) (\<lambda>index.
     then_c (setsockopt K So_add_membership (udp_descriptor u)
       (Opt_mreqn \<lparr>imr_multiaddr = htonl le (m_to_uint32 maddr), imr_address = 0,
                   imr_ifindex = sint index\<rparr>))
     (ret_c ()))"

definition udp_join_group ::
  "('w, 'x) net_calls_scheme \<Rightarrow> ('a, 'p) ndgpp \<Rightarrow> ('m \<Rightarrow> uint32) \<Rightarrow> bool \<Rightarrow> udp_socket \<Rightarrow> 'm \<Rightarrow> 'a
    \<Rightarrow> ('w sys, unit) cmd" where
  "udp_join_group K N m_to_uint32 le u maddr address =
     then_c (setsockopt K So_add_membership (udp_descriptor u)
       (Opt_mreqn \<lparr>imr_multiaddr = htonl le (m_to_uint32 maddr),
                   imr_address = htonl le (to_uint32 N address), imr_ifindex = 0\<rparr>))
     (ret_c ())"

definition udp_recv ::
  "('w, 'x) net_calls_scheme \<Rightarrow> udp_socket \<Rightarrow> size_t \<Rightarrow> int \<Rightarrow> ('w sys, size_t \<times> byte list) cmd" where
  "udp_recv K u buflen flags = net_recv K (udp_descriptor u) buflen flags"

definition udp_recv_sockaddr ::
  "('w, 'x) net_calls_scheme \<Rightarrow> udp_socket \<Rightarrow> size_t \<Rightarrow> sockaddr_in \<Rightarrow> int
    \<Rightarrow> ('w sys, size_t \<times> byte list \<times> sockaddr_in) cmd" where
  "udp_recv_sockaddr K u buflen sa flags = recv_sockaddr K (udp_descriptor u) buflen sa flags"

definition udp_recv_addr ::
  "('w, 'x) net_calls_scheme \<Rightarrow> ('a, 'p) ndgpp \<Rightarrow> bool \<Rightarrow> udp_socket \<Rightarrow> size_t \<Rightarrow> int
    \<Rightarrow> ('w sys, size_t \<times> byte list \<times> 'a \<times> 'p) cmd" where
  "udp_recv_addr K N le u buflen flags = recv_addr_port K N le (udp_descriptor u) buflen flags"

definition udp_recv_iovec ::
  "('w, 'x) net_calls_scheme \<Rightarrow> udp_socket \<Rightarrow> iovec list \<Rightarrow> int \<Rightarrow> ('w sys, size_t) cmd" where
  "udp_recv_iovec K u buffs flags = recv_iovec K (udp_descriptor u) buffs flags"

definition udp_recv_iovec_sockaddr ::
  "('w, 'x) net_calls_scheme \<Rightarrow> udp_socket \<Rightarrow> iovec list \<Rightarrow> sockaddr_in \<Rightarrow> int
    \<Rightarrow> ('w sys, size_t \<times> sockaddr_in) cmd" where
  "udp_recv_iovec_sockaddr K u buffs sa flags =
     recv_iovec_sockaddr K (udp_descriptor u) buffs sa flags"

definition udp_recv_iovec_addr ::
  "('w, 'x) net_calls_scheme \<Rightarrow> ('a, 'p) ndgpp \<Rightarrow> bool \<Rightarrow> udp_socket \<Rightarrow> iovec list \<Rightarrow> int
    \<Rightarrow> ('w sys, size_t \<times> 'a \<times> 'p) cmd" where
  "udp_recv_iovec_addr K N le u buffs flags =
     recv_iovec_addr_port K N le (udp_descriptor u) buffs flags"

definition udp_send ::
  "('w, 'x) net_calls_scheme \<Rightarrow> ('a, 'p) ndgpp \<Rightarrow> bool \<Rightarrow> udp_socket \<Rightarrow> addr \<Rightarrow> size_t \<Rightarrow> 'a \<Rightarrow> 'p \<Rightarrow> int
    \<Rightarrow> ('w sys, size_t) cmd" where
  "udp_send K N le u buf len address port flags =
     send_buf_addr_port K N le (udp_descriptor u) buf len address port flags"

definition udp_send_sockaddr ::
  "('w, 'x) net_calls_scheme \<Rightarrow> udp_socket \<Rightarrow> addr \<Rightarrow> size_t \<Rightarrow> sockaddr_in \<Rightarrow> int
    \<Rightarrow> ('w sys, size_t) cmd" where
  "udp_send_sockaddr K u buf len sa flags =
     send_buf_sockaddr K (udp_descriptor u) buf len sa flags"

definition udp_send_iovec ::
  "('w, 'x) net_calls_scheme \<Rightarrow> ('a, 'p) ndgpp \<Rightarrow> bool \<Rightarrow> udp_socket \<Rightarrow> iovec list \<Rightarrow> 'a \<Rightarrow> 'p \<Rightarrow> int
    \<Rightarrow> ('w sys, size_t) cmd" where
  "udp_send_iovec K N le u buffers address port flags =
     send_iovec_addr_port K N le (udp_descriptor u) buffers address port flags"

text \<open>
  The array of \<^verbatim>\<open>iovec\<close> is at the address \<open>buffers\<close>. Of the \<^verbatim>\<open>net::send\<close>
  overloads only the one that takes a \<^verbatim>\<open>void const *\<close>, a byte length and a
  \<^verbatim>\<open>sockaddr_in\<close> accepts the arguments, so that is the one the call resolves to.
\<close>

definition udp_send_iovec_sockaddr ::
  "('w, 'x) net_calls_scheme \<Rightarrow> udp_socket \<Rightarrow> addr \<Rightarrow> size_t \<Rightarrow> sockaddr_in \<Rightarrow> int
    \<Rightarrow> ('w sys, size_t) cmd" where
  "udp_send_iovec_sockaddr K u buffers size_buffers sa flags =
     send_buf_sockaddr K (udp_descriptor u) buffers size_buffers sa flags"

definition udp_swap :: "udp_socket \<Rightarrow> udp_socket \<Rightarrow> udp_socket \<times> udp_socket" where
  "udp_swap a b =
     (case ufd_swap (udp_sock a) (udp_sock b) of (u, v) \<Rightarrow> (\<lparr>udp_sock = u\<rparr>, \<lparr>udp_sock = v\<rparr>))"

definition udp_move_ctor :: "udp_socket \<Rightarrow> udp_socket \<times> udp_socket" where
  "udp_move_ctor src =
     (case ufd_move_ctor (udp_sock src) of (u, v) \<Rightarrow> (\<lparr>udp_sock = u\<rparr>, \<lparr>udp_sock = v\<rparr>))"

definition udp_move_assign :: "'o \<Rightarrow> 'o \<Rightarrow> ('o \<Rightarrow> udp_socket) \<Rightarrow> ('o \<Rightarrow> udp_socket)" where
  "udp_move_assign a b st =
     (let fds = ufd_move_assign a b (\<lambda>x. udp_sock (st x)) in (\<lambda>x. \<lparr>udp_sock = fds x\<rparr>))"

text \<open>A move takes the descriptor; assigning an object to itself loses it.\<close>

lemma udp_move_ctor_descriptor:
  "udp_move_ctor u = (a, b) \<Longrightarrow> udp_descriptor a = udp_descriptor u \<and> \<not> udp_bool b"
  by (auto simp: udp_move_ctor_def udp_descriptor_def udp_bool_def unique_fd_defs int_descriptor_defs ufd_bool_def)

lemma udp_move_assign_self: "\<not> udp_bool (udp_move_assign a a st a)"
  by (simp add: udp_move_assign_def udp_bool_def unique_fd_defs int_descriptor_defs ufd_bool_def Let_def)

end
