(* ===== verification/Length_Prefixed.thy ===== *)
theory Length_Prefixed
  imports Iovec
begin

text \<open>
  \<^verbatim>\<open>length_prefixed_message.hpp\<close>: messages whose first \<^verbatim>\<open>iovec\<close> entry
  points at a length field inside the message object. \<^verbatim>\<open>ndgpp::network_byte_order<T>\<close> is
  third-party: its memory representation is the parameter \<open>nbo\<close> and its size the parameter
  \<open>sizeof_nbo\<close>. The object's \<^verbatim>\<open>length_\<close> member is at the address \<open>self\<close> in the process
  memory, so that an \<^verbatim>\<open>iovec\<close> can point to it.
\<close>

type_synonym 'a nbo = "'a word \<Rightarrow> byte list"

record lpm_buffer =
  lpb_iovec :: "iovec list"

definition length_prefixed_message_buffer ::
  "'a::len nbo \<Rightarrow> size_t \<Rightarrow> addr \<Rightarrow> addr \<Rightarrow> 'a word \<Rightarrow> ('w sys, lpm_buffer) cmd" where
  "length_prefixed_message_buffer nbo sizeof_nbo self buf len =
     then_c (modify_c (\<lambda>s. s\<lparr>mem := mem_write (mem s) self (nbo len)\<rparr>))
     (ret_c \<lparr>lpb_iovec = make_iovec_array_const
               [Arg_buffers (Arg_pair sizeof_nbo (self, 1)), Arg_buffers (Arg_pair_void (buf, ucast len))]\<rparr>)"

definition lpm_buffer_iovec :: "lpm_buffer \<Rightarrow> iovec list" where
  "lpm_buffer_iovec msg = lpb_iovec msg"

record lpm_vector =
  lpv_iovec :: "iovec list"

definition lpm_vector_default :: lpm_vector where
  "lpm_vector_default = \<lparr>lpv_iovec = []\<rparr>"

definition length_prefixed_message_vector ::
  "'a::len nbo \<Rightarrow> size_t \<Rightarrow> addr \<Rightarrow> iovec list \<Rightarrow> ('w sys, lpm_vector) cmd" where
  "length_prefixed_message_vector nbo sizeof_nbo self buffers =
     then_c (modify_c (\<lambda>s. s\<lparr>mem := mem_write (mem s) self (nbo (ucast (accumulate buffers)))\<rparr>))
     (let vec = replicate (length buffers + 1) \<lparr>iov_base = 0, iov_len = 0\<rparr>;
          vec = vec[0 := make_iovec_const_pair sizeof_nbo (self, 1)];
          vec = std_copy buffers 1 vec
      in ret_c \<lparr>lpv_iovec = vec\<rparr>)"

definition lpm_vector_fill ::
  "'a::len nbo \<Rightarrow> size_t \<Rightarrow> addr \<Rightarrow> iovec list \<Rightarrow> lpm_vector \<Rightarrow> ('w sys, lpm_vector) cmd" where
  "lpm_vector_fill nbo sizeof_nbo self buffers msg =
     then_c (modify_c (\<lambda>s. s\<lparr>mem := mem_write (mem s) self (nbo (ucast (accumulate buffers)))\<rparr>))
     (let vec = vec_resize \<lparr>iov_base = 0, iov_len = 0\<rparr> (length buffers + 1) (lpv_iovec msg);
          vec = vec[0 := make_iovec_const_pair sizeof_nbo (self, 1)];
          vec = std_copy buffers 1 vec
      in ret_c (msg\<lparr>lpv_iovec := vec\<rparr>))"

definition lpm_vector_iovec :: "lpm_vector \<Rightarrow> iovec list" where
  "lpm_vector_iovec msg = lpv_iovec msg"

text \<open>
  The \<^verbatim>\<open>std::array\<close> of the third class is not initialised: its \<open>N + 1\<close> entries start with
  the values \<open>junk\<close>. The copy starts at \<^verbatim>\<open>begin()\<close>.
\<close>

record lpm_array =
  lpa_iovec :: "iovec list"

definition length_prefixed_message_array ::
  "'a::len nbo \<Rightarrow> size_t \<Rightarrow> addr \<Rightarrow> iovec list \<Rightarrow> iovec list \<Rightarrow> ('w sys, lpm_array) cmd" where
  "length_prefixed_message_array nbo sizeof_nbo self junk buffers =
     then_c (modify_c (\<lambda>s. s\<lparr>mem := mem_write (mem s) self (nbo (ucast (accumulate buffers)))\<rparr>))
     (let arr = junk[0 := make_iovec_const_pair sizeof_nbo (self, 1)];
          arr = std_copy buffers 0 arr
      in ret_c \<lparr>lpa_iovec = arr\<rparr>)"

definition lpm_array_iovec :: "lpm_array \<Rightarrow> iovec list" where
  "lpm_array_iovec msg = lpa_iovec msg"

lemmas lpm_defs = length_prefixed_message_buffer_def lpm_buffer_iovec_def
  length_prefixed_message_vector_def lpm_vector_fill_def lpm_vector_iovec_def lpm_vector_default_def
  length_prefixed_message_array_def lpm_array_iovec_def

subsection \<open>Network byte order\<close>

text \<open>The 16-bit big-endian representation, and the named hypothesis on the third-party class.\<close>

definition be16 :: "uint16 \<Rightarrow> byte list" where
  "be16 w = [ucast (drop_bit 8 w), ucast w]"

definition nbo16_law :: "16 nbo \<Rightarrow> size_t \<Rightarrow> bool" where
  "nbo16_law nbo sizeof_nbo \<longleftrightarrow> nbo = be16 \<and> sizeof_nbo = 2"

lemma length_be16 [simp]: "length (be16 w) = 2"
  by (simp add: be16_def)

text \<open>No byte of a caller's buffer overlaps the two bytes of the length field.\<close>

definition clear_of :: "addr \<Rightarrow> iovec list \<Rightarrow> bool" where
  "clear_of self vs \<longleftrightarrow>
     (\<forall>v\<in>set vs. \<forall>i < unat (iov_len v). iov_base v + of_nat i \<notin> {self, self + 1})"

lemma less_two_cases: "(i::nat) < 2 \<Longrightarrow> i = 0 \<or> i = 1"
  and less_three_cases: "(i::nat) < 3 \<Longrightarrow> i = 0 \<or> i = 1 \<or> i = 2"
  by auto

lemma gather_clear:
  "clear_of self vs \<Longrightarrow> gather (mem_write m self (be16 w)) vs = gather m vs"
proof (induction vs)
  case (Cons v vs)
  have "mem_read (mem_write m self (be16 w)) (iov_base v) (unat (iov_len v))
      = mem_read m (iov_base v) (unat (iov_len v))"
  proof (rule mem_read_cong)
    fix i assume "i < unat (iov_len v)"
    with Cons.prems have "iov_base v + of_nat i \<notin> {self, self + 1}"
      by (simp add: clear_of_def)
    then show "mem_write m self (be16 w) (iov_base v + of_nat i) = m (iov_base v + of_nat i)"
      by (intro mem_write_other) (auto dest: less_two_cases)
  qed
  with Cons show ?case by (simp add: gather_Cons clear_of_def)
qed (simp add: gather_def)

lemma gather_header:
  "mem_read (mem_write m self (be16 w)) self 2 = be16 w"
  using mem_read_write [of "be16 w" m self] by simp

lemma be16_value: "unat (hd (be16 w)) * 256 + unat (be16 w ! 1) = unat w"
proof -
  have "unat (drop_bit 8 w) = unat w div 256"
    by (simp add: drop_bit_eq_div unat_div)
  moreover have "unat w div 256 < 256" using unat_bound16 [of w] by simp
  ultimately show ?thesis
    by (simp add: be16_def unsigned_ucast_eq take_bit_eq_mod)
qed

lemma prefix_entry: "make_iovec_const_pair 2 (self, 1) = \<lparr>iov_base = self, iov_len = 2\<rparr>"
  by (simp add: make_iovec_defs fill_iovec_defs)

lemma lpm_vector_list:
  "length vec = Suc (length buffers) \<Longrightarrow>
     std_copy buffers (Suc 0) (vec[0 := h]) = h # buffers"
  by (cases vec) (simp_all add: std_copy_tail)

lemma ucast_accumulate: "(ucast (accumulate buffers) :: uint16) = of_nat (total_len buffers)"
proof (rule word_unat_eq_iff [THEN iffD2])
  have "unat (ucast (accumulate buffers) :: uint16) = (total_len buffers mod 2 ^ 32) mod 2 ^ 16"
    by (simp add: unsigned_ucast_eq take_bit_eq_mod unat_accumulate)
  also have "\<dots> = total_len buffers mod 2 ^ 16"
    by (rule mod_mod_cancel) simp
  finally show "unat (ucast (accumulate buffers) :: uint16) = unat (of_nat (total_len buffers) :: uint16)"
    by (simp add: unsigned_of_nat take_bit_eq_mod)
qed

text \<open>
  The three constructions, run: what memory and entries they leave, for the big-endian
  representation.
\<close>

lemma lpm_buffer_run:
  "length_prefixed_message_buffer be16 2 self buf len s =
     (Ok \<lparr>lpb_iovec = [\<lparr>iov_base = self, iov_len = 2\<rparr>, \<lparr>iov_base = buf, iov_len = ucast len\<rparr>]\<rparr>,
      s\<lparr>mem := mem_write (mem s) self (be16 len)\<rparr>)"
  by (simp add: lpm_defs cmd_simps make_iovec_array_const_def prefix_entry make_iovec_defs
      fill_iovec_defs)

lemma lpm_vector_fill_run:
  "lpm_vector_fill be16 2 self buffers msg s =
     (Ok \<lparr>lpv_iovec = \<lparr>iov_base = self, iov_len = 2\<rparr> # buffers\<rparr>,
      s\<lparr>mem := mem_write (mem s) self (be16 (of_nat (total_len buffers)))\<rparr>)"
  by (cases msg)
    (simp add: lpm_vector_fill_def cmd_simps Let_def lpm_vector_list prefix_entry ucast_accumulate)

lemma gather_prefixed:
  assumes "clear_of self vs"
  shows "gather (mem_write m self (be16 w)) (\<lparr>iov_base = self, iov_len = 2\<rparr> # vs) = be16 w @ gather m vs"
  using assms by (simp add: gather_Cons gather_header gather_clear)

lemma gather_buffer16:
  "gather m [\<lparr>iov_base = buf, iov_len = ucast (len :: uint16)\<rparr>] = mem_read m buf (unat len)"
  using unat_bound16 [of len] by (simp add: gather_def unsigned_ucast_eq take_bit_eq_mod)

subsection \<open>Properties\<close>

text \<open>
  C35. The bytes of a vector message on the wire: filling \<^verbatim>\<open>length_prefixed_message_vector\<close>
  with the caller's buffers gives entries whose bytes are the big-endian 16-bit length followed by
  the buffers' bytes. The length is the total modulo 2 to the 16, so it is the payload's length
  exactly when the payload is shorter than 65536 bytes.
\<close>

theorem lpm_vector_wire:
  assumes "nbo16_law nbo sizeof_nbo" and "clear_of self buffers"
  shows "\<exists>msg s'. lpm_vector_fill nbo sizeof_nbo self buffers old s = (Ok msg, s')
     \<and> gather (mem s') (lpm_vector_iovec msg) = be16 (of_nat (total_len buffers)) @ gather (mem s) buffers
     \<and> (unat (of_nat (total_len buffers) :: uint16) = length (gather (mem s) buffers)
          \<longleftrightarrow> total_len buffers < 2 ^ 16)"
proof -
  let ?n = "total_len buffers"
  have "unat (of_nat ?n :: uint16) = ?n mod 65536"
    by (simp add: unsigned_of_nat take_bit_eq_mod)
  moreover have "?n mod 65536 = ?n \<longleftrightarrow> ?n < 65536"
    by (metis mod_less mod_less_divisor zero_less_numeral)
  ultimately show ?thesis
    using assms unfolding nbo16_law_def
    by (simp add: lpm_vector_fill_run lpm_vector_iovec_def gather_prefixed length_gather)
qed

theorem lpm_vector_wire_witness:
  "\<exists>msg s'. lpm_vector_fill be16 2 100 [\<lparr>iov_base = 0, iov_len = 3\<rparr>] lpm_vector_default
       \<lparr>errno = 0, mem = (\<lambda>a. ucast a + 7), world = ()\<rparr> = (Ok msg, s')
     \<and> gather (mem s') (lpm_vector_iovec msg) = [0, 3, 7, 8, 9]"
proof -
  have l: "nbo16_law be16 2" by (simp add: nbo16_law_def)
  have c: "clear_of 100 [\<lparr>iov_base = 0, iov_len = 3\<rparr>]"
    by (auto simp: clear_of_def dest!: less_three_cases)
  have g: "gather (\<lambda>a. ucast a + 7) [\<lparr>iov_base = 0, iov_len = 3\<rparr>] = [7, 8, 9]"
    by (simp add: gather_def mem_read_def upt_rec [of _ 3])
  from lpm_vector_wire [OF l c, of lpm_vector_default
      "\<lparr>errno = 0, mem = (\<lambda>a. ucast a + 7), world = ()\<rparr>"] g
  show ?thesis by (auto simp: be16_def total_len_def)
qed

text \<open>
  The same for \<^verbatim>\<open>length_prefixed_message_buffer\<close>, whose length is a
  \<^verbatim>\<open>uint16_t\<close> and therefore always exact: two length bytes, then the buffer.
\<close>

theorem lpm_buffer_wire:
  assumes "nbo16_law nbo sizeof_nbo" and "clear_of self [\<lparr>iov_base = buf, iov_len = ucast len\<rparr>]"
  shows "\<exists>msg s'. length_prefixed_message_buffer nbo sizeof_nbo self buf len s = (Ok msg, s')
     \<and> gather (mem s') (lpm_buffer_iovec msg) = be16 len @ mem_read (mem s) buf (unat len)"
  using assms unfolding nbo16_law_def
  by (simp add: lpm_buffer_run lpm_buffer_iovec_def gather_prefixed gather_buffer16)

theorem lpm_buffer_wire_witness:
  "\<exists>msg s'. length_prefixed_message_buffer be16 2 100 0 2
       \<lparr>errno = 0, mem = (\<lambda>a. ucast a + 7), world = ()\<rparr> = (Ok msg, s')
     \<and> gather (mem s') (lpm_buffer_iovec msg) = [0, 2, 7, 8]"
proof -
  have l: "nbo16_law be16 2" by (simp add: nbo16_law_def)
  have c: "clear_of 100 [\<lparr>iov_base = 0, iov_len = ucast (2 :: uint16)\<rparr>]"
    by (auto simp: clear_of_def dest!: less_two_cases)
  from lpm_buffer_wire [OF l c, of "\<lparr>errno = 0, mem = (\<lambda>a. ucast a + 7), world = ()\<rparr>"]
  show ?thesis by (auto simp: be16_def mem_read_def upt_rec [of _ 2])
qed

text \<open>
  \<^verbatim>\<open>length_prefixed_message_array\<close> loses its length prefix: the buffers are copied
  over the first entry, so for at least one buffer the entries are the buffers followed by the entry
  of the array that was never initialised.
\<close>

theorem lpm_array_loses_prefix:
  assumes "length junk = length buffers + 1" and "buffers \<noteq> []"
  shows "\<exists>msg s'. length_prefixed_message_array nbo sizeof_nbo self junk buffers s = (Ok msg, s')
     \<and> lpm_array_iovec msg = buffers @ [junk ! length buffers]"
proof -
  have "drop (length buffers) (junk[0 := h]) = [junk ! length buffers]" for h
    using assms Cons_nth_drop_Suc [of "length buffers" "junk[0 := h]"] by simp
  then show ?thesis by (simp add: lpm_defs cmd_simps Let_def std_copy_def)
qed

theorem lpm_array_loses_prefix_witness:
  "\<exists>msg s'. length_prefixed_message_array be16 2 100
       [\<lparr>iov_base = 1, iov_len = 1\<rparr>, \<lparr>iov_base = 2, iov_len = 2\<rparr>] [\<lparr>iov_base = 0, iov_len = 3\<rparr>]
       \<lparr>errno = 0, mem = (\<lambda>a. 7), world = ()\<rparr> = (Ok msg, s')
     \<and> lpm_array_iovec msg = [\<lparr>iov_base = 0, iov_len = 3\<rparr>, \<lparr>iov_base = 2, iov_len = 2\<rparr>]"
  using lpm_array_loses_prefix [of "[\<lparr>iov_base = 1, iov_len = 1\<rparr>, \<lparr>iov_base = 2, iov_len = 2\<rparr>]"
      "[\<lparr>iov_base = 0, iov_len = 3\<rparr>]" be16 2 100 "\<lparr>errno = 0, mem = (\<lambda>a. 7), world = ()\<rparr>"]
  by simp

end
