(* ===== verification/Tcp_Datagram.thy ===== *)
theory Tcp_Datagram
  imports Tcp_Socket Length_Prefixed
begin

text \<open>
  \<^verbatim>\<open>linuxpp::net::tcp_datagram_socket\<close>: messages of at most 65535 bytes over a TCP
  stream, each preceded by its length in network byte order. The caller's
  \<^verbatim>\<open>std::vector\<close> is passed by reference and keeps what was stored in it even when the
  function throws, so the receiving functions run on a pair of that buffer and the system state.
  The length field of a message object is in memory, at the address \<open>self\<close>.
\<close>

record tcp_datagram_socket =
  tds_socket :: tcp_socket
  tds_iovec_vector :: lpm_vector

definition tds_default :: tcp_datagram_socket where
  "tds_default = \<lparr>tds_socket = tcp_default, tds_iovec_vector = lpm_vector_default\<rparr>"

definition tds_descriptor :: "tcp_datagram_socket \<Rightarrow> int" where
  "tds_descriptor t = tcp_descriptor (tds_socket t)"

definition tds_bool :: "tcp_datagram_socket \<Rightarrow> bool" where
  "tds_bool t \<longleftrightarrow> tcp_bool (tds_socket t)"

definition tds_destroy :: "('w, 'x) fd_calls_scheme \<Rightarrow> tcp_datagram_socket \<Rightarrow> ('w, unit) syscall" where
  "tds_destroy K t = tcp_destroy K (tds_socket t)"

text \<open>\<^verbatim>\<open>setsockopt<so::tcp_nodelay>(descriptor(), 1)\<close>\<close>

definition tds_nodelay :: "('w, 'x) net_calls_scheme \<Rightarrow> tcp_datagram_socket \<Rightarrow> ('w sys, unit) cmd" where
  "tds_nodelay K t = then_c (setsockopt K So_tcp_nodelay (tds_descriptor t) (Opt_int 1)) (ret_c ())"

text \<open>
  Construction from a \<^verbatim>\<open>tcp_socket &&\<close>. The members are complete when the body
  runs, so they are destroyed when it throws; the source object was already emptied.
\<close>

definition tds_of_tcp_socket ::
  "('w, 'x) net_calls_scheme \<Rightarrow> tcp_socket \<Rightarrow> ('w sys, tcp_datagram_socket) cmd \<times> tcp_socket" where
  "tds_of_tcp_socket K sock =
     (case tcp_move_ctor sock of (mine, left) \<Rightarrow>
        let t = \<lparr>tds_socket = mine, tds_iovec_vector = lpm_vector_default\<rparr>
        in (ctor_body (tds_destroy K t) t (tds_nodelay K t), left))"

definition tds_move_ctor ::
  "tcp_datagram_socket \<Rightarrow> tcp_datagram_socket \<times> tcp_datagram_socket" where
  "tds_move_ctor src =
     (case tcp_move_ctor (tds_socket src) of (a, b) \<Rightarrow>
        (\<lparr>tds_socket = a, tds_iovec_vector = tds_iovec_vector src\<rparr>,
         \<lparr>tds_socket = b, tds_iovec_vector = lpm_vector_default\<rparr>))"

text \<open>Defaulted move assignment between two objects, member by member.\<close>

definition tds_move_assign ::
  "tcp_datagram_socket \<Rightarrow> tcp_datagram_socket \<Rightarrow> tcp_datagram_socket \<times> tcp_datagram_socket" where
  "tds_move_assign t rhs =
     (case tcp_move_ctor (tds_socket rhs) of (mine, left) \<Rightarrow>
        (t\<lparr>tds_socket := mine, tds_iovec_vector := tds_iovec_vector rhs\<rparr>,
         \<lparr>tds_socket = left, tds_iovec_vector = lpm_vector_default\<rparr>))"

text \<open>
  Assignment from a \<^verbatim>\<open>tcp_socket &&\<close>: the defaulted move assignment of
  \<^verbatim>\<open>tcp_socket\<close> overwrites the held descriptor. When setting the option throws, the
  assignment has been done. The result is the outcome and the two objects.
\<close>

definition tds_assign_tcp_socket ::
  "('w, 'x) net_calls_scheme \<Rightarrow> tcp_datagram_socket \<Rightarrow> tcp_socket
    \<Rightarrow> ('w sys, unit) cmd \<times> tcp_datagram_socket \<times> tcp_socket" where
  "tds_assign_tcp_socket K t rhs =
     (case tcp_move_ctor rhs of (mine, left) \<Rightarrow>
        let t' = t\<lparr>tds_socket := mine\<rparr> in (tds_nodelay K t', t', left))"

definition tds_domain ::
  "('w, 'x) net_calls_scheme \<Rightarrow> int \<Rightarrow> ('w sys, tcp_datagram_socket) cmd" where
  "tds_domain K domain =
     bind_c (tcp_socket_domain K domain) (\<lambda>sock.
     let t = \<lparr>tds_socket = sock, tds_iovec_vector = lpm_vector_default\<rparr>
     in ctor_body (tds_destroy K t) t (tds_nodelay K t))"

definition tds_bind_port_ctor ::
  "('w, 'x) net_calls_scheme \<Rightarrow> ('a, 'p) ndgpp \<Rightarrow> bool \<Rightarrow> 'a \<Rightarrow> 'p
    \<Rightarrow> ('w sys, tcp_datagram_socket) cmd" where
  "tds_bind_port_ctor K N le address port =
     bind_c (tds_domain K AF_INET) (\<lambda>t.
     ctor_body (tds_destroy K t) t (tcp_bind_port K N le (tds_socket t) address port))"

definition tds_bind_ctor ::
  "('w, 'x) net_calls_scheme \<Rightarrow> ('a, 'p) ndgpp \<Rightarrow> bool \<Rightarrow> 'a \<Rightarrow> ('w sys, tcp_datagram_socket) cmd" where
  "tds_bind_ctor K N le address =
     bind_c (tds_domain K AF_INET) (\<lambda>t.
     ctor_body (tds_destroy K t) t (tcp_bind K N le (tds_socket t) address))"

definition tds_connect_ctor ::
  "('w, 'x) net_calls_scheme \<Rightarrow> ('a, 'p) ndgpp \<Rightarrow> bool \<Rightarrow> 'a \<Rightarrow> 'p
    \<Rightarrow> ('w sys, tcp_datagram_socket) cmd" where
  "tds_connect_ctor K N le address port =
     bind_c (tds_domain K AF_INET) (\<lambda>t.
     ctor_body (tds_destroy K t) t (tcp_connect K N le (tds_socket t) address port))"

definition tds_close ::
  "('w, 'x) net_calls_scheme \<Rightarrow> tcp_datagram_socket \<Rightarrow> ('w sys, tcp_datagram_socket) cmd" where
  "tds_close K t = bind_c (tcp_close K (tds_socket t)) (\<lambda>sock. ret_c (t\<lparr>tds_socket := sock\<rparr>))"

definition tds_shutdown ::
  "('w, 'x) net_calls_scheme \<Rightarrow> tcp_datagram_socket \<Rightarrow> int \<Rightarrow> ('w sys, unit) cmd" where
  "tds_shutdown K t how = tcp_shutdown K (tds_socket t) how"

definition tds_bind_port ::
  "('w, 'x) net_calls_scheme \<Rightarrow> ('a, 'p) ndgpp \<Rightarrow> bool \<Rightarrow> tcp_datagram_socket \<Rightarrow> 'a \<Rightarrow> 'p
    \<Rightarrow> ('w sys, unit) cmd" where
  "tds_bind_port K N le t address port = tcp_bind_port K N le (tds_socket t) address port"

definition tds_bind ::
  "('w, 'x) net_calls_scheme \<Rightarrow> ('a, 'p) ndgpp \<Rightarrow> bool \<Rightarrow> tcp_datagram_socket \<Rightarrow> 'a
    \<Rightarrow> ('w sys, unit) cmd" where
  "tds_bind K N le t address = tcp_bind K N le (tds_socket t) address"

definition tds_connect ::
  "('w, 'x) net_calls_scheme \<Rightarrow> ('a, 'p) ndgpp \<Rightarrow> bool \<Rightarrow> tcp_datagram_socket \<Rightarrow> 'a \<Rightarrow> 'p
    \<Rightarrow> ('w sys, unit) cmd" where
  "tds_connect K N le t address port = tcp_connect K N le (tds_socket t) address port"

definition tds_listen ::
  "('w, 'x) net_calls_scheme \<Rightarrow> tcp_datagram_socket \<Rightarrow> int \<Rightarrow> ('w sys, unit) cmd" where
  "tds_listen K t backlog = tcp_listen K (tds_socket t) backlog"

definition tds_accept ::
  "('w, 'x) net_calls_scheme \<Rightarrow> tcp_datagram_socket \<Rightarrow> int \<Rightarrow> ('w sys, int) cmd" where
  "tds_accept K t flags = tcp_accept K (tds_socket t) flags"

definition tds_accept_addr ::
  "('w, 'x) net_calls_scheme \<Rightarrow> ('a, 'p) ndgpp \<Rightarrow> bool \<Rightarrow> tcp_datagram_socket \<Rightarrow> int
    \<Rightarrow> ('w sys, int \<times> 'a \<times> 'p) cmd" where
  "tds_accept_addr K N le t flags = tcp_accept_addr K N le (tds_socket t) flags"

definition tds_swap ::
  "tcp_datagram_socket \<Rightarrow> tcp_datagram_socket \<Rightarrow> tcp_datagram_socket \<times> tcp_datagram_socket" where
  "tds_swap a b =
     (case tcp_swap (tds_socket a) (tds_socket b) of (x, y) \<Rightarrow>
        (\<lparr>tds_socket = x, tds_iovec_vector = tds_iovec_vector b\<rparr>,
         \<lparr>tds_socket = y, tds_iovec_vector = tds_iovec_vector a\<rparr>))"

subsection \<open>Blocking receive\<close>

definition tds_recv ::
  "('w, 'x) net_calls_scheme \<Rightarrow> bool \<Rightarrow> tcp_datagram_socket \<Rightarrow> int
    \<Rightarrow> (byte list \<times> 'w sys, size_t) cmd" where
  "tds_recv K le t flags =
     bind_c (beside (tcp_recv K (tds_socket t) 2 MSG_WAITALL)) (\<lambda>(ret, bytes).
     if ret \<noteq> 2 then throw_c (System_error ENODATA ''message length truncated'')
     else
       let raw = std_copy bytes 0 [0, 0];
           msg_size = ntohs le (load16 le (raw ! 0) (raw ! 1))
       in then_c (modify_c (\<lambda>(buf, s). (vec_resize 0 (unat msg_size) buf, s)))
          (bind_c (gets_c (\<lambda>(buf, s). of_nat (length buf))) (\<lambda>buf_size.
           bind_c (beside (tcp_recv K (tds_socket t) buf_size (MSG_WAITALL OR flags)))
             (\<lambda>(ret, bytes).
           then_c (modify_c (\<lambda>(buf, s). (std_copy bytes 0 buf, s)))
           (if ret \<noteq> buf_size then throw_c (System_error ENODATA ''message truncated'')
            else ret_c ret)))))"

subsection \<open>Non-blocking receive\<close>

datatype state_type = Receiving_msg_size | Receiving_msg | Finished

record receive_state =
  msg_size :: size_t
  bytes_received :: size_t
  rstate :: state_type

definition receive_state_init :: receive_state where
  "receive_state_init = \<lparr>msg_size = 0, bytes_received = 0, rstate = Receiving_msg_size\<rparr>"

text \<open>
  The loop that merges the received length bytes, from index \<open>i\<close> up to \<open>n\<close>. \<open>None\<close>: an
  access outside the array.
\<close>

function merge_size :: "byte list \<Rightarrow> nat \<Rightarrow> nat \<Rightarrow> size_t \<Rightarrow> size_t option" where
  "merge_size arr i n acc =
     (if i < n
      then if i < length arr
           then merge_size arr (i + 1) n (acc OR push_bit ((1 - i) * 8) (ucast (arr ! i)))
           else None
      else Some acc)"
  by pat_completeness auto
termination by (relation "measure (\<lambda>(arr, i, n, acc). n - i)") auto

declare merge_size.simps [simp del]

text \<open>The array of the source is not initialised: \<open>junk\<close>, two bytes.\<close>

definition recv_size_part ::
  "('w, 'x) net_calls_scheme \<Rightarrow> byte list \<Rightarrow> tcp_datagram_socket \<Rightarrow> receive_state \<Rightarrow> int
    \<Rightarrow> ('w sys, receive_state) cmd" where
  "recv_size_part K junk t state flags =
     (if unat (bytes_received state) > 2 then undefined_c
      else
        bind_c (tcp_recv K (tds_socket t) (2 - bytes_received state) (flags OR MSG_DONTWAIT))
          (\<lambda>(ret, bytes).
        let arr = std_copy bytes (unat (bytes_received state)) junk;
            received = bytes_received state + ret
        in case merge_size arr (unat (bytes_received state)) (unat received) (msg_size state) of
             None \<Rightarrow> undefined_c
           | Some sz \<Rightarrow>
               let new_state = state\<lparr>msg_size := sz, bytes_received := received\<rparr>
               in if received \<noteq> 2 then ret_c new_state
                  else ret_c (new_state\<lparr>rstate := Receiving_msg, bytes_received := 0\<rparr>)))"

definition recv_msg_part ::
  "('w, 'x) net_calls_scheme \<Rightarrow> tcp_datagram_socket \<Rightarrow> receive_state \<Rightarrow> int
    \<Rightarrow> (byte list \<times> 'w sys, receive_state) cmd" where
  "recv_msg_part K t state flags =
     then_c (modify_c (\<lambda>(buf, s). (vec_resize 0 (unat (msg_size state)) buf, s)))
     (if bytes_received state > msg_size state then undefined_c
      else
        bind_c (beside (tcp_recv K (tds_socket t) (msg_size state - bytes_received state)
                 (flags OR MSG_DONTWAIT))) (\<lambda>(ret, bytes).
        then_c (modify_c (\<lambda>(buf, s). (std_copy bytes (unat (bytes_received state)) buf, s)))
        (let new_state = state\<lparr>bytes_received := bytes_received state + ret\<rparr>
         in if bytes_received new_state \<noteq> msg_size new_state then ret_c new_state
            else ret_c (new_state\<lparr>rstate := Finished\<rparr>))))"

definition recv_part_start ::
  "('w, 'x) net_calls_scheme \<Rightarrow> byte list \<Rightarrow> tcp_datagram_socket \<Rightarrow> int
    \<Rightarrow> ('w sys, receive_state) cmd" where
  "recv_part_start K junk t flags = recv_size_part K junk t receive_state_init flags"

definition recv_part ::
  "('w, 'x) net_calls_scheme \<Rightarrow> byte list \<Rightarrow> tcp_datagram_socket \<Rightarrow> receive_state \<Rightarrow> int
    \<Rightarrow> (byte list \<times> 'w sys, receive_state) cmd" where
  "recv_part K junk t state flags =
     (case rstate state of
        Receiving_msg_size \<Rightarrow> beside (recv_size_part K junk t state flags)
      | Receiving_msg \<Rightarrow> recv_msg_part K t state flags
      | Finished \<Rightarrow> beside (recv_size_part K junk t receive_state_init flags))"

subsection \<open>Sending\<close>

definition tds_send_buf ::
  "('w, 'x) net_calls_scheme \<Rightarrow> 16 nbo \<Rightarrow> size_t \<Rightarrow> addr \<Rightarrow> tcp_datagram_socket \<Rightarrow> addr \<Rightarrow> uint16 \<Rightarrow> int
    \<Rightarrow> ('w sys, size_t) cmd" where
  "tds_send_buf K nbo sizeof_nbo self t buf len flags =
     bind_c (length_prefixed_message_buffer nbo sizeof_nbo self buf len) (\<lambda>msg.
     tcp_send_iovec K (tds_socket t) (lpm_buffer_iovec msg) flags)"

text \<open>The message object is a member: the object changes even when the send throws.\<close>

definition tds_send_iovec ::
  "('w, 'x) net_calls_scheme \<Rightarrow> 16 nbo \<Rightarrow> size_t \<Rightarrow> addr \<Rightarrow> iovec list \<Rightarrow> int
    \<Rightarrow> (tcp_datagram_socket \<times> 'w sys, size_t) cmd" where
  "tds_send_iovec K nbo sizeof_nbo self buffers flags =
     bind_c (gets_c fst) (\<lambda>t.
     bind_c (beside (lpm_vector_fill nbo sizeof_nbo self buffers (tds_iovec_vector t))) (\<lambda>msg.
     then_c (modify_c (\<lambda>(t, s). (t\<lparr>tds_iovec_vector := msg\<rparr>, s)))
     (beside (tcp_send_iovec K (tds_socket t) (lpm_vector_iovec msg) flags))))"

definition tds_send_array ::
  "('w, 'x) net_calls_scheme \<Rightarrow> 16 nbo \<Rightarrow> size_t \<Rightarrow> addr \<Rightarrow> iovec list \<Rightarrow> tcp_datagram_socket
    \<Rightarrow> iovec list \<Rightarrow> int \<Rightarrow> ('w sys, size_t) cmd" where
  "tds_send_array K nbo sizeof_nbo self junk t bufs flags =
     bind_c (length_prefixed_message_array nbo sizeof_nbo self junk bufs) (\<lambda>msg.
     tcp_send_iovec K (tds_socket t) (lpm_array_iovec msg) flags)"

end
