(* ===== verification/Datagram_Receive.thy ===== *)
theory Datagram_Receive
  imports Tcp_Datagram
begin

text \<open>
  Correctness of \<^verbatim>\<open>tcp_datagram_socket\<close>. The abstract contract of an incremental
  decoder of prefix-free frames is the locale \<open>chunk_decoder\<close>; the receive state machine of the
  source refines the decoder \<open>rs_feed\<close>, which interprets it. From that: whatever the sizes of the
  pieces in which the stream arrives, and however many calls fail in between, polling
  \<^verbatim>\<open>recv_part\<close> yields the message that was framed, and it finishes after a bounded
  number of calls that find data. The blocking \<^verbatim>\<open>recv\<close> and \<^verbatim>\<open>send\<close>
  form a FIFO of messages. What the theorems need of the kernel are the named hypotheses
  \<open>stream_law\<close>, \<open>prompt_law\<close>, \<open>waitall_law\<close> and \<open>send_law\<close>; \<open>stream_calls\<close> is a kernel that has
  them all.
\<close>

unbundle bit_operations_syntax

subsection \<open>Arithmetic of the length field\<close>
lemma unat_high: "unat (push_bit 8 (ucast (b::byte)) :: size_t) = 256 * unat b"
  using unat_bound8 [of b] by (simp add: push_bit_eq_mult unat_word_ariths unsigned_ucast_eq take_bit_eq_mod)

lemma unat_high_low: "unat (push_bit 8 (ucast (b::byte)) OR ucast (c::byte) :: size_t) = 256 * unat b + unat c"
proof -
  have "(push_bit 8 (ucast b) OR ucast c :: size_t) = push_bit 8 (ucast b) + ucast c"
    by (rule disjunctive_add_eq_or [symmetric], rule bit_word_eqI) (auto simp: bit_simps dest: bit_imp_le_length)
  then show ?thesis using unat_bound8 [of b] unat_bound8 [of c] 
   by (simp add: push_bit_eq_mult unat_word_ariths unsigned_ucast_eq take_bit_eq_mod)
qed

subsection \<open>The order of the phases\<close>

text \<open>The phases of a receive in the order in which it passes through them.\<close>

definition phase :: "state_type \<Rightarrow> nat" where
  "phase p = (case p of Receiving_msg_size \<Rightarrow> 0 | Receiving_msg \<Rightarrow> 1 | Finished \<Rightarrow> 2)"

lemma phase_eq: "phase p = phase q \<longleftrightarrow> p = q"
  by (cases p; cases q) (simp_all add: phase_def)

instantiation state_type :: linorder
begin

definition less_eq_state_type :: "state_type \<Rightarrow> state_type \<Rightarrow> bool" where
  "less_eq_state_type p q \<longleftrightarrow> phase p \<le> phase q"

definition less_state_type :: "state_type \<Rightarrow> state_type \<Rightarrow> bool" where
  "less_state_type p q \<longleftrightarrow> phase p < phase q"

instance
  by standard (auto simp: less_eq_state_type_def less_state_type_def phase_eq [symmetric])

end

text \<open>A call of \<^verbatim>\<open>recv_part\<close> never goes back, unless it starts the next message.\<close>

lemma recv_part_phase:
  assumes "recv_part K junk t st flags c = (Ok st', c')" and "rstate st \<noteq> Finished"
  shows "rstate st \<le> rstate st'"
  using assms
  by (cases c)
    (auto simp: recv_part_def recv_size_part_def recv_msg_part_def less_eq_state_type_def phase_def cmd_simps Let_def
      split: state_type.splits if_splits prod.splits res.splits option.splits)

subsection \<open>The contract of an incremental decoder\<close>

text \<open>
  A decoder consumes a stream in pieces no longer than what it asks for (\<open>want\<close>). \<open>seen\<close> is the
  stream it has consumed for the current frame; a finished decoder has seen exactly one frame, and no
  frame is a prefix of another.
\<close>

locale chunk_decoder =
  fixes feed :: "'st \<Rightarrow> 'b list \<Rightarrow> 'st"
    and want :: "'st \<Rightarrow> nat"
    and finished :: "'st \<Rightarrow> bool"
    and seen :: "'st \<Rightarrow> 'b list"
    and okay :: "'st \<Rightarrow> bool"
    and frame :: "'b list \<Rightarrow> bool"
  assumes feed_okay: "okay st \<Longrightarrow> \<not> finished st \<Longrightarrow> length c \<le> want st \<Longrightarrow> okay (feed st c)"
    and feed_seen: "okay st \<Longrightarrow> \<not> finished st \<Longrightarrow> length c \<le> want st \<Longrightarrow> seen (feed st c) = seen st @ c"
    and finished_frame: "okay st \<Longrightarrow> finished st \<Longrightarrow> frame (seen st)"
    and zero_want: "okay st \<Longrightarrow> \<not> finished st \<Longrightarrow> want st = 0 \<Longrightarrow> finished (feed st [])"
    and want_more: "okay st \<Longrightarrow> \<not> finished st \<Longrightarrow> 0 < want st \<Longrightarrow> frame F \<Longrightarrow> seen st @ u = F @ v
          \<Longrightarrow> length (seen st) < length F"
    and prefix_free: "frame x \<Longrightarrow> frame y \<Longrightarrow> x @ u = y @ v \<Longrightarrow> x = y"
begin

lemma finished_unique:
  "okay st \<Longrightarrow> finished st \<Longrightarrow> frame F \<Longrightarrow> seen st @ u = F @ v \<Longrightarrow> seen st = F \<and> u = v"
  using prefix_free [OF finished_frame] by blast

definition work :: "'b list \<Rightarrow> 'st \<Rightarrow> nat" where
  "work F st = (if finished st then 0 else Suc (length F - length (seen st)))"

lemma work_0: "work F st = 0 \<Longrightarrow> finished st"
  by (simp add: work_def split: if_splits)

lemma feed_work:
  assumes "okay st" "\<not> finished st" "length c \<le> want st" "want st = 0 \<or> c \<noteq> []"
    and "frame F" "seen st @ c @ u = F @ v"
  shows "work F (feed st c) < work F st"
proof (cases "want st = 0")
  case True
  with assms zero_want show ?thesis by (auto simp: work_def)
next
  case False
  with assms want_more have "length (seen st) < length F" by blast
  with assms False show ?thesis by (cases c) (auto simp: work_def feed_seen)
qed

end

subsection \<open>The decoder behind the receive state\<close>

text \<open>
  The reference decoder: the value of the first bytes of a big-endian length, what a receive state
  and its buffer have consumed, ask for, and become when the bytes \<open>c\<close> arrive. \<open>rs_okay\<close> is the
  invariant of the states that \<^verbatim>\<open>recv_part\<close> returns.
\<close>

definition size_of_bytes :: "byte list \<Rightarrow> size_t" where
  "size_of_bytes bs = (case bs of [] \<Rightarrow> 0 | b # bs' \<Rightarrow> 
     (case bs' of [] \<Rightarrow> push_bit 8 (ucast b) | c # _ \<Rightarrow> push_bit 8 (ucast b) OR ucast c))"

definition rs_seen :: "receive_state \<times> byte list \<Rightarrow> byte list" where
  "rs_seen = (\<lambda>(st, buf). case rstate st of
      Receiving_msg_size \<Rightarrow> take (unat (bytes_received st)) (be16 (ucast (msg_size st)))
    | Receiving_msg \<Rightarrow> be16 (ucast (msg_size st)) @ take (unat (bytes_received st)) buf
    | Finished \<Rightarrow> be16 (ucast (msg_size st)) @ buf)"

definition rs_want :: "receive_state \<times> byte list \<Rightarrow> nat" where
  "rs_want = (\<lambda>(st, buf). case rstate st of
      Receiving_msg_size \<Rightarrow> 2 - unat (bytes_received st)
    | Receiving_msg \<Rightarrow> unat (msg_size st) - unat (bytes_received st)
    | Finished \<Rightarrow> 0)"

definition rs_okay :: "receive_state \<times> byte list \<Rightarrow> bool" where
  "rs_okay = (\<lambda>(st, buf). unat (msg_size st) < 65536 \<and> (case rstate st of
      Receiving_msg_size \<Rightarrow>
        bytes_received st = 0 \<and> msg_size st = 0 \<or> bytes_received st = 1 \<and> 256 dvd unat (msg_size st)
    | Receiving_msg \<Rightarrow>
        bytes_received st = 0 \<or> bytes_received st < msg_size st \<and> length buf = unat (msg_size st)
    | Finished \<Rightarrow> bytes_received st = msg_size st \<and> length buf = unat (msg_size st)))"

definition rs_finished :: "receive_state \<times> byte list \<Rightarrow> bool" where
  "rs_finished = (\<lambda>(st, buf). rstate st = Finished)"

definition size_state :: "byte list \<Rightarrow> receive_state" where
  "size_state bs =
     (if length bs = 2 then \<lparr>msg_size = size_of_bytes bs, bytes_received = 0, rstate = Receiving_msg\<rparr>
      else \<lparr>msg_size = size_of_bytes bs, bytes_received = of_nat (length bs), rstate = Receiving_msg_size\<rparr>)"

definition rs_feed :: "receive_state \<times> byte list \<Rightarrow> byte list \<Rightarrow> receive_state \<times> byte list" where
  "rs_feed = (\<lambda>(st, buf) c. case rstate st of
      Receiving_msg \<Rightarrow>
        let got = unat (bytes_received st) + length c; n = unat (msg_size st)
        in (\<lparr>msg_size = msg_size st, bytes_received = of_nat got,
             rstate = (if got = n then Finished else Receiving_msg)\<rparr>,
            std_copy c (unat (bytes_received st)) (vec_resize 0 n buf))
    | _ \<Rightarrow> (size_state (rs_seen (st, buf) @ c), buf))"

text \<open>A frame: a two-byte length and as many bytes.\<close>

definition framed :: "byte list \<Rightarrow> bool" where
  "framed bs \<longleftrightarrow> 2 \<le> length bs \<and> bs = be16 (of_nat (length bs - 2)) @ drop 2 bs \<and> length bs - 2 < 65536"

lemma framed_iff: "framed bs \<longleftrightarrow> (\<exists>p. length p < 65536 \<and> bs = be16 (of_nat (length p)) @ p)"
  by (auto simp: framed_def intro: exI [of _ "drop 2 bs"])

lemma framedI: "n = length p \<Longrightarrow> n < 65536 \<Longrightarrow> framed (be16 (of_nat n) @ p)"
  by (auto simp: framed_iff)

lemma be16_inject: "be16 v = be16 w \<longleftrightarrow> v = w"
  using be16_value [of v] be16_value [of w] by (auto intro: word_unat_eq_iff [THEN iffD2])

lemma of_nat_inject16: "m < 65536 \<Longrightarrow> n < 65536 \<Longrightarrow> (of_nat m :: uint16) = of_nat n \<longleftrightarrow> m = n"
  by (simp add: word_unat_eq_iff unsigned_of_nat take_bit_eq_mod)

lemma framed_prefix_free: "framed x \<Longrightarrow> framed y \<Longrightarrow> x @ u = y @ v \<Longrightarrow> x = y"
  by (auto simp: framed_iff be16_inject of_nat_inject16)

lemma not_bit_byte: "8 \<le> n \<Longrightarrow> \<not> bit (b :: byte) n"
  by (auto dest: bit_imp_le_length)

lemma be16_size_of_bytes:
  "length bs \<le> 2 \<Longrightarrow> take (length bs) (be16 (ucast (size_of_bytes bs))) = bs"
  by (cases bs rule: list.exhaust [case_names Nil C]; simp add: size_of_bytes_def split: list.splits)
   (auto simp: be16_def bit_simps not_bit_byte intro!: bit_word_eqI)

lemma size_of_bytes_bound: "length bs \<le> 2 \<Longrightarrow> unat (size_of_bytes bs) < 65536"
 using unat_bound8 [of "hd bs"] unat_bound8 [of "hd (tl bs)"]
  by (auto simp: size_of_bytes_def unat_high unat_high_low split: list.splits)


lemma size_of_bytes_single: "256 dvd unat (size_of_bytes [b])"
  by (simp add: size_of_bytes_def unat_high)

lemma length_rs_seen_size:
  "rs_okay (st, buf) \<Longrightarrow> rstate st = Receiving_msg_size \<Longrightarrow>
     length (rs_seen (st, buf)) = unat (bytes_received st) \<and> unat (bytes_received st) \<le> 1"
  by (auto simp: rs_okay_def rs_seen_def)

lemma size_state_cases:
  assumes "length bs \<le> 2"
  obtains "bs = []" | b where "bs = [b]" | b c where "bs = [b, c]"
  using assms by (cases bs rule: remdups_adj.cases) auto

lemma size_state_okay:
  assumes "length bs \<le> 2"
  shows "rs_okay (size_state bs, buf)"
  using assms size_of_bytes_bound [OF assms] size_of_bytes_single
  by (cases rule: size_state_cases) (simp_all add: size_state_def rs_okay_def size_of_bytes_def [of "[]"])

lemma size_state_seen:
  assumes "length bs \<le> 2"
  shows "rs_seen (size_state bs, buf) = bs"
  using assms be16_size_of_bytes [OF assms]
  by (cases rule: size_state_cases) (simp_all add: size_state_def rs_seen_def)

lemma size_feed_okay:
  assumes "rs_okay (st, buf)" "rstate st = Receiving_msg_size" "length c \<le> rs_want (st, buf)"
  shows "rs_okay (rs_feed (st, buf) c)" "rs_seen (rs_feed (st, buf) c) = rs_seen (st, buf) @ c"
proof -
  let ?bs = "rs_seen (st, buf) @ c"
  have "length ?bs \<le> 2" using assms length_rs_seen_size [of st buf] by (auto simp: rs_want_def)
  moreover have "rs_feed (st, buf) c = (size_state ?bs, buf)"
    using assms by (simp add: rs_feed_def)
  ultimately show "rs_okay (rs_feed (st, buf) c)" "rs_seen (rs_feed (st, buf) c) = ?bs"
    using size_state_okay size_state_seen by metis+
qed

lemma msg_feed_okay:
  assumes "rs_okay (st, buf)" "rstate st = Receiving_msg" "length c \<le> rs_want (st, buf)"
  shows "rs_okay (rs_feed (st, buf) c)" "rs_seen (rs_feed (st, buf) c) = rs_seen (st, buf) @ c"
proof -
  let ?n = "unat (msg_size st)" and ?i = "unat (bytes_received st)"
  have n: "?n < 65536" "?i + length c \<le> ?n" and buf: "?i = 0 \<or> length buf = ?n"
    using assms by (auto simp: rs_okay_def rs_want_def word_less_nat_alt)
  have i': "unat (of_nat (?i + length c) :: size_t) = ?i + length c"
    using n by (simp add: unsigned_of_nat take_bit_eq_mod del: of_nat_add)
  have len: "length (std_copy c ?i (vec_resize 0 ?n buf)) = ?n"
    using n by (simp add: length_std_copy)
  have tk: "take (?i + length c) (std_copy c ?i (vec_resize 0 ?n buf)) = take ?i buf @ c"
    using n buf by (auto simp: std_copy_def)
  have feed: "rs_feed (st, buf) c = (\<lparr>msg_size = msg_size st, bytes_received = of_nat (?i + length c),
       rstate = (if ?i + length c = ?n then Finished else Receiving_msg)\<rparr>,
       std_copy c ?i (vec_resize 0 ?n buf))"
    using assms by (simp add: rs_feed_def Let_def)
  show "rs_okay (rs_feed (st, buf) c)"
    unfolding feed using n len i'
    by (auto simp: rs_okay_def word_less_nat_alt word_unat_eq_iff simp del: of_nat_add)
  show "rs_seen (rs_feed (st, buf) c) = rs_seen (st, buf) @ c"
    unfolding feed using assms(2) tk len i'
    by (auto simp: rs_seen_def simp del: of_nat_add)
qed

lemma rs_unfinished: "\<not> rs_finished (st, buf) \<Longrightarrow> rstate st = Receiving_msg_size \<or> rstate st = Receiving_msg"
  by (cases "rstate st") (auto simp: rs_finished_def)

lemma ucast16_of_size:
  "n = unat (m :: size_t) \<Longrightarrow> n < 65536 \<Longrightarrow> (ucast m :: uint16) = of_nat n"
  by (simp add: word_unat_eq_iff unsigned_of_nat unsigned_ucast_eq take_bit_eq_mod)

interpretation frame: chunk_decoder rs_feed rs_want rs_finished rs_seen rs_okay framed
proof (unfold_locales, goal_cases)
  case (1 st c)
  then show ?case by (cases st) (use rs_unfinished size_feed_okay(1) msg_feed_okay(1) in blast)
next
  case (2 st c)
  then show ?case by (cases st) (use rs_unfinished size_feed_okay(2) msg_feed_okay(2) in blast)
next
  case (3 st)
  obtain s buf where st: "st = (s, buf)" by (cases st)
  with 3 have s: "rstate s = Finished" and len: "length buf = unat (msg_size s)" "length buf < 65536"
    by (auto simp: rs_finished_def rs_okay_def)
  then have "be16 (ucast (msg_size s)) = be16 (of_nat (length buf))"
    by (simp only: ucast16_of_size)
  with st s framedI [OF refl len(2)] show ?case by (simp add: rs_seen_def)
next
  case (4 st)
  obtain s buf where st: "st = (s, buf)" by (cases st)
  with 4 rs_unfinished consider "rstate s = Receiving_msg_size" | "rstate s = Receiving_msg" by blast
  then show ?case
  proof cases
    case 1
    with 4 st show ?thesis using length_rs_seen_size [of s buf] by (simp add: rs_want_def)
  next
    case 2
    with 4 st show ?thesis
      by (auto simp: rs_want_def rs_finished_def rs_okay_def rs_feed_def word_less_nat_alt Let_def)
  qed
next
  case (5 st F u v)
  obtain s buf where st: "st = (s, buf)" by (cases st)
  from 5 obtain p where p: "length p < 65536" "F = be16 (of_nat (length p)) @ p" by (auto simp: framed_iff)
  from 5(2) st rs_unfinished consider "rstate s = Receiving_msg_size" | "rstate s = Receiving_msg" by blast
  then show ?case
  proof cases
    case 1
    with 5(1) st p show ?thesis using length_rs_seen_size [of s buf] by auto
  next
    case 2
    with 5 st p have "be16 (ucast (msg_size s)) = be16 (of_nat (length p))"
      and m: "unat (msg_size s) < 65536" and b: "bytes_received s = 0 \<or> length buf = unat (msg_size s)"
      and "unat (bytes_received s) < unat (msg_size s)"
      by (auto simp: rs_okay_def rs_seen_def rs_want_def)
    then have "unat (msg_size s) = length p"
      using ucast16_of_size [OF refl m] of_nat_inject16 [OF m p(1)] by (simp only: be16_inject)
    with 2 5 st p b show ?thesis by (auto simp: rs_seen_def rs_want_def)
  qed
next
  case (6 x y u v)
  then show ?case by (rule framed_prefix_free)
qed

subsection \<open>The receive functions refine the decoder\<close>

text \<open>
  What \<^verbatim>\<open>recv\<close> of a stream socket promises: it fails and leaves the stream alone,
  or it takes at most \<open>len\<close> bytes, and at most what an \<^verbatim>\<open>int\<close> can count, off the
  front of the stream \<open>q\<close>.
\<close>

definition stream_law :: "('w, 'x) net_calls_scheme \<Rightarrow> int \<Rightarrow> ('w \<Rightarrow> byte list) \<Rightarrow> bool" where
  "stream_law K sd q \<longleftrightarrow> (\<forall>len flags s r bytes s'. sys_recv K sd len flags s = ((r, bytes), s') \<longrightarrow>
     r = - 1 \<and> bytes = [] \<and> q (world s') = q (world s) \<or>
     0 \<le> r \<and> r < 2 ^ 31 \<and> nat r \<le> unat len \<and> length bytes = nat r \<and> q (world s) = bytes @ q (world s'))"

lemma stream_lawE:
  assumes "stream_law K sd q" "sys_recv K sd len flags s = ((r, bytes), s')"
  obtains (err) "r = - 1" "bytes = []" "q (world s') = q (world s)"
  | (got) "r = int (length bytes)" "length bytes < 2 ^ 31" "length bytes \<le> unat len" "q (world s) = bytes @ q (world s')"
proof -
  from assms have "r = - 1 \<and> bytes = [] \<and> q (world s') = q (world s) \<or>
     0 \<le> r \<and> r < 2 ^ 31 \<and> nat r \<le> unat len \<and> length bytes = nat r \<and> q (world s) = bytes @ q (world s')"
    unfolding stream_law_def by blast
  then show thesis
  proof (elim disjE conjE)
    assume r: "0 \<le> r" "r < 2 ^ 31" "nat r \<le> unat len" "length bytes = nat r"
      and q: "q (world s) = bytes @ q (world s')"
    then show thesis by (intro got) auto
  qed (rule err)
qed

lemma tds_net_recv:
  assumes "stream_law K (tds_descriptor t) q" "sys_recv K (tds_descriptor t) len flags s = ((r, bytes), s')"
  shows "tcp_recv K (tds_socket t) len flags s =
     (if r = - 1 then (Throw (System_error (errno s') ''recv failed''), s')
      else (Ok (of_nat (length bytes), bytes), s'))"
  using assms
proof (cases rule: stream_lawE)
  case got
  then show ?thesis using assms(2)
    by (simp add: tcp_recv_def net_recv_def cmd_simps Let_def to_size_def tds_descriptor_def)
qed (use assms(2) in \<open>simp add: tcp_recv_def net_recv_def cmd_simps Let_def tds_descriptor_def\<close>)

lemma msg_size_seen:
  assumes "rs_okay (st, buf)" "rstate st = Receiving_msg_size"
  shows "msg_size st = size_of_bytes (rs_seen (st, buf))"
proof (cases "bytes_received st = 0")
  case True
  with assms show ?thesis by (auto simp: rs_okay_def rs_seen_def size_of_bytes_def)
next
  case False
  with assms have one: "bytes_received st = 1" and m: "256 dvd unat (msg_size st)" "unat (msg_size st) < 65536"
    by (auto simp: rs_okay_def)
  then have "unat (ucast (drop_bit 8 (ucast (msg_size st) :: uint16)) :: byte) = unat (msg_size st) div 256"
    by (simp add: drop_bit_eq_div unat_div unsigned_ucast_eq take_bit_eq_mod)
  then have "unat (size_of_bytes (rs_seen (st, buf))) = unat (msg_size st)"
    using assms one m by (simp add: rs_seen_def be16_def size_of_bytes_def unat_high)
  then show ?thesis by (simp add: word_unat_eq_iff)
qed

lemma merge_size_bytes:
  assumes "length junk = 2" "length old + length c \<le> 2"
  shows "merge_size (std_copy c (length old) junk) (length old) (length old + length c) (size_of_bytes old)
      = Some (size_of_bytes (old @ c))"
proof -
  obtain j k where j: "junk = [j, k]" using assms(1) by (auto simp: length_Suc_conv numeral_2_eq_2)
  show ?thesis
    using assms(2) unfolding j
    by (cases old rule: remdups_adj.cases; cases c rule: remdups_adj.cases)
      (auto simp: merge_size.simps size_of_bytes_def std_copy_def)
qed

lemma want_size:
  assumes "rs_okay (st, buf)" "rstate st = Receiving_msg_size"
  shows "2 - bytes_received st = of_nat (rs_want (st, buf))" "unat (bytes_received st) = length (rs_seen (st, buf))"
    "rs_want (st, buf) + length (rs_seen (st, buf)) = 2" "bytes_received st = of_nat (length (rs_seen (st, buf)))"
  using assms by (auto simp: rs_okay_def rs_want_def rs_seen_def)

lemma unat_of_nat_size: "n < 2 ^ 64 \<Longrightarrow> unat (of_nat n :: size_t) = n"
  by (simp add: unsigned_of_nat take_bit_eq_mod)

lemma recv_size_part_feed:
  assumes law: "stream_law K (tds_descriptor t) q" and ok: "rs_okay (st, buf)" "rstate st = Receiving_msg_size"
    and junk: "length junk = 2"
    and run: "sys_recv K (tds_descriptor t) (of_nat (rs_want (st, buf))) (flags OR MSG_DONTWAIT) s = ((r, c), s')"
    and c: "r \<noteq> - 1" "length c \<le> rs_want (st, buf)"
  shows "recv_size_part K junk t st flags s = (Ok (size_state (rs_seen (st, buf) @ c)), s')"
proof -
  let ?old = "rs_seen (st, buf)"
  note w = want_size [OF ok]
  have le: "length ?old + length c \<le> 2" using w c by simp
  have rcv: "bytes_received st + of_nat (length c) = of_nat (length ?old + length c)"
    using w(4) by simp
  have u: "unat (of_nat (length ?old + length c) :: size_t) = length ?old + length c"
    using le by (intro unat_of_nat_size) simp
  have two: "(of_nat (length ?old + length c) :: size_t) \<noteq> 2 \<longleftrightarrow> length ?old + length c \<noteq> 2"
    using u by (simp add: word_unat_eq_iff del: of_nat_add)
  have upd: "st\<lparr>msg_size := a, bytes_received := b\<rparr>
      = \<lparr>msg_size = a, bytes_received = b, rstate = Receiving_msg_size\<rparr>" for a b
    using ok(2) by (cases st) simp
  show ?thesis
    using tds_net_recv [OF law run] c w(1-3) merge_size_bytes [OF junk le] le msg_size_seen [OF ok]
    by (simp add: recv_size_part_def cmd_simps rcv u two upd Let_def size_state_def del: of_nat_add)
qed

lemma recv_msg_part_feed:
  assumes law: "stream_law K (tds_descriptor t) q" and ok: "rs_okay (st, buf)" "rstate st = Receiving_msg"
    and run: "sys_recv K (tds_descriptor t) (of_nat (rs_want (st, buf))) (flags OR MSG_DONTWAIT) s = ((r, c), s')"
    and c: "r \<noteq> - 1" "length c \<le> rs_want (st, buf)"
  shows "recv_msg_part K t st flags (buf, s) =
     (Ok (fst (rs_feed (st, buf) c)), (snd (rs_feed (st, buf) c), s'))"
proof -
  let ?i = "unat (bytes_received st)" and ?n = "unat (msg_size st)"
  have n: "?i \<le> ?n" "?n < 65536" "?i + length c \<le> ?n"
    using ok c by (auto simp: rs_okay_def rs_want_def word_less_nat_alt)
  have w: "msg_size st - bytes_received st = of_nat (rs_want (st, buf))"
    using n ok by (simp add: rs_want_def of_nat_diff)
  have rcv: "bytes_received st + of_nat (length c) = of_nat (?i + length c)" by simp
  have fin: "(of_nat (?i + length c) :: size_t) = msg_size st \<longleftrightarrow> ?i + length c = ?n"
    using n by (simp add: word_unat_eq_iff unat_of_nat_size del: of_nat_add)
  show ?thesis
    using tds_net_recv [OF law run] c n ok
    by (simp add: recv_msg_part_def cmd_simps w rcv fin word_less_nat_alt Let_def rs_feed_def del: of_nat_add)
qed

text \<open>What a failed call does to the caller's buffer: the resize has happened.\<close>

definition resized :: "receive_state \<Rightarrow> byte list \<Rightarrow> byte list" where
  "resized st buf = (if rstate st = Receiving_msg then vec_resize 0 (unat (msg_size st)) buf else buf)"

lemma resized_same [simp]:
  assumes "rs_okay (st, buf)"
  shows "rs_okay (st, resized st buf)" "rs_seen (st, resized st buf) = rs_seen (st, buf)"
    "rs_want (st, resized st buf) = rs_want (st, buf)"
  using assms by (auto simp: rs_okay_def rs_seen_def rs_want_def resized_def split: state_type.splits)

lemma recv_part_step:
  assumes law: "stream_law K (tds_descriptor t) q" and ok: "rs_okay (st, buf)" "rstate st \<noteq> Finished"
    and junk: "length junk = 2"
  obtains (failed) e s' where "recv_part K junk t st flags (buf, s) = (Throw e, (resized st buf, s'))"
      "q (world s') = q (world s)" "fst (fst (sys_recv K (tds_descriptor t) (of_nat (rs_want (st, buf))) (flags OR MSG_DONTWAIT) s)) = - 1"
  | (took) c s' where "recv_part K junk t st flags (buf, s)
        = (Ok (fst (rs_feed (st, buf) c)), (snd (rs_feed (st, buf) c), s'))"
      "length c \<le> rs_want (st, buf)" "q (world s) = c @ q (world s')"
      "c = snd (fst (sys_recv K (tds_descriptor t) (of_nat (rs_want (st, buf))) (flags OR MSG_DONTWAIT) s))"
proof -
  obtain r c s' where run:
    "sys_recv K (tds_descriptor t) (of_nat (rs_want (st, buf))) (flags OR MSG_DONTWAIT) s = ((r, c), s')"
    by (metis prod.exhaust)
  have "rs_want (st, buf) < 2 ^ 64"
    using ok(1) unat_bound64 [of "msg_size st"] by (auto simp: rs_want_def split: state_type.splits)
  then have w: "unat (of_nat (rs_want (st, buf)) :: size_t) = rs_want (st, buf)" by (rule unat_of_nat_size)
  from law run show thesis
  proof (cases rule: stream_lawE)
    case err
    have "recv_part K junk t st flags (buf, s) = (Throw (System_error (errno s') ''recv failed''), (resized st buf, s'))"
    proof (cases "rstate st")
      case Receiving_msg_size
      with want_size(1-3) [OF ok(1)] tds_net_recv [OF law run] err show ?thesis
        by (simp add: recv_part_def recv_size_part_def resized_def cmd_simps)
    next
      case Receiving_msg
      then have "msg_size st - bytes_received st = of_nat (rs_want (st, buf))" "\<not> msg_size st < bytes_received st"
        using ok by (auto simp: rs_want_def rs_okay_def word_less_nat_alt of_nat_diff)
      with Receiving_msg tds_net_recv [OF law run] err show ?thesis
        by (simp add: recv_part_def recv_msg_part_def resized_def cmd_simps)
    qed (use ok in simp)
    with err run show ?thesis using failed by auto
  next
    case got
    then have "r \<noteq> - 1" "length c \<le> rs_want (st, buf)" using w by auto
    then have "recv_part K junk t st flags (buf, s) = (Ok (fst (rs_feed (st, buf) c)), (snd (rs_feed (st, buf) c), s'))"
      using ok recv_size_part_feed [OF law ok(1) _ junk run] recv_msg_part_feed [OF law ok(1) _ run]
      by (cases "rstate st") (auto simp: recv_part_def cmd_simps rs_feed_def)
    with got run \<open>length c \<le> rs_want (st, buf)\<close> show ?thesis using took by auto
  qed
qed

subsection \<open>A client that polls\<close>

text \<open>
  The loop around \<^verbatim>\<open>recv_part\<close>: at most \<open>n\<close> calls, until the state is finished; a
  call that throws (\<^verbatim>\<open>EAGAIN\<close> or any other error) is tried again with the same state.
\<close>

fun poll_parts ::
  "('w, 'x) net_calls_scheme \<Rightarrow> byte list \<Rightarrow> tcp_datagram_socket \<Rightarrow> int \<Rightarrow> nat \<Rightarrow> receive_state
    \<Rightarrow> (byte list \<times> 'w sys, receive_state) cmd" where
  "poll_parts K junk t flags 0 st = ret_c st"
| "poll_parts K junk t flags (Suc n) st =
     (if rstate st = Finished then ret_c st
      else bind_c (catch_c (recv_part K junk t st flags) (\<lambda>e. ret_c st)) (poll_parts K junk t flags n))"

lemma poll_parts_inv:
  assumes law: "stream_law K (tds_descriptor t) q" and junk: "length junk = 2"
  shows "rs_okay (st, buf) \<Longrightarrow> \<exists>st' buf' s'. poll_parts K junk t flags n st (buf, s) = (Ok st', (buf', s'))
     \<and> rs_okay (st', buf') \<and> rs_seen (st', buf') @ q (world s') = rs_seen (st, buf) @ q (world s)"
proof (induction n arbitrary: st buf s)
  case (Suc n)
  show ?case
  proof (cases "rstate st = Finished")
    case False
    from law Suc.prems False junk show ?thesis
    proof (cases rule: recv_part_step [where flags = flags and s = s])
      case (failed e s')
      with Suc.IH [of st "resized st buf" s'] Suc.prems False show ?thesis
        by (simp add: cmd_simps)
    next
      case (took c s')
      have "\<not> rs_finished (st, buf)" using False by (simp add: rs_finished_def)
      with took Suc.prems have "rs_okay (rs_feed (st, buf) c)" "rs_seen (rs_feed (st, buf) c) = rs_seen (st, buf) @ c"
        by (auto intro: frame.feed_okay frame.feed_seen)
      with took False Suc.IH [of "fst (rs_feed (st, buf) c)" "snd (rs_feed (st, buf) c)" s'] show ?thesis
        by (simp add: cmd_simps)
    qed
  qed (use Suc.prems in \<open>simp add: cmd_simps\<close>)
qed (simp add: cmd_simps)

text \<open>
  A socket with data does not fail: with a byte in the stream (or nothing asked for) a call succeeds,
  and takes at least one byte if any was asked for.
\<close>

definition prompt_law :: "('w, 'x) net_calls_scheme \<Rightarrow> int \<Rightarrow> ('w \<Rightarrow> byte list) \<Rightarrow> bool" where
  "prompt_law K sd q \<longleftrightarrow> (\<forall>len flags s r bytes s'. sys_recv K sd len flags s = ((r, bytes), s') \<longrightarrow>
     (len = 0 \<or> q (world s) \<noteq> []) \<longrightarrow> r \<noteq> - 1 \<and> (len = 0 \<or> bytes \<noteq> []))"

lemma poll_parts_done:
  assumes law: "stream_law K (tds_descriptor t) q" "prompt_law K (tds_descriptor t) q" and junk: "length junk = 2"
    and F: "framed F"
  shows "rs_okay (st, buf) \<Longrightarrow> rs_seen (st, buf) @ q (world s) = F @ rest \<Longrightarrow> frame.work F (st, buf) \<le> n \<Longrightarrow>
     \<exists>st' buf' s'. poll_parts K junk t flags n st (buf, s) = (Ok st', (buf', s')) \<and> rstate st' = Finished"
proof (induction n arbitrary: st buf s)
  case 0
  then have "rs_finished (st, buf)" by (intro frame.work_0 [of F]) simp
  then show ?case by (simp add: rs_finished_def cmd_simps)
next
  case (Suc n)
  let ?w = "of_nat (rs_want (st, buf)) :: size_t"
  show ?case
  proof (cases "rstate st = Finished")
    case False
    then have nf: "\<not> rs_finished (st, buf)" by (simp add: rs_finished_def)
    have w: "?w = 0 \<longleftrightarrow> rs_want (st, buf) = 0"
      using Suc.prems(1) unat_bound64 [of "msg_size st"] unat_of_nat_size [of "rs_want (st, buf)"]
      by (auto simp: rs_want_def word_unat_eq_iff split: state_type.splits)
    have ready: "?w = 0 \<or> q (world s) \<noteq> []"
      using frame.want_more [OF Suc.prems(1) nf _ F Suc.prems(2)] w Suc.prems(2)
      by (auto dest: arg_cong [of _ _ length])
    from law(1) Suc.prems(1) False junk show ?thesis
    proof (cases rule: recv_part_step [where flags = flags and s = s])
      case (failed e s')
      with law(2) ready show ?thesis unfolding prompt_law_def by (metis prod.collapse)
    next
      case (took c s')
      have "rs_want (st, buf) = 0 \<or> c \<noteq> []"
        using law(2) ready took(4) w unfolding prompt_law_def by (metis prod.collapse)
      then have "frame.work F (rs_feed (st, buf) c) < frame.work F (st, buf)"
        using Suc.prems took nf F by (intro frame.feed_work [where u = "q (world s')" and v = rest]) auto
      moreover have "rs_okay (rs_feed (st, buf) c)" "rs_seen (rs_feed (st, buf) c) = rs_seen (st, buf) @ c"
        using nf took Suc.prems by (auto intro: frame.feed_okay frame.feed_seen)
      ultimately show ?thesis
        using took False Suc.prems Suc.IH [of "fst (rs_feed (st, buf) c)" "snd (rs_feed (st, buf) c)" s']
        by (simp add: cmd_simps)
    qed
  qed (use Suc.prems in \<open>simp add: cmd_simps\<close>)
qed


subsection \<open>Blocking receive and the FIFO\<close>

text \<open>
  With \<^verbatim>\<open>MSG_WAITALL\<close> and enough data, and no signal, \<^verbatim>\<open>recv\<close> takes all that was
  asked for; \<^verbatim>\<open>sendmsg\<close> on a blocking stream socket fails or appends all the bytes of
  its buffers.
\<close>

definition waitall_law :: "('w, 'x) net_calls_scheme \<Rightarrow> int \<Rightarrow> ('w \<Rightarrow> byte list) \<Rightarrow> bool" where
  "waitall_law K sd q \<longleftrightarrow> (\<forall>len flags s r bytes s'. sys_recv K sd len flags s = ((r, bytes), s') \<longrightarrow>
     flags AND MSG_WAITALL \<noteq> 0 \<longrightarrow> unat len < 2 ^ 31 \<longrightarrow> unat len \<le> length (q (world s)) \<longrightarrow> r = uint len)"

definition send_law :: "('w, 'x) net_calls_scheme \<Rightarrow> int \<Rightarrow> ('w \<Rightarrow> byte list) \<Rightarrow> bool" where
  "send_law K sd q \<longleftrightarrow> (\<forall>hdr flags s r s'. sys_sendmsg K sd hdr flags s = (r, s') \<longrightarrow> mem s' = mem s \<and>
     (r = - 1 \<and> q (world s') = q (world s) \<or>
      r = int (length (gather (mem s) (msg_iov hdr))) \<and>
      q (world s') = q (world s) @ gather (mem s) (msg_iov hdr)))"

lemma load16_be16: "ntohs le (load16 le (be16 w ! 0) (be16 w ! Suc 0)) = w"
  unfolding ntohs_load16
  by (rule bit_word_eqI) (auto simp: be16_def bit_simps)

lemma waitall_flag: "(MSG_WAITALL OR flags) AND MSG_WAITALL \<noteq> 0" "MSG_WAITALL AND MSG_WAITALL \<noteq> 0"
proof -
  have "bit ((MSG_WAITALL OR flags) AND MSG_WAITALL) 8"
    by (simp add: bit_and_iff bit_or_iff MSG_WAITALL_def bit_numeral_rec)
  then show "(MSG_WAITALL OR flags) AND MSG_WAITALL \<noteq> 0" by auto
qed (simp add: MSG_WAITALL_def)

lemma waitall_takes:
  assumes "stream_law K sd q" "waitall_law K sd q" "flags AND MSG_WAITALL \<noteq> 0"
    and "q (world s) = p @ rest" "length p = unat len" "length p < 2 ^ 31"
  shows "\<exists>s'. sys_recv K sd len flags s = ((int (length p), p), s') \<and> q (world s') = rest"
proof -
  obtain r c s' where run: "sys_recv K sd len flags s = ((r, c), s')" by (metis prod.exhaust)
  with assms have "r = uint len" unfolding waitall_law_def by (metis length_append le_add1)
  then have "r = int (length p)" using assms(5) by simp
  from assms(1) run show ?thesis
  proof (cases rule: stream_lawE)
    case got
    with \<open>r = int (length p)\<close> assms(4) run show ?thesis by auto
  qed (use \<open>r = int (length p)\<close> in simp)
qed

lemma tds_recv_frame:
  assumes law: "stream_law K (tds_descriptor t) q" "waitall_law K (tds_descriptor t) q"
    and q: "q (world s) = be16 (of_nat (length p)) @ p @ rest" and len: "length p < 65536"
  shows "\<exists>s'. tds_recv K le t flags (buf, s) = (Ok (of_nat (length p)), (p, s')) \<and> q (world s') = rest"
proof -
  from waitall_takes [OF law waitall_flag(2) q, of 2] obtain s1 where
    s1: "sys_recv K (tds_descriptor t) 2 MSG_WAITALL s = ((2, be16 (of_nat (length p))), s1)" "q (world s1) = p @ rest"
    by auto
  have u: "unat (of_nat (length p) :: uint16) = length p" "unat (of_nat (length p) :: size_t) = length p"
    using len by (simp_all add: unsigned_of_nat take_bit_eq_mod)
  from waitall_takes [OF law waitall_flag(1) s1(2), of "of_nat (length p)" flags] len u obtain s2 where
    s2: "sys_recv K (tds_descriptor t) (of_nat (length p)) (MSG_WAITALL OR flags) s1 = ((int (length p), p), s2)" "q (world s2) = rest"
    by auto
  have c: "(ucast (of_nat (length p) :: uint16) :: size_t) = of_nat (length p)"
    using u by (simp add: word_unat_eq_iff unsigned_ucast_eq take_bit_eq_mod unsigned_of_nat)
  have hd: "std_copy (be16 w) 0 [0, 0] = be16 w" for w by (simp add: std_copy_def)
  have all: "length p = length xs \<Longrightarrow> std_copy p 0 xs = p" for xs by (simp add: std_copy_def)
  from tds_net_recv [OF law(1) s1(1)] tds_net_recv [OF law(1) s2(1)] s2(2) show ?thesis
    by (simp add: tds_recv_def cmd_simps Let_def hd load16_be16 u c all)
qed

lemma tds_send_buf_appends:
  assumes "send_law K (tds_descriptor t) q" and clear: "clear_of self [\<lparr>iov_base = p, iov_len = ucast len\<rparr>]"
    and "tds_send_buf K be16 2 self t p len flags s = (Ok n, s')"
  shows "q (world s') = q (world s) @ be16 len @ mem_read (mem s) p (unat len)
      \<and> mem s' = mem_write (mem s) self (be16 len)"
proof -
  let ?s = "s\<lparr>mem := mem_write (mem s) self (be16 len)\<rparr>"
  let ?iov = "[\<lparr>iov_base = self, iov_len = 2\<rparr>, \<lparr>iov_base = p, iov_len = ucast len\<rparr>]"
  obtain r s2 where run: "sys_sendmsg K (tds_descriptor t)
      \<lparr>msg_name = None, msg_namelen = 0, msg_iov = ?iov\<rparr> flags ?s = (r, s2)" by (metis prod.exhaust)
  have "r \<noteq> - 1" "s' = s2"
    using assms(3) run
    by (auto simp: tds_send_buf_def cmd_simps lpm_buffer_run lpm_buffer_iovec_def tcp_send_iovec_def
        send_iovec_def send_msghdr_def tds_descriptor_def split: if_splits)
  with assms(1) run have "mem s' = mem ?s" "q (world s') = q (world ?s) @ gather (mem ?s) ?iov"
    unfolding send_law_def by fastforce+
  then show ?thesis using gather_prefixed [OF clear] by (simp add: gather_buffer16)
qed

text \<open>A sequence of sends, a sequence of receives, and the bytes of a sequence of messages.\<close>

fun send_msgs ::
  "('w, 'x) net_calls_scheme \<Rightarrow> 16 nbo \<Rightarrow> size_t \<Rightarrow> addr \<Rightarrow> tcp_datagram_socket \<Rightarrow> int
    \<Rightarrow> (addr \<times> uint16) list \<Rightarrow> ('w sys, unit) cmd" where
  "send_msgs K nbo sizeof_nbo self t flags [] = ret_c ()"
| "send_msgs K nbo sizeof_nbo self t flags ((p, len) # ms) =
     then_c (tds_send_buf K nbo sizeof_nbo self t p len flags)
       (send_msgs K nbo sizeof_nbo self t flags ms)"

fun recv_msgs ::
  "('w, 'x) net_calls_scheme \<Rightarrow> bool \<Rightarrow> tcp_datagram_socket \<Rightarrow> int \<Rightarrow> nat
    \<Rightarrow> (byte list \<times> 'w sys, byte list list) cmd" where
  "recv_msgs K le t flags 0 = ret_c []"
| "recv_msgs K le t flags (Suc n) =
     then_c (tds_recv K le t flags) (bind_c (gets_c fst) (\<lambda>msg.
     bind_c (recv_msgs K le t flags n) (\<lambda>msgs. ret_c (msg # msgs))))"

lemma mem_read_clear:
  "clear_of self [\<lparr>iov_base = p, iov_len = ucast (len :: uint16)\<rparr>] \<Longrightarrow>
     mem_read (mem_write m self (be16 w)) p (unat len) = mem_read m p (unat len)"
  using gather_clear [of self "[\<lparr>iov_base = p, iov_len = ucast len\<rparr>]" m w] by (simp add: gather_buffer16)

definition wire :: "(addr \<Rightarrow> byte) \<Rightarrow> (addr \<times> uint16) list \<Rightarrow> byte list" where
  "wire m ms = concat (map (\<lambda>(p, len). be16 len @ mem_read m p (unat len)) ms)"

lemma send_msgs_wire:
  assumes "send_law K (tds_descriptor t) q"
  shows "\<forall>(p, len)\<in>set ms. clear_of self [\<lparr>iov_base = p, iov_len = ucast len\<rparr>] \<Longrightarrow>
     send_msgs K be16 2 self t flags ms s = (Ok (), s') \<Longrightarrow>
     q (world s') = q (world s) @ wire (mem s) ms"
proof (induction ms arbitrary: s)
  case (Cons m ms)
  obtain p len where m: "m = (p, len)" by (cases m)
  from Cons.prems m obtain n s1 where
    one: "tds_send_buf K be16 2 self t p len flags s = (Ok n, s1)" and
    rest: "send_msgs K be16 2 self t flags ms s1 = (Ok (), s')"
    by (auto simp: cmd_simps split: prod.splits res.splits)
  have "wire (mem s1) ms = wire (mem s) ms"
    using tds_send_buf_appends [OF assms _ one] Cons.prems(1) m
    by (auto simp: wire_def intro!: arg_cong [of _ _ concat] mem_read_clear)
  then show ?case
    using tds_send_buf_appends [OF assms _ one] Cons.IH [OF _ rest] Cons.prems(1) m
    by (simp add: wire_def)
qed (simp add: cmd_simps wire_def)

lemma recv_msgs_wire:
  assumes "stream_law K (tds_descriptor t) q" "waitall_law K (tds_descriptor t) q"
  shows "q (world s) = wire m ms @ rest \<Longrightarrow>
     \<exists>buf' s'. recv_msgs K le t flags (length ms) (buf, s)
        = (Ok (map (\<lambda>(p, len). mem_read m p (unat len)) ms), (buf', s')) \<and> q (world s') = rest"
proof (induction ms arbitrary: s buf)
  case (Cons msg ms)
  obtain p len where msg: "msg = (p, len)" by (cases msg)
  have "q (world s) = be16 (of_nat (length (mem_read m p (unat len)))) @ mem_read m p (unat len) @ wire m ms @ rest"
    using Cons.prems msg by (simp add: wire_def)
  from tds_recv_frame [OF assms this, of le flags buf] unat_bound16 [of len]
  obtain s1 where s1: "tds_recv K le t flags (buf, s) = (Ok (of_nat (unat len)), (mem_read m p (unat len), s1))"
    and q1: "q (world s1) = wire m ms @ rest"
    by auto
  from Cons.IH [OF q1, of "mem_read m p (unat len)"] s1 msg show ?case
    by (auto simp: cmd_simps)
qed (simp add: cmd_simps wire_def)

text \<open>The length that the first two bytes of a stream announce.\<close>

definition announced :: "byte list \<Rightarrow> nat" where
  "announced c = unat (c ! 0) * 256 + unat (c ! 1)"

lemma load16_announced:
  assumes "length c = 2"
  shows "unat (ntohs le (load16 le (c ! 0) (c ! Suc 0))) = announced c"
    "be16 (ntohs le (load16 le (c ! 0) (c ! Suc 0))) = c"
proof -
  obtain a b where c: "c = [a, b]" using assms by (auto simp: length_Suc_conv numeral_2_eq_2)
  show *: "be16 (ntohs le (load16 le (c ! 0) (c ! Suc 0))) = c"
    unfolding ntohs_load16 c
    by (auto simp: be16_def bit_simps not_bit_byte intro!: bit_word_eqI)
  show "unat (ntohs le (load16 le (c ! 0) (c ! Suc 0))) = announced c"
    using be16_value [of "ntohs le (load16 le (c ! 0) (c ! Suc 0))"] unfolding *
    by (simp add: announced_def c)
qed


lemma announced_size:
  assumes "length c = 2"
  shows "unat (of_nat (announced c) :: size_t) = announced c"
    "be16 (ucast (of_nat (announced c) :: size_t)) = c"
proof -
  from load16_announced [OF assms] obtain w :: uint16 where w: "announced c = unat w" "be16 w = c"
    by metis
  have "(ucast (ucast w :: size_t) :: uint16) = w"
    by (rule bit_word_eqI) (simp add: bit_simps)
  with w show "be16 (ucast (of_nat (announced c) :: size_t)) = c" by simp
  show "unat (of_nat (announced c) :: size_t) = announced c"
    using w unat_bound16 [of w] by (intro unat_of_nat_size) simp
qed

lemma tcp_recv_cases:
  assumes "stream_law K (tds_descriptor t) q"
  obtains (err) s' where "tcp_recv K (tds_socket t) len flags s = (Throw (System_error (errno s') ''recv failed''), s')"
      "q (world s') = q (world s)"
  | (got) c s' where "tcp_recv K (tds_socket t) len flags s = (Ok (of_nat (length c), c), s')"
      "length c \<le> unat len" "q (world s) = c @ q (world s')" "unat (of_nat (length c) :: size_t) = length c"
proof -
  obtain r c s' where run: "sys_recv K (tds_descriptor t) len flags s = ((r, c), s')" by (metis prod.exhaust)
  from assms run show thesis
  proof (cases rule: stream_lawE)
    case err
    with tds_net_recv [OF assms run] that(1) show ?thesis by auto
  next
    case got
    then have "unat (of_nat (length c) :: size_t) = length c" by (simp add: unat_of_nat_size)
    with got tds_net_recv [OF assms run] that(2) show ?thesis by auto
  qed
qed

lemma finished_payload:
  assumes "rs_okay (st, buf)" "rstate st = Finished" "length p < 65536"
    and "rs_seen (st, buf) @ u = be16 (of_nat (length p)) @ p @ rest"
  shows "buf = p \<and> u = rest \<and> unat (msg_size st) = length p"
proof -
  have "rs_seen (st, buf) = be16 (of_nat (length p)) @ p \<and> u = rest"
    using frame.finished_unique [OF assms(1) _ framedI [OF refl assms(3)], of u rest] assms(2,4)
    by (simp add: rs_finished_def)
  then show ?thesis using assms(1,2) by (auto simp: rs_seen_def rs_okay_def)
qed

lemma rs_init [simp]: "rs_okay (receive_state_init, buf)" "rs_seen (receive_state_init, buf) = []"
  by (simp_all add: receive_state_init_def rs_okay_def rs_seen_def)

lemma tds_recv_after_length:
  assumes "tcp_recv K (tds_socket t) 2 MSG_WAITALL s = (Ok (2, c), s1)" "length c = 2"
  shows "tds_recv K le t flags (buf, s) =
     (let buf1 = vec_resize 0 (announced c) buf
      in case tcp_recv K (tds_socket t) (of_nat (announced c)) (MSG_WAITALL OR flags) s1 of
           (Ok (ret, d), s2) \<Rightarrow>
             (if ret \<noteq> of_nat (announced c) then Throw (System_error ENODATA ''message truncated'') else Ok ret,
              (std_copy d 0 buf1, s2))
         | (Throw e, s2) \<Rightarrow> (Throw e, (buf1, s2))
         | (Undefined, s2) \<Rightarrow> (Undefined, (buf1, s2))
         | (Terminated, s2) \<Rightarrow> (Terminated, (buf1, s2)))"
proof -
  have cp: "std_copy c 0 [0, 0] = c" using assms(2) by (simp add: std_copy_def)
  have len: "of_nat (length (vec_resize (0::byte) (announced c) buf)) = (of_nat (announced c) :: size_t)"
    by simp
  show ?thesis
    using assms(1) load16_announced(1) [OF assms(2), of le] len
    by (simp add: tds_recv_def cmd_simps Let_def cp del: length_vec_resize split: prod.splits res.splits)
qed

text \<open>
  With \<^verbatim>\<open>MSG_WAITALL\<close> and no signal, \<^verbatim>\<open>recv\<close> fails or takes all that was
  asked for, and less only when the stream ends before: it then takes what is left.
\<close>

definition eof_law :: "('w, 'x) net_calls_scheme \<Rightarrow> int \<Rightarrow> ('w \<Rightarrow> byte list) \<Rightarrow> bool" where
  "eof_law K sd q \<longleftrightarrow> (\<forall>len flags s r bytes s'. sys_recv K sd len flags s = ((r, bytes), s') \<longrightarrow>
     flags AND MSG_WAITALL \<noteq> 0 \<longrightarrow> unat len < 2 ^ 31 \<longrightarrow>
     r = - 1 \<or> r = int (min (unat len) (length (q (world s)))))"

definition complete_frame :: "byte list \<Rightarrow> bool" where
  "complete_frame c \<longleftrightarrow> 2 \<le> length c \<and> 2 + announced c \<le> length c"

lemma tcp_recv_eof:
  assumes "stream_law K (tds_descriptor t) q" "eof_law K (tds_descriptor t) q"
    and "tcp_recv K (tds_socket t) len flags s = (Ok (n, c), s')" "flags AND MSG_WAITALL \<noteq> 0" "unat len < 2 ^ 31"
  shows "length c = min (unat len) (length (q (world s)))"
proof -
  obtain r d s1 where run: "sys_recv K (tds_descriptor t) len flags s = ((r, d), s1)" by (metis prod.exhaust)
  with assms(2,4,5) have "r = - 1 \<or> r = int (min (unat len) (length (q (world s))))"
    unfolding eof_law_def by blast
  with tds_net_recv [OF assms(1) run] assms(3) have "d = c" "r = int (min (unat len) (length (q (world s))))"
    by (auto split: if_splits)
  from assms(1) run show ?thesis
    by (cases rule: stream_lawE) (use \<open>d = c\<close> \<open>r = _\<close> in auto)
qed

lemma tds_recv_stream_outcomes:
  assumes "stream_law K (tds_descriptor t) q"
  shows "case tds_recv K le t flags (buf, s) of
      (Ok n, (buf', s')) \<Rightarrow> q (world s) = be16 (ucast n) @ buf' @ q (world s') \<and> unat n = length buf'
    | (Throw e, (buf', s')) \<Rightarrow> \<exists>c. q (world s) = c @ q (world s') \<and>
        (e = System_error (errno s') ''recv failed''
         \<or> e = System_error ENODATA ''message length truncated'' \<and> length c < 2
         \<or> e = System_error ENODATA ''message truncated'' \<and> 2 \<le> length c \<and> length c < 2 + announced c)
    | _ \<Rightarrow> False"
  using assms
proof (cases rule: tcp_recv_cases [where len = 2 and flags = MSG_WAITALL and s = s])
  case (err s1)
  then show ?thesis by (auto simp: tds_recv_def cmd_simps)
next
  case (got c s1)
  show ?thesis
  proof (cases "length c = 2")
    case False
    then have "(of_nat (length c) :: size_t) \<noteq> 2" using got(4) by auto
    with got False show ?thesis by (auto simp: tds_recv_def cmd_simps)
  next
    case two: True
    with got(1) have "tcp_recv K (tds_socket t) 2 MSG_WAITALL s = (Ok (2, c), s1)" by simp
    note after = tds_recv_after_length [OF this two]
    note u = announced_size [OF two]
    from assms show ?thesis
    proof (cases rule: tcp_recv_cases [where len = "of_nat (announced c)" and flags = "MSG_WAITALL OR flags" and s = s1])
      case (err s2)
      with got two show ?thesis by (auto simp: after)
    next
      case d: (got d s2)
      show ?thesis
      proof (cases "length d = announced c")
        case True
        then have cp: "std_copy d 0 (vec_resize 0 (announced c) buf) = d" by (simp add: std_copy_def)
        with d got True u cp show ?thesis by (simp add: after)
      next
        case False
        then have "length d < announced c" "(of_nat (length d) :: size_t) \<noteq> of_nat (announced c)"
          using d u by (auto simp: word_unat_eq_iff)
        moreover have "announced (c @ d) = announced c" using two by (simp add: announced_def nth_append)
        ultimately show ?thesis
          using d got two by (auto simp: after intro!: exI [of _ "c @ d"])
      qed
    qed
  qed
qed

lemma tds_recv_eof_outcomes:
  assumes "stream_law K (tds_descriptor t) q" "eof_law K (tds_descriptor t) q"
    and run: "tds_recv K le t flags (buf, s) = (Throw e, (buf', s'))"
  shows "e = System_error (errno s') ''recv failed''
     \<or> q (world s') = [] \<and> \<not> complete_frame (q (world s))
       \<and> e = System_error ENODATA (if length (q (world s)) < 2 then ''message length truncated'' else ''message truncated'')"
  using assms(1)
proof (cases rule: tcp_recv_cases [where len = 2 and flags = MSG_WAITALL and s = s])
  case (err s1)
  with run show ?thesis by (auto simp: tds_recv_def cmd_simps)
next
  case (got c s1)
  have c: "length c = min 2 (length (q (world s)))"
    using tcp_recv_eof [OF assms(1,2) got(1) waitall_flag(2)] by simp
  show ?thesis
  proof (cases "length c = 2")
    case False
    then have lt: "length (q (world s)) < 2" using c by simp
    have "length (q (world s)) = length c + length (q (world s1))" by (simp add: got(3))
    then have "q (world s1) = []" using c lt by simp
    moreover have "(of_nat (length c) :: size_t) \<noteq> 2" using False got(4) by auto
    ultimately show ?thesis
      using got(1) run lt by (auto simp: tds_recv_def cmd_simps complete_frame_def)
  next
    case two: True
    with got(1) have "tcp_recv K (tds_socket t) 2 MSG_WAITALL s = (Ok (2, c), s1)" by simp
    note after = tds_recv_after_length [OF this two]
    note u = announced_size [OF two]
    have an: "announced (q (world s)) = announced c" using got(3) two by (simp add: announced_def nth_append)
    from assms(1) show ?thesis
    proof (cases rule: tcp_recv_cases [where len = "of_nat (announced c)" and flags = "MSG_WAITALL OR flags" and s = s1])
      case (err s2)
      with run show ?thesis by (auto simp: after)
    next
      case d: (got d s2)
      have "announced c < 65536" using unat_bound8 [of "c ! 0"] unat_bound8 [of "c ! 1"] by (simp add: announced_def)
      then have l: "length d = min (announced c) (length (q (world s1)))"
        using tcp_recv_eof [OF assms(1,2) d(1) waitall_flag(1)] u by simp
      have "length d \<noteq> announced c" using run d by (auto simp: after split: if_splits)
      then have lt: "length (q (world s1)) < announced c" using l by simp
      have "length (q (world s1)) = length d + length (q (world s2))" by (simp add: d(3))
      then have "q (world s2) = []" using l lt by simp
      moreover have "length (q (world s)) = 2 + length (q (world s1))" by (simp add: got(3) two)
      moreover from run d(1) have "s' = s2" "e = System_error ENODATA ''message truncated''"
        by (auto simp: after split: if_splits)
      ultimately show ?thesis using lt an by (simp add: complete_frame_def)
    qed
  qed
qed

subsection \<open>A kernel with these properties\<close>

text \<open>
  The world is one byte stream: \<^verbatim>\<open>sendmsg\<close> appends to it, \<^verbatim>\<open>recv\<close>
  takes one byte off it, or all that was asked for with \<^verbatim>\<open>MSG_WAITALL\<close>.
\<close>

definition stream_calls :: "byte list net_calls" where
  "stream_calls = idle_calls
     \<lparr>sys_recv := (\<lambda>_ len flags s.
        let c = take (if flags AND MSG_WAITALL \<noteq> 0 then min (unat len) (2 ^ 31 - 1) else min (unat len) 1) (world s)
        in ((int (length c), c), s\<lparr>world := drop (length c) (world s)\<rparr>)),
      sys_sendmsg := (\<lambda>_ h _ s.
        let c = gather (mem s) (msg_iov h) in (int (length c), s\<lparr>world := world s @ c\<rparr>))\<rparr>"

lemma stream_calls_laws:
  "stream_law stream_calls sd id" "prompt_law stream_calls sd id" "waitall_law stream_calls sd id"
  "send_law stream_calls sd id"
proof -
  show "stream_law stream_calls sd id"
    unfolding stream_law_def
    by (auto simp: stream_calls_def Let_def min_def nat_less_iff append_take_drop_id split: if_splits)
  show "prompt_law stream_calls sd id"
    by (auto simp: prompt_law_def stream_calls_def Let_def unat_gt_0)
  show "waitall_law stream_calls sd id"
    by (auto simp: waitall_law_def stream_calls_def Let_def)
  show "send_law stream_calls sd id"
    by (auto simp: send_law_def stream_calls_def Let_def)
qed

subsection \<open>Properties\<close>

text \<open>
  C1. Reassembly is correct for every fragmentation: on a stream that starts with a frame, any
  number of \<^verbatim>\<open>recv_part\<close> calls, with short reads and failed calls in any order, is
  free of undefined behaviour, keeps the invariant of the receive state, loses and duplicates no
  byte (what was consumed and what is left in the stream is the original stream), and when the state
  is \<^verbatim>\<open>finished\<close> the buffer is the message and the stream is at the next frame.
\<close>

theorem poll_parts_frame:
  assumes "stream_law K (tds_descriptor t) q" "length junk = 2" "length p < 65536"
    and "q (world s) = be16 (of_nat (length p)) @ p @ rest"
  shows "\<exists>st buf' s'. poll_parts K junk t flags n receive_state_init (buf, s) = (Ok st, (buf', s'))
     \<and> rs_okay (st, buf')
     \<and> rs_seen (st, buf') @ q (world s') = be16 (of_nat (length p)) @ p @ rest
     \<and> (rstate st = Finished \<longrightarrow> buf' = p \<and> q (world s') = rest)"
  using poll_parts_inv [OF assms(1,2) rs_init(1), of flags n buf s] finished_payload [OF _ _ assms(3)]
    assms(4) by fastforce

theorem poll_parts_frame_witness:
  "\<exists>st buf' s'. poll_parts stream_calls [9, 9] tds_default 0 5 receive_state_init
       ([], sys0 [0, 2, 65, 66, 7]) = (Ok st, (buf', s'))
     \<and> (rstate st = Finished \<longrightarrow> buf' = [65, 66] \<and> world s' = [7])"
  using poll_parts_frame [OF stream_calls_laws(1), of "[9, 9]" "[65, 66]" "sys0 [0, 2, 65, 66, 7]" "[7]"
      tds_default 0 5 "[]"]
  by (auto simp: be16_def)



text \<open>
  C3. Messages sent with \<^verbatim>\<open>tcp_datagram_socket::send\<close> are received by the blocking
  \<^verbatim>\<open>recv\<close> of the peer in order, each with its boundaries and bytes.
\<close>

theorem tds_fifo:
  assumes "nbo16_law nbo sizeof_nbo"
    and "send_law K (tds_descriptor a) q" "stream_law K (tds_descriptor b) q" "waitall_law K (tds_descriptor b) q"
    and "\<forall>(p, len)\<in>set ms. clear_of self [\<lparr>iov_base = p, iov_len = ucast len\<rparr>]"
    and "q (world s) = []" "send_msgs K nbo sizeof_nbo self a flags ms s = (Ok (), s')"
  shows "\<exists>buf' s''. recv_msgs K le b flags' (length ms) (buf, s')
     = (Ok (map (\<lambda>(p, len). mem_read (mem s) p (unat len)) ms), (buf', s'')) \<and> q (world s'') = []"
proof -
  from assms(1) have "nbo = be16" "sizeof_nbo = 2" by (simp_all add: nbo16_law_def)
  with send_msgs_wire [OF assms(2,5)] assms(6,7) have "q (world s') = wire (mem s) ms @ []" by simp
  from recv_msgs_wire [OF assms(3,4) this] show ?thesis .
qed

theorem tds_fifo_witness:
  "\<exists>s' buf' s''. send_msgs stream_calls be16 2 100 tds_default 0 [(7, 2), (0, 0), (8, 1)] ((sys0 [])\<lparr>mem := ucast\<rparr>) = (Ok (), s')
     \<and> recv_msgs stream_calls True tds_default 0 3 ([], s') = (Ok [[7, 8], [], [8]], (buf', s''))"
proof -
  let ?s = "(sys0 [])\<lparr>mem := ucast\<rparr> :: byte list sys" and ?ms = "[(7, 2), (0, 0), (8, 1)] :: (addr \<times> uint16) list"
  obtain s' where run: "send_msgs stream_calls be16 2 100 tds_default 0 ?ms ?s = (Ok (), s')"
    by (auto simp: tds_send_buf_def cmd_simps lpm_buffer_run tcp_send_iovec_def send_iovec_def send_msghdr_def
        stream_calls_def Let_def)
  have "\<forall>(p, len)\<in>set ?ms. clear_of 100 [\<lparr>iov_base = p, iov_len = ucast len\<rparr>]"
    by (auto simp: clear_of_def dest!: less_two_cases)
  from tds_fifo [OF _ stream_calls_laws(4,1,3) this _ run, where le = True and flags' = 0 and buf = "[]" and b = tds_default] run
  show ?thesis
    by (auto simp: nbo16_law_def mem_read_def upt_rec [of _ 2] numeral_3_eq_3
        simp del: recv_msgs.simps send_msgs.simps)
qed

text \<open>
  C4. The outcomes of the blocking \<^verbatim>\<open>recv\<close>, under no assumption but that the socket
  is a stream: it returns a complete frame and its payload; or it throws the error of the system
  call; or it throws \<^verbatim>\<open>ENODATA\<close>, and then fewer bytes than the length field, or than the
  message, were delivered. No other outcome is possible. Without signals, so that a read is cut short only
  by the end of the stream, and unless a system call fails: \<^verbatim>\<open>ENODATA\<close> is thrown exactly when
  the rest of the stream is not a complete frame, and the stream is then at its end.
\<close>

theorem tds_recv_outcomes:
  assumes "stream_law K (tds_descriptor t) q"
  shows "(case tds_recv K le t flags (buf, s) of
      (Ok n, (buf', s')) \<Rightarrow> q (world s) = be16 (ucast n) @ buf' @ q (world s') \<and> unat n = length buf'
    | (Throw e, (buf', s')) \<Rightarrow> \<exists>c. q (world s) = c @ q (world s') \<and>
        (e = System_error (errno s') ''recv failed''
         \<or> e = System_error ENODATA ''message length truncated'' \<and> length c < 2
         \<or> e = System_error ENODATA ''message truncated'' \<and> 2 \<le> length c \<and> length c < 2 + announced c)
    | _ \<Rightarrow> False)
   \<and> (eof_law K (tds_descriptor t) q \<longrightarrow> (case tds_recv K le t flags (buf, s) of
      (Ok n, (buf', s')) \<Rightarrow> complete_frame (q (world s))
    | (Throw e, (buf', s')) \<Rightarrow> e = System_error (errno s') ''recv failed''
        \<or> q (world s') = [] \<and> \<not> complete_frame (q (world s))
          \<and> e = System_error ENODATA (if length (q (world s)) < 2 then ''message length truncated'' else ''message truncated'')
    | _ \<Rightarrow> False))"
proof -
  have "complete_frame (be16 (ucast n) @ b @ r)" if "unat n = length b" for n :: size_t and b r
  proof -
    have "announced (be16 (ucast n) @ b @ r) = unat (ucast n :: uint16)"
      using be16_value [of "ucast n"] by (simp add: announced_def be16_def)
    also have "\<dots> \<le> unat n" by (simp add: unsigned_ucast_eq take_bit_eq_mod)
    finally show ?thesis using that by (simp add: complete_frame_def)
  qed
  then show ?thesis
    using tds_recv_stream_outcomes [OF assms, where le = le and flags = flags and buf = buf and s = s] tds_recv_eof_outcomes [OF assms, where le = le and flags = flags and buf = buf and s = s]
    by (auto split: prod.splits res.splits)
qed

lemma stream_calls_eof: "eof_law stream_calls sd id"
  by (auto simp: eof_law_def stream_calls_def Let_def min_def)

theorem tds_recv_outcomes_witness:
  "case tds_recv stream_calls True tds_default 0 ([], sys0 [0, 2, 65]) of
      (Throw e, (buf', s')) \<Rightarrow> (\<exists>c. [0, 2, 65] = c @ world s') \<and> (e = System_error (errno s') ''recv failed''
        \<or> world s' = [] \<and> e = System_error ENODATA ''message truncated'')
    | _ \<Rightarrow> False"
  using tds_recv_outcomes [OF stream_calls_laws(1), where t = tds_default and le = True and flags = 0
        and buf = "[]" and s = "sys0 [0, 2, 65]"] stream_calls_eof [of "tds_descriptor tds_default"]
  by (auto simp: complete_frame_def announced_def split: prod.splits res.splits)

end
