(* ===== verification/Sockets.thy ===== *)
theory Sockets
  imports Udp_Socket Datagram_Receive
begin

text \<open>
  Properties of the socket functions and classes: addresses survive the conversion to and from
  \<^verbatim>\<open>sockaddr_in\<close>, every descriptor the library asks for is close-on-exec, no constructor
  leaks the descriptor it opened when a later step throws, and two places where an overload does
  less than its name says (\<^verbatim>\<open>accept\<close> with an address, \<^verbatim>\<open>udp_socket::send\<close>
  of buffers to a \<^verbatim>\<open>sockaddr_in\<close>).
\<close>

unbundle bit_operations_syntax

subsection \<open>Descriptors\<close>

lemma bit_or_cloexec: "bit (fl OR SOCK_CLOEXEC) 19"
  by (simp add: bit_or_iff SOCK_CLOEXEC_def bit_numeral_rec)

text \<open>
  The effect of the calls on the descriptors \<open>opn\<close> the process has open: \<^verbatim>\<open>socket\<close>
  opens one when it succeeds, \<^verbatim>\<open>close\<close> closes one, the others none.
\<close>

definition net_fd_law :: "('w, 'x) net_calls_scheme \<Rightarrow> ('w \<Rightarrow> int multiset) \<Rightarrow> bool" where
  "net_fd_law K opn \<longleftrightarrow>
     (\<forall>d ty pr s. opn (world (snd (sys_socket K d ty pr s))) =
        (if fst (sys_socket K d ty pr s) = - 1 then opn (world s)
         else add_mset (fst (sys_socket K d ty pr s)) (opn (world s)))) \<and>
     (\<forall>fd s. opn (world (snd (sys_close K fd s))) = opn (world s) - {#fd#}) \<and>
     (\<forall>sd a s. opn (world (snd (sys_bind K sd a s))) = opn (world s)) \<and>
     (\<forall>sd a s. opn (world (snd (sys_connect K sd a s))) = opn (world s)) \<and>
     (\<forall>sd l n v k s. opn (world (snd (sys_setsockopt K sd l n v k s))) = opn (world s))"

text \<open>
  A constructor that acquires the descriptor \<open>desc\<close> of its object, or throws with nothing acquired;
  and a command that opens and closes nothing. Neither runs into undefined behaviour.
\<close>

definition acquires :: "('w \<Rightarrow> int multiset) \<Rightarrow> ('t \<Rightarrow> int) \<Rightarrow> ('w sys, 't) cmd \<Rightarrow> bool" where
  "acquires opn desc c \<longleftrightarrow> (\<forall>s. case c s of
      (Ok t, s') \<Rightarrow> desc t \<noteq> closed_fd \<and> opn (world s') = add_mset (desc t) (opn (world s))
    | (Throw e, s') \<Rightarrow> opn (world s') = opn (world s)
    | _ \<Rightarrow> False)"

definition same_open :: "('w \<Rightarrow> int multiset) \<Rightarrow> ('w sys, 'a) cmd \<Rightarrow> bool" where
  "same_open opn c \<longleftrightarrow> (\<forall>s. case c s of
      (Ok x, s') \<Rightarrow> opn (world s') = opn (world s)
    | (Throw e, s') \<Rightarrow> opn (world s') = opn (world s)
    | _ \<Rightarrow> False)"

lemma same_openD:
  "same_open opn c \<Longrightarrow> c s = (r, s') \<Longrightarrow> opn (world s') = opn (world s) \<and> r \<noteq> Undefined \<and> r \<noteq> Terminated"
  unfolding same_open_def by (drule spec [of _ s]) (auto split: res.splits)

lemma same_openI:
  "(\<And>s r s'. c s = (r, s') \<Longrightarrow> opn (world s') = opn (world s) \<and> r \<noteq> Undefined \<and> r \<noteq> Terminated)
     \<Longrightarrow> same_open opn c"
  unfolding same_open_def by (fastforce split: prod.splits res.splits)

lemma same_open_call: "(\<And>s. opn (world (snd (f s))) = opn (world s)) \<Longrightarrow> same_open opn (call f)"
  by (simp add: same_open_def cmd_simps)

lemma same_open_ret: "same_open opn (ret_c x)" and same_open_throw: "same_open opn (throw_c e)"
  and same_open_throw_errno: "same_open opn (throw_errno msg)"
  by (simp_all add: same_open_def cmd_simps)

lemma same_open_bind:
  assumes m: "same_open opn m" and f: "\<And>x. same_open opn (f x)"
  shows "same_open opn (bind_c m f)"
proof (rule same_openI)
  fix s r s' assume run: "bind_c m f s = (r, s')"
  obtain r1 s1 where m1: "m s = (r1, s1)" by (metis prod.exhaust)
  show "opn (world s') = opn (world s) \<and> r \<noteq> Undefined \<and> r \<noteq> Terminated"
    using same_openD [OF m m1] run m1 by (cases r1) (auto simp: cmd_simps dest: same_openD [OF f])
qed

lemma same_open_then: "same_open opn m \<Longrightarrow> same_open opn n \<Longrightarrow> same_open opn (then_c m n)"
  unfolding then_c_def by (rule same_open_bind)

lemma same_open_if: "same_open opn a \<Longrightarrow> same_open opn b \<Longrightarrow> same_open opn (if p then a else b)"
  by simp

lemmas same_open_intros = same_open_ret same_open_throw same_open_throw_errno same_open_bind same_open_then same_open_if same_open_call

lemma acquires_ctor_body:
  assumes c: "acquires opn desc c" and body: "\<And>t. same_open opn (body t)"
    and dtor: "\<And>t s. desc t \<noteq> closed_fd \<Longrightarrow> opn (world (snd (dtor t s))) = opn (world s) - {#desc t#}"
  shows "acquires opn desc (bind_c c (\<lambda>t. ctor_body (dtor t) t (body t)))"
  unfolding acquires_def
proof
  fix s
  obtain r s1 where run: "c s = (r, s1)" by (metis prod.exhaust)
  show "case bind_c c (\<lambda>t. ctor_body (dtor t) t (body t)) s of
      (Ok t, s') \<Rightarrow> desc t \<noteq> closed_fd \<and> opn (world s') = add_mset (desc t) (opn (world s))
    | (Throw e, s') \<Rightarrow> opn (world s') = opn (world s) | _ \<Rightarrow> False"
    using c [unfolded acquires_def, rule_format, of s] run
    by (cases r) (auto simp: cmd_simps ctor_body_def dtor split: prod.splits res.splits dest: same_openD [OF body])
qed

lemma net_same_open:
  assumes "net_fd_law K opn"
  shows "same_open opn (setsockopt K opt sd v)" "same_open opn (bind_sockaddr K sd sa ra rp)"
    "same_open opn (connect_sockaddr K sd sa)"
  using assms unfolding net_fd_law_def setsockopt_def setsockopt_raw_def bind_sockaddr_def connect_sockaddr_def
  by (auto intro!: same_open_intros)

lemma tcp_domain_acquires: "net_fd_law K opn \<Longrightarrow> acquires opn tcp_descriptor (tcp_socket_domain K domain)"
  by (auto simp: net_fd_law_def acquires_def tcp_socket_domain_def socket_def cmd_simps Let_def
      tcp_descriptor_def ufd_bool_def closed_fd_def split: prod.splits)

lemma tcp_destroy_releases:
  "net_fd_law K opn \<Longrightarrow> tcp_descriptor t \<noteq> closed_fd \<Longrightarrow>
     opn (world (snd (tcp_destroy K t s))) = opn (world s) - {#tcp_descriptor t#}"
  by (simp add: net_fd_law_def tcp_destroy_def tcp_descriptor_def unique_fd_defs default_close_def Let_def)

lemma udp_domain_acquires: "net_fd_law K opn \<Longrightarrow> acquires opn udp_descriptor (udp_socket_domain K domain)"
  by (auto simp: net_fd_law_def acquires_def udp_socket_domain_def socket_def cmd_simps Let_def
      udp_descriptor_def ufd_bool_def closed_fd_def split: prod.splits)

lemma udp_destroy_releases:
  "net_fd_law K opn \<Longrightarrow> udp_descriptor t \<noteq> closed_fd \<Longrightarrow>
     opn (world (snd (udp_destroy K t s))) = opn (world s) - {#udp_descriptor t#}"
  by (simp add: net_fd_law_def udp_destroy_def udp_descriptor_def unique_fd_defs default_close_def Let_def)

lemma tds_domain_acquires:
  assumes "net_fd_law K opn"
  shows "acquires opn tds_descriptor (tds_domain K domain)"
proof -
  let ?mk = "\<lambda>sock. \<lparr>tds_socket = sock, tds_iovec_vector = lpm_vector_default\<rparr>"
  have "acquires opn tds_descriptor (bind_c (tcp_socket_domain K domain) (\<lambda>sock. ret_c (?mk sock)))"
    using tcp_domain_acquires [OF assms, of domain]
    by (auto simp: acquires_def cmd_simps tds_descriptor_def split: prod.splits res.splits)
  then have "acquires opn tds_descriptor (bind_c (bind_c (tcp_socket_domain K domain) (\<lambda>sock. ret_c (?mk sock)))
      (\<lambda>t. ctor_body (tds_destroy K t) t (tds_nodelay K t)))"
    using tcp_destroy_releases [OF assms] net_same_open [OF assms]
    by (intro acquires_ctor_body)
      (auto simp: tds_nodelay_def tds_destroy_def tds_descriptor_def intro!: same_open_intros)
  also have "bind_c (bind_c (tcp_socket_domain K domain) (\<lambda>sock. ret_c (?mk sock)))
      (\<lambda>t. ctor_body (tds_destroy K t) t (tds_nodelay K t)) = tds_domain K domain"
    by (auto simp: fun_eq_iff tds_domain_def cmd_simps Let_def split: prod.splits res.splits)
  finally show ?thesis .
qed

text \<open>
  Every socket the library creates or accepts is close-on-exec: \<^verbatim>\<open>socket\<close> and the
  \<^verbatim>\<open>accept\<close> overloads, whatever flags the caller passes, use the kernel only with
  flag words whose bit 19 (\<^verbatim>\<open>SOCK_CLOEXEC\<close>) is set, so a kernel that behaves differently
  without it cannot be told apart.
\<close>

theorem sockets_request_cloexec:
  "socket (K\<lparr>sys_socket := \<lambda>d ty pr. if bit ty 19 then sys_socket K d ty pr else other d ty pr\<rparr>) = socket K
   \<and> accept_flags (K\<lparr>sys_accept4 := \<lambda>sd a fl. if bit fl 19 then sys_accept4 K sd a fl else other' sd a fl\<rparr>)
     = accept_flags K
   \<and> accept_sockaddr (K\<lparr>sys_accept4 := \<lambda>sd a fl. if bit fl 19 then sys_accept4 K sd a fl else other' sd a fl\<rparr>)
     = accept_sockaddr K"
  using bit_or_cloexec
  by (simp add: fun_eq_iff socket_def accept_flags_def accept_sockaddr_def detail_accept_def)

text \<open>
  C9. No constructor leaks: each socket constructor either returns an object that owns exactly the
  one descriptor that was opened, or throws and leaves the set of open descriptors as it found it
  (the socket opened by the delegated constructor is closed again).
\<close>

theorem constructors_do_not_leak:
  assumes "net_fd_law K opn"
  shows "acquires opn tcp_descriptor (tcp_socket_domain K domain)
     \<and> acquires opn tcp_descriptor (tcp_socket_bind_port K N le a p)
     \<and> acquires opn tcp_descriptor (tcp_socket_bind K N le a)
     \<and> acquires opn tcp_descriptor (tcp_socket_connect K N le a p)
     \<and> acquires opn udp_descriptor (udp_socket_bind K N le a p)
     \<and> acquires opn tds_descriptor (tds_domain K domain)
     \<and> acquires opn tds_descriptor (tds_bind_port_ctor K N le a p)
     \<and> acquires opn tds_descriptor (tds_bind_ctor K N le a)
     \<and> acquires opn tds_descriptor (tds_connect_ctor K N le a p)"
proof -
  have tds: "opn (world (snd (tds_destroy K t s))) = opn (world s) - {#tds_descriptor t#}"
    if "tds_descriptor t \<noteq> closed_fd" for t s
    using tcp_destroy_releases [OF assms] that by (simp add: tds_destroy_def tds_descriptor_def)
  note facts = tcp_domain_acquires [OF assms] udp_domain_acquires [OF assms] tds_domain_acquires [OF assms]
    net_same_open [OF assms] tcp_destroy_releases [OF assms] udp_destroy_releases [OF assms] tds
  show ?thesis
    unfolding tcp_socket_bind_port_def tcp_socket_bind_def tcp_socket_connect_def udp_socket_bind_def
      tds_bind_port_ctor_def tds_bind_ctor_def tds_connect_ctor_def bind_addr_port_def bind_addr_def
      connect_addr_port_def tcp_bind_port_def tcp_bind_def tcp_connect_def
    by (intro conjI acquires_ctor_body) (rule facts; assumption?)+
qed


theorem constructors_do_not_leak_witness:
  "acquires id tds_descriptor (tds_connect_ctor
     (idle_calls\<lparr>sys_socket := (\<lambda>_ _ _ s. (3, s\<lparr>world := add_mset 3 (world s)\<rparr>)),
                 sys_close := (\<lambda>fd s. (0, s\<lparr>world := world s - {#fd#}\<rparr>)),
                 sys_connect := (\<lambda>_ _ s. (- 1, s\<lparr>errno := 111\<rparr>))\<rparr>)
     \<lparr>to_uint32 = id, ipv4_address = id, port_value = id, mk_port = id\<rparr> True 0x7F000001 8080)"
proof -
  have "net_fd_law (idle_calls\<lparr>sys_socket := (\<lambda>_ _ _ s. (3, s\<lparr>world := add_mset 3 (world s)\<rparr>)),
                 sys_close := (\<lambda>fd s. (0, s\<lparr>world := world s - {#fd#}\<rparr>)),
                 sys_connect := (\<lambda>_ _ s. (- 1, s\<lparr>errno := 111\<rparr>))\<rparr>) id"
    by (simp add: net_fd_law_def idle_calls_def)
  from constructors_do_not_leak [OF this,
      where N = "\<lparr>to_uint32 = id, ipv4_address = id, port_value = id, mk_port = id\<rparr>"]
  show ?thesis by blast
qed

subsection \<open>Addresses\<close>

text \<open>
  The conversions of \<^verbatim>\<open>ndgpp::net::ipv4_address\<close> and \<^verbatim>\<open>ndgpp::net::port\<close>
  are inverse to one another.
\<close>

definition ndgpp_law :: "('a, 'p) ndgpp \<Rightarrow> bool" where
  "ndgpp_law N \<longleftrightarrow> (\<forall>a. ipv4_address N (to_uint32 N a) = a) \<and> (\<forall>p. mk_port N (port_value N p) = p)"

lemma htons_bytes: "load16 le (be16 w ! 0) (be16 w ! Suc 0) = htons le w"
  by (rule bit_word_eqI) (auto simp: load16_def be16_def htons_def bswap16_def bit_simps dest: bit_imp_le_length)

text \<open>
  C36. Addresses round-trip: parsing the \<^verbatim>\<open>sockaddr_in\<close> made from an address and a port
  gives them back, on hosts of either byte order; the port in the structure is big-endian; and the
  overload without a port makes the wildcard port 0.
\<close>

theorem sockaddr_roundtrip:
  assumes "ndgpp_law N"
  shows "parse_sockaddr N le (make_sockaddr N le a p) = (a, p)
     \<and> sin_port (make_sockaddr N le a p) = load16 le (be16 (port_value N p) ! 0) (be16 (port_value N p) ! 1)
     \<and> parse_sockaddr N le (make_sockaddr_any_port N le a) = (a, mk_port N 0)"
  using assms unfolding ndgpp_law_def
  by (simp add: parse_sockaddr_def make_sockaddr_def make_sockaddr_any_port_def htons_bytes)
    (simp add: ntohs_def bswap16_def)

theorem sockaddr_roundtrip_witness:
  "parse_sockaddr \<lparr>to_uint32 = id, ipv4_address = id, port_value = id, mk_port = id\<rparr> True
     (make_sockaddr \<lparr>to_uint32 = id, ipv4_address = id, port_value = id, mk_port = id\<rparr> True 0x7F000001 8080)
   = (0x7F000001, 8080)"
  using sockaddr_roundtrip [of "\<lparr>to_uint32 = id, ipv4_address = id, port_value = id, mk_port = id\<rparr>"]
  by (simp add: ndgpp_law_def)

subsection \<open>Overloads that do less\<close>

text \<open>
  \<^verbatim>\<open>accept4\<close> accepts the same connection whether or not it is asked for the peer's address.
\<close>

definition accept_law :: "('w, 'x) net_calls_scheme \<Rightarrow> bool" where
  "accept_law K \<longleftrightarrow> (\<forall>sd sa fl s r s'. sys_accept4 K sd None fl s = ((r, None), s') \<longrightarrow>
     (\<exists>peer. sys_accept4 K sd (Some (sa, sizeof_sockaddr_in)) fl s = ((r, Some (peer, sizeof_sockaddr_in)), s')))"

text \<open>
  \<^verbatim>\<open>accept(sd, addr, port, flags)\<close> ignores \<open>flags\<close>: for every value of it the
  call does what \<^verbatim>\<open>accept(sd, 0)\<close> does (and reports the peer), so a caller who asks for
  \<^verbatim>\<open>SOCK_NONBLOCK\<close> gets a blocking descriptor.
\<close>

theorem accept_addr_port_drops_flags:
  assumes "accept_law K" and "sys_accept4 K sd None SOCK_CLOEXEC s = ((r, None), s')"
  shows "\<exists>peer. accept_addr_port K N le sd flags s =
     (if r = - 1 then (Throw (System_error (errno s') ''accept system call failed''), s')
      else (Ok (r, parse_sockaddr N le peer), s'))
     \<and> accept_flags K sd 0 s =
     (if r = - 1 then (Throw (System_error (errno s') ''accept system call failed''), s') else (Ok r, s'))"
proof -
  from assms obtain peer where
    "sys_accept4 K sd (Some (zero_sockaddr, sizeof_sockaddr_in)) SOCK_CLOEXEC s = ((r, Some (peer, sizeof_sockaddr_in)), s')"
    unfolding accept_law_def by blast
  with assms(2) show ?thesis
    by (intro exI [of _ peer]) (simp add: accept_addr_port_def accept_sockaddr_def accept_flags_def detail_accept_def cmd_simps)
qed


theorem accept_addr_port_drops_flags_witness:
  "\<exists>peer. accept_addr_port (idle_calls\<lparr>sys_accept4 := (\<lambda>sd a fl s. ((if bit fl 11 then 6 else 5, a), s))\<rparr>)
       \<lparr>to_uint32 = id, ipv4_address = id, port_value = id, mk_port = id\<rparr> True 3 2048 (sys0 ())
     = (Ok (5, parse_sockaddr \<lparr>to_uint32 = id, ipv4_address = id, port_value = id, mk_port = id\<rparr> True peer), sys0 ())
   \<and> accept_flags (idle_calls\<lparr>sys_accept4 := (\<lambda>sd a fl s. ((if bit fl 11 then 6 else 5, a), s))\<rparr>) 3 2048 (sys0 ())
     = (Ok 6, sys0 ())"
proof -
  let ?K = "idle_calls\<lparr>sys_accept4 := (\<lambda>sd a fl s. ((if bit fl 11 then 6 else 5, a), s))\<rparr> :: unit net_calls"
  have b: "\<not> bit SOCK_CLOEXEC 11" "bit (2048 OR SOCK_CLOEXEC) 11"
    by (simp_all add: SOCK_CLOEXEC_def bit_numeral_rec)
  have "accept_law ?K" by (simp add: accept_law_def)
  moreover have "sys_accept4 ?K 3 None SOCK_CLOEXEC (sys0 ()) = ((5, None), sys0 ())" using b by simp
  ultimately show ?thesis
    using accept_addr_port_drops_flags [of ?K 3 "sys0 ()" 5 "sys0 ()"
        "\<lparr>to_uint32 = id, ipv4_address = id, port_value = id, mk_port = id\<rparr>" True 2048] b
    by (simp add: accept_flags_def detail_accept_def cmd_simps)
qed

text \<open>\<^verbatim>\<open>sendto\<close> on a datagram socket sends one datagram: the bytes it was given.\<close>

definition sendto_law :: "('w, 'x) net_calls_scheme \<Rightarrow> ('w \<Rightarrow> byte list list) \<Rightarrow> bool" where
  "sendto_law K out \<longleftrightarrow> (\<forall>sd p n fl a s. unat n < 2 ^ 31 \<longrightarrow>
     fst (sys_sendto K sd p n fl a s) = int (unat n) \<and>
     out (world (snd (sys_sendto K sd p n fl a s))) = out (world s) @ [mem_read (mem s) p (unat n)])"

text \<open>
  \<^verbatim>\<open>udp_socket::send(iovec const *, size, sockaddr_in, flags)\<close> does not gather: the
  datagram it sends is the first \<open>size_buffers\<close> bytes of the array of \<^verbatim>\<open>iovec\<close>
  structures itself, not the bytes they point to.
\<close>

theorem udp_send_iovec_sockaddr_raw:
  assumes "sendto_law K out" and "unat size_buffers < 2 ^ 31"
  shows "\<exists>s'. udp_send_iovec_sockaddr K u buffers size_buffers sa flags s = (Ok size_buffers, s')
     \<and> out (world s') = out (world s) @ [mem_read (mem s) buffers (unat size_buffers)]"
proof -
  let ?r = "sys_sendto K (udp_descriptor u) buffers size_buffers flags sa s"
  from assms have r: "fst ?r = int (unat size_buffers)"
    "out (world (snd ?r)) = out (world s) @ [mem_read (mem s) buffers (unat size_buffers)]"
    unfolding sendto_law_def by blast+
  moreover have "n < 2 ^ 31 \<Longrightarrow> narrow_int (int n) = int n" for n by (rule narrow_int_id) auto
  note this [OF assms(2)]
  ultimately show ?thesis
    by (simp add: udp_send_iovec_sockaddr_def send_buf_sockaddr_def cmd_simps Let_def to_size_def
        del: of_nat_unat) simp
qed

theorem udp_send_iovec_sockaddr_raw_witness:
  "\<exists>s'. udp_send_iovec_sockaddr
       (idle_calls\<lparr>sys_sendto := (\<lambda>_ p n _ _ s. (int (unat n), s\<lparr>world := world s @ [mem_read (mem s) p (unat n)]\<rparr>))\<rparr>)
       udp_default 16 2 zero_sockaddr 0 ((sys0 [])\<lparr>mem := ucast\<rparr>) = (Ok 2, s') \<and> world s' = [[16, 17]]"
proof -
  have "sendto_law (idle_calls\<lparr>sys_sendto := (\<lambda>_ p n _ _ s.
      (int (unat n), s\<lparr>world := world s @ [mem_read (mem s) p (unat n)]\<rparr>))\<rparr>) id"
    by (simp add: sendto_law_def)
  from udp_send_iovec_sockaddr_raw [OF this, of 2 udp_default 16 zero_sockaddr 0 "(sys0 [])\<lparr>mem := ucast\<rparr>"]
  show ?thesis by (simp add: mem_read_def upt_rec [of _ 2])
qed

end
