(* ===== verification/Datagram_Stream.thy ===== *)
theory Datagram_Stream
  imports Datagram_Receive
begin

text \<open>
  A whole conversation over the non-blocking interface: a client that goes on calling
  \<^verbatim>\<open>recv_part\<close> with the state it got, also after a finished message, and takes the buffer each time the state
  becomes \<^verbatim>\<open>finished\<close>.
\<close>

subsection \<open>Streams of frames\<close>

definition frame_of :: "byte list \<Rightarrow> byte list" where
  "frame_of p = be16 (of_nat (length p)) @ p"

definition frames :: "byte list list \<Rightarrow> byte list" where
  "frames ms = concat (map frame_of ms)"

lemma frames_simps [simp]: "frames [] = []" "frames (p # ms) = frame_of p @ frames ms" "frames (xs @ ys) = frames xs @ frames ys"
  by (simp_all add: frames_def)

lemma frame_of_inject: "length p < 65536 \<Longrightarrow> length r < 65536 \<Longrightarrow> frame_of p @ u = frame_of r @ v \<Longrightarrow> p = r \<and> u = v"
  by (auto simp: frame_of_def be16_inject of_nat_inject16)

lemma frames_split:
  assumes "\<forall>p\<in>set ms. length p < 65536" "\<forall>p\<in>set ns. length p < 65536" "frames ms @ u = frames ns"
  shows "\<exists>rest. ns = ms @ rest \<and> u = frames rest"
  using assms
proof (induction ms arbitrary: ns)
  case (Cons p ms)
  then obtain r ns' where ns: "ns = r # ns'" by (cases ns) (auto simp: frame_of_def be16_def)
  with Cons.prems frame_of_inject [of p r "frames ms @ u" "frames ns'"] have "p = r" "frames ms @ u = frames ns'" by auto
  with Cons.IH [of ns'] Cons.prems ns show ?case by auto
qed simp

subsection \<open>The client\<close>

fun poll_stream ::
  "('w, 'x) net_calls_scheme \<Rightarrow> byte list \<Rightarrow> tcp_datagram_socket \<Rightarrow> int \<Rightarrow> nat \<Rightarrow> receive_state
    \<Rightarrow> (byte list \<times> 'w sys, byte list list \<times> receive_state) cmd" where
  "poll_stream K junk t flags 0 st = ret_c ([], st)"
| "poll_stream K junk t flags (Suc n) st =
     bind_c (catch_c (recv_part K junk t st flags) (\<lambda>e. ret_c st)) (\<lambda>st'.
     bind_c (gets_c fst) (\<lambda>buf.
     bind_c (poll_stream K junk t flags n st') (\<lambda>(msgs, st'').
     ret_c (if rstate st' = Finished \<and> rstate st \<noteq> Finished then buf # msgs else msgs, st''))))"

text \<open>A finished state stands for the start of the next message.\<close>

definition current :: "receive_state \<Rightarrow> receive_state" where
  "current st = (if rstate st = Finished then receive_state_init else st)"

lemma recv_part_current: "recv_part K junk t st flags = recv_part K junk t (current st) flags"
  by (simp add: recv_part_def current_def receive_state_init_def)

lemma current_okay [simp]: "rs_okay (st, buf) \<Longrightarrow> rs_okay (current st, buf)" "rstate (current st) \<noteq> Finished"
  "current (current st) = current st"
  by (simp_all add: current_def) (simp_all add: receive_state_init_def)

lemma finished_frame_of:
  assumes "rs_okay (st, buf)" "rstate st = Finished"
  shows "rs_seen (st, buf) = frame_of buf" "length buf < 65536"
  using assms by (auto simp: rs_okay_def rs_seen_def frame_of_def)

lemma finished_after_current:
  "rstate st = Finished \<Longrightarrow> rstate (fst (rs_feed (current st, buf) c)) \<noteq> Finished"
  by (simp add: current_def rs_feed_def receive_state_init_def size_state_def)

text \<open>One call: what it delivers and where it leaves the stream.\<close>

definition delivered :: "receive_state \<Rightarrow> receive_state \<Rightarrow> byte list \<Rightarrow> byte list list" where
  "delivered st st' buf = (if rstate st' = Finished \<and> rstate st \<noteq> Finished then [buf] else [])"

lemma poll_once:
  assumes law: "stream_law K (tds_descriptor t) q" and junk: "length junk = 2" and ok: "rs_okay (st, buf)"
  obtains (failed) s' where
    "catch_c (recv_part K junk t st flags) (\<lambda>e. ret_c st) (buf, s) = (Ok st, (resized (current st) buf, s'))"
    "q (world s') = q (world s)" "rs_okay (st, resized (current st) buf)"
    "rs_seen (current st, resized (current st) buf) = rs_seen (current st, buf)"
    "fst (fst (sys_recv K (tds_descriptor t) (of_nat (rs_want (current st, buf))) (flags OR MSG_DONTWAIT) s)) = - 1"
  | (took) c st' buf' s' where
    "catch_c (recv_part K junk t st flags) (\<lambda>e. ret_c st) (buf, s) = (Ok st', (buf', s'))"
    "(st', buf') = rs_feed (current st, buf) c" "length c \<le> rs_want (current st, buf)" "q (world s) = c @ q (world s')"
    "c = snd (fst (sys_recv K (tds_descriptor t) (of_nat (rs_want (current st, buf))) (flags OR MSG_DONTWAIT) s))"
    "rs_okay (st', buf')" "rs_seen (st', buf') = rs_seen (current st, buf) @ c" "rstate st' = Finished \<longrightarrow> rstate st \<noteq> Finished"
proof -
  note cur = current_okay(1) [OF ok]
  from law cur current_okay(2) junk show thesis
  proof (cases rule: recv_part_step [where flags = flags and s = s])
    case (failed e s')
    have "rs_okay (st, resized (current st) buf)"
      using ok resized_same(1) [OF ok] by (cases "rstate st = Finished") (simp_all add: current_def resized_def receive_state_init_def)
    with failed that(1) [of s'] resized_same(2) [OF cur] show thesis by (simp add: recv_part_current [of K junk t st] cmd_simps)
  next
    case (took c s')
    obtain st' buf' where st': "rs_feed (current st, buf) c = (st', buf')" by (metis prod.exhaust)
    have "\<not> rs_finished (current st, buf)" by (simp add: rs_finished_def)
    with took(2) cur have seen: "rs_okay (st', buf')" "rs_seen (st', buf') = rs_seen (current st, buf) @ c"
      using frame.feed_okay [of "(current st, buf)" c] frame.feed_seen [of "(current st, buf)" c] st' by simp_all
    have fin: "rstate st' = Finished \<longrightarrow> rstate st \<noteq> Finished" using finished_after_current [of st buf c] st' by auto
    have "catch_c (recv_part K junk t st flags) (\<lambda>e. ret_c st) (buf, s) = (Ok st', (buf', s'))"
      unfolding recv_part_current [of K junk t st] using took(1) st' by (simp add: cmd_simps)
    then show thesis by (rule that(2) [OF _ st' [symmetric] took(2-4) seen fin])
  qed
qed

subsection \<open>Nothing is lost\<close>

lemma poll_stream_accounts:
  assumes law: "stream_law K (tds_descriptor t) q" and junk: "length junk = 2"
  shows "rs_okay (st, buf) \<Longrightarrow> \<exists>msgs st' buf' s'. poll_stream K junk t flags n st (buf, s) = (Ok (msgs, st'), (buf', s')) \<and>
     rs_okay (st', buf') \<and> (\<forall>p\<in>set msgs. length p < 65536) \<and>
     rs_seen (current st, buf) @ q (world s) = frames msgs @ rs_seen (current st', buf') @ q (world s')"
proof (induction n arbitrary: st buf s)
  case (Suc n)
  from law junk Suc.prems show ?case
  proof (cases rule: poll_once [where flags = flags and s = s])
    case (failed s')
    with Suc.IH [OF failed(3), of s'] show ?thesis by (auto simp: cmd_simps)
  next
    case (took c st' buf' s')
    from Suc.IH [OF took(6), of s'] obtain msgs st2 buf2 s2 where
      rest: "poll_stream K junk t flags n st' (buf', s') = (Ok (msgs, st2), (buf2, s2))" "rs_okay (st2, buf2)"
        "\<forall>p\<in>set msgs. length p < 65536"
        "rs_seen (current st', buf') @ q (world s') = frames msgs @ rs_seen (current st2, buf2) @ q (world s2)" by auto
    show ?thesis
    proof (cases "rstate st' = Finished")
      case True
      with took finished_frame_of [OF took(6)] rest show ?thesis by (auto simp: cmd_simps current_def)
    next
      case False
      with took rest show ?thesis by (auto simp: cmd_simps current_def)
    qed
  qed
qed (simp add: cmd_simps)

subsection \<open>Everything arrives\<close>

definition calls_needed :: "byte list list \<Rightarrow> nat" where
  "calls_needed ms = sum_list (map (\<lambda>p. length p + 3) ms)"

definition still_needed :: "receive_state \<times> byte list \<Rightarrow> byte list list \<Rightarrow> nat" where
  "still_needed x ms = (case ms of [] \<Rightarrow> 0 | p # ps \<Rightarrow> frame.work (frame_of p) x + calls_needed ps)"

lemma still_needed_init: "still_needed (receive_state_init, buf) ms = calls_needed ms"
  unfolding frame.work_def still_needed_def calls_needed_def
  by (cases ms) (auto simp: rs_finished_def receive_state_init_def frame_of_def rs_seen_def)

text \<open>A call on a socket with data comes closer to the end of the message.\<close>

lemma poll_once_prompt:
  assumes law: "stream_law K (tds_descriptor t) q" "prompt_law K (tds_descriptor t) q" and junk: "length junk = 2"
    and ok: "rs_okay (st, buf)" and p: "length p < 65536" "rs_seen (current st, buf) @ q (world s) = frame_of p @ rest"
  obtains st' buf' s' where
    "catch_c (recv_part K junk t st flags) (\<lambda>e. ret_c st) (buf, s) = (Ok st', (buf', s'))" "rs_okay (st', buf')"
    "rs_seen (st', buf') @ q (world s') = frame_of p @ rest" "rstate st' = Finished \<longrightarrow> rstate st \<noteq> Finished"
    "frame.work (frame_of p) (st', buf') < frame.work (frame_of p) (current st, buf)"
proof -
  let ?w = "of_nat (rs_want (current st, buf)) :: size_t"
  have F: "framed (frame_of p)" unfolding frame_of_def using p(1) by (intro framedI) simp_all
  note cur = current_okay(1) [OF ok]
  have nf: "\<not> rs_finished (current st, buf)" by (simp add: rs_finished_def)
  have w: "?w = 0 \<longleftrightarrow> rs_want (current st, buf) = 0"
    using cur unat_bound64 [of "msg_size (current st)"] unat_of_nat_size [of "rs_want (current st, buf)"]
    by (auto simp: rs_want_def word_unat_eq_iff split: state_type.splits)
  have ready: "?w = 0 \<or> q (world s) \<noteq> []"
    using frame.want_more [OF cur nf _ F p(2)] w p(2) by (auto dest: arg_cong [of _ _ length])
  from law(1) junk ok show thesis
  proof (cases rule: poll_once [where flags = flags and s = s])
    case (failed s')
    with law(2) ready show ?thesis unfolding prompt_law_def by (metis prod.collapse)
  next
    case (took c st' buf' s')
    have "rs_want (current st, buf) = 0 \<or> c \<noteq> []"
      using law(2) ready took(5) w unfolding prompt_law_def by (metis prod.collapse)
    with frame.feed_work [OF cur nf took(3) _ F, of "q (world s')" rest] took(2,4) p(2)
    have "frame.work (frame_of p) (st', buf') < frame.work (frame_of p) (current st, buf)" by simp
    with took p(2) that [of st' buf' s'] show ?thesis by simp
  qed
qed

lemma poll_stream_done:
  assumes law: "stream_law K (tds_descriptor t) q" "prompt_law K (tds_descriptor t) q" and junk: "length junk = 2"
  shows "rs_okay (st, buf) \<Longrightarrow> rs_seen (current st, buf) @ q (world s) = frames ms \<Longrightarrow> \<forall>p\<in>set ms. length p < 65536 \<Longrightarrow>
     still_needed (current st, buf) ms \<le> n \<Longrightarrow>
     \<exists>st' x. poll_stream K junk t flags n st (buf, s) = (Ok (ms, st'), x)"
proof (induction n arbitrary: st buf s ms)
  case 0
  then have "ms = []"
    using frame.work_0 [of _ "(current st, buf)"] by (cases ms) (auto simp: still_needed_def rs_finished_def)
  then show ?case by (simp add: cmd_simps)
next
  case (Suc n)
  show ?case
  proof (cases ms)
    case Nil
    with poll_stream_accounts [OF law(1) junk Suc.prems(1), of flags "Suc n" s] Suc.prems(2) show ?thesis
      by (fastforce simp: frames_def frame_of_def be16_def simp del: poll_stream.simps)
  next
    case (Cons p ps)
    with Suc.prems have p: "length p < 65536" "rs_seen (current st, buf) @ q (world s) = frame_of p @ frames ps" by simp_all
    from law junk Suc.prems(1) p show ?thesis
    proof (cases rule: poll_once_prompt [where flags = flags])
      case (1 st' buf' s')
      show ?thesis
      proof (cases "rstate st' = Finished")
        case True
        from finished_frame_of [OF 1(2) True] 1(3) frame_of_inject [OF _ p(1)] have arrived: "buf' = p" "q (world s') = frames ps"
          by auto
        have "current st' = receive_state_init" using True by (simp add: current_def)
        with Suc.IH [OF 1(2), of s' ps] arrived Suc.prems(3,4) Cons 1(5) have
          "\<exists>st2 x. poll_stream K junk t flags n st' (buf', s') = (Ok (ps, st2), x)"
          by (simp add: still_needed_init) (simp add: still_needed_def)
        with 1 True arrived Cons show ?thesis by (auto simp: cmd_simps)
      next
        case False
        then have "current st' = st'" by (simp add: current_def)
        with Suc.IH [OF 1(2), of s' ms] 1(3,5) Suc.prems(3,4) Cons have
          "\<exists>st2 x. poll_stream K junk t flags n st' (buf', s') = (Ok (ms, st2), x)"
          by (simp add: still_needed_def)
        with 1 False show ?thesis by (auto simp: cmd_simps)
      qed
    qed
  qed
qed

lemma wire_frames: "wire m ms = frames (map (\<lambda>(p, len). mem_read m p (unat len)) ms)"
  by (auto simp: wire_def frames_def frame_of_def intro!: arg_cong [of _ _ concat])

subsection \<open>Properties\<close>



text \<open>
  When the peer has closed the connection \<^verbatim>\<open>recv\<close> returns 0, and \<^verbatim>\<open>recv_part\<close> returns the
  state it was given: a client that polls cannot tell the end of the stream from data that has not come yet, where the
  blocking \<^verbatim>\<open>recv\<close> throws \<^verbatim>\<open>ENODATA\<close>.
\<close>

lemma rs_feed_nothing:
  assumes "rs_okay (st, buf)" "rstate st \<noteq> Finished" "0 < rs_want (st, buf)"
  shows "fst (rs_feed (st, buf) []) = st"
proof (cases "rstate st")
  case Receiving_msg_size
  note n = length_rs_seen_size [OF assms(1) Receiving_msg_size]
  have "fst (rs_feed (st, buf) []) = \<lparr>msg_size = msg_size st, bytes_received = bytes_received st, rstate = rstate st\<rparr>"
    using msg_size_seen [OF assms(1) Receiving_msg_size] n Receiving_msg_size by (simp add: rs_feed_def size_state_def)
  then show ?thesis by simp
next
  case Receiving_msg
  with assms show ?thesis by (simp add: rs_feed_def Let_def rs_want_def)
qed (use assms in simp)

theorem recv_part_end_of_stream:
  assumes law: "stream_law K (tds_descriptor t) q" and ok: "rs_okay (st, buf)" "rstate st \<noteq> Finished" "0 < rs_want (st, buf)"
    and junk: "length junk = 2"
    and eof: "sys_recv K (tds_descriptor t) (of_nat (rs_want (st, buf))) (flags OR MSG_DONTWAIT) s = ((0, []), s1)"
  shows "\<exists>buf' s'. recv_part K junk t st flags (buf, s) = (Ok st, (buf', s')) \<and> q (world s') = q (world s)"
  using law ok(1,2) junk
proof (cases rule: recv_part_step [where flags = flags and s = s])
  case (took c s')
  with eof rs_feed_nothing [OF ok] show ?thesis by simp
qed (use eof in simp)

end
