(* ===== verification/Events.thy ===== *)
theory Events
  imports Files Unique_Fd "HOL-Library.Signed_Division"
begin

text \<open>
  The kernel objects the event loop is built from: \<^verbatim>\<open>linuxpp::epoll\<close>,
  \<^verbatim>\<open>linuxpp::eventfd\<close>, \<^verbatim>\<open>linuxpp::monotonic_timerfd\<close>, and
  \<^verbatim>\<open>linuxpp::signal_mutex\<close>. Their system calls extend the record of descriptor calls. A
  point in time and a duration in nanoseconds are integers. The pointer stored with a registered
  descriptor is \<open>None\<close> (null) or the number of a node.
\<close>

datatype epoll_data = Data_fd int | Data_ptr "nat option" | Data_u32 uint32 | Data_u64 uint64

record epoll_event =
  ev_events :: uint32
  ev_data :: epoll_data

datatype epoll_op = Ctl_add | Ctl_mod | Ctl_del

record timespec =
  tv_sec :: int
  tv_nsec :: int

type_synonym sigset = "int set"

datatype sig_how = Sig_block | Sig_unblock | Sig_setmask

record 'w ev_calls = "'w fd_calls" +
  sys_epoll_create1 :: "int \<Rightarrow> ('w, int) syscall"
  sys_epoll_ctl :: "int \<Rightarrow> epoll_op \<Rightarrow> int \<Rightarrow> epoll_event option \<Rightarrow> ('w, int) syscall"
  sys_epoll_wait :: "int \<Rightarrow> nat \<Rightarrow> int \<Rightarrow> ('w, int \<times> epoll_event list) syscall"
  sys_eventfd :: "uint32 \<Rightarrow> int \<Rightarrow> ('w, int) syscall"
  sys_timerfd_create :: "int \<Rightarrow> int \<Rightarrow> ('w, int) syscall"
  sys_timerfd_settime :: "int \<Rightarrow> int \<Rightarrow> timespec \<Rightarrow> ('w, int \<times> timespec) syscall"
  sys_steady_now :: "('w, int) syscall"
  sys_sigmask :: "sig_how \<Rightarrow> sigset \<Rightarrow> ('w, int \<times> sigset) syscall"

definition EPOLL_CLOEXEC :: int where "EPOLL_CLOEXEC = 524288"
definition EFD_CLOEXEC :: int where "EFD_CLOEXEC = 524288"
definition EFD_NONBLOCK :: int where "EFD_NONBLOCK = 2048"
definition TFD_CLOEXEC :: int where "TFD_CLOEXEC = 524288"
definition CLOCK_MONOTONIC :: int where "CLOCK_MONOTONIC = 1"

subsection \<open>epoll\<close>

definition zero_epoll_event :: epoll_event where
  "zero_epoll_event = \<lparr>ev_events = 0, ev_data = Data_ptr None\<rparr>"

definition make_epoll_event :: "int \<Rightarrow> uint32 \<Rightarrow> epoll_event" where
  "make_epoll_event fd events = zero_epoll_event\<lparr>ev_events := events, ev_data := Data_fd fd\<rparr>"

definition make_epoll_event_ptr :: "int \<Rightarrow> uint32 \<Rightarrow> nat option \<Rightarrow> epoll_event" where
  "make_epoll_event_ptr fd events context =
     zero_epoll_event\<lparr>ev_events := events, ev_data := Data_ptr context\<rparr>"

definition make_epoll_event_u32 :: "int \<Rightarrow> uint32 \<Rightarrow> uint32 \<Rightarrow> epoll_event" where
  "make_epoll_event_u32 fd events context =
     zero_epoll_event\<lparr>ev_events := events, ev_data := Data_u32 context\<rparr>"

definition make_epoll_event_u64 :: "int \<Rightarrow> uint32 \<Rightarrow> uint64 \<Rightarrow> epoll_event" where
  "make_epoll_event_u64 fd events context =
     zero_epoll_event\<lparr>ev_events := events, ev_data := Data_u64 context\<rparr>"

record epoll =
  epoll_fd :: "unit unique_fd"
  size_events :: size_t

definition epoll_ctor :: "('w, 'x) ev_calls_scheme \<Rightarrow> ('w sys, epoll) cmd" where
  "epoll_ctor K =
     bind_c (call (sys_epoll_create1 K EPOLL_CLOEXEC)) (\<lambda>ret.
     let fd = unique_fd_of ret () in
     if \<not> ufd_bool fd then throw_errno ''epoll_create failed''
     else ret_c \<lparr>epoll_fd = fd, size_events = 0\<rparr>)"

text \<open>
  The methods change the object, so they run on the pair of the object and the system.
\<close>

definition epoll_add_event ::
  "('w, 'x) ev_calls_scheme \<Rightarrow> int \<Rightarrow> epoll_event \<Rightarrow> (epoll \<times> 'w sys, unit) cmd" where
  "epoll_add_event K fd event =
     bind_c (gets_c fst) (\<lambda>e.
     bind_c (beside (call (sys_epoll_ctl K (ufd_get (epoll_fd e)) Ctl_add fd (Some event)))) (\<lambda>ret.
     if ret = - 1 then beside (throw_errno ''epoll_ctl::EPOLL_CTL_ADD failed'')
     else modify_c (\<lambda>(e, s). (e\<lparr>size_events := size_events e + 1\<rparr>, s))))"

definition epoll_add :: "('w, 'x) ev_calls_scheme \<Rightarrow> int \<Rightarrow> uint32 \<Rightarrow> (epoll \<times> 'w sys, unit) cmd" where
  "epoll_add K fd events = epoll_add_event K fd (make_epoll_event fd events)"

definition epoll_add_ptr ::
  "('w, 'x) ev_calls_scheme \<Rightarrow> int \<Rightarrow> uint32 \<Rightarrow> nat option \<Rightarrow> (epoll \<times> 'w sys, unit) cmd" where
  "epoll_add_ptr K fd events context = epoll_add_event K fd (make_epoll_event_ptr fd events context)"

definition epoll_add_u32 ::
  "('w, 'x) ev_calls_scheme \<Rightarrow> int \<Rightarrow> uint32 \<Rightarrow> uint32 \<Rightarrow> (epoll \<times> 'w sys, unit) cmd" where
  "epoll_add_u32 K fd events context = epoll_add_event K fd (make_epoll_event_u32 fd events context)"

definition epoll_add_u64 ::
  "('w, 'x) ev_calls_scheme \<Rightarrow> int \<Rightarrow> uint32 \<Rightarrow> uint64 \<Rightarrow> (epoll \<times> 'w sys, unit) cmd" where
  "epoll_add_u64 K fd events context = epoll_add_event K fd (make_epoll_event_u64 fd events context)"

definition epoll_del_nothrow ::
  "('w, 'x) ev_calls_scheme \<Rightarrow> int \<Rightarrow> (epoll \<times> 'w sys, int syscall_return) cmd" where
  "epoll_del_nothrow K fd =
     bind_c (gets_c fst) (\<lambda>e.
     bind_c (beside (call (sys_epoll_ctl K (ufd_get (epoll_fd e)) Ctl_del fd None))) (\<lambda>ret.
     if ret \<noteq> 0
     then bind_c (beside (gets_c errno)) (\<lambda>err. ret_c (syscall_return_pair err ret))
     else then_c (modify_c (\<lambda>(e, s). (e\<lparr>size_events := size_events e - 1\<rparr>, s)))
       (ret_c (syscall_return_value 0))))"

definition epoll_del :: "('w, 'x) ev_calls_scheme \<Rightarrow> int \<Rightarrow> (epoll \<times> 'w sys, unit) cmd" where
  "epoll_del K fd =
     bind_c (epoll_del_nothrow K fd) (\<lambda>ret.
     if \<not> sr_bool ret
     then throw_c (System_error (errno_value ret) ''epoll_ctl::EPOLL_CTL_DEL failed'')
     else ret_c ())"

definition epoll_mod_event ::
  "('w, 'x) ev_calls_scheme \<Rightarrow> int \<Rightarrow> epoll_event \<Rightarrow> (epoll \<times> 'w sys, unit) cmd" where
  "epoll_mod_event K fd event =
     bind_c (gets_c fst) (\<lambda>e.
     bind_c (beside (call (sys_epoll_ctl K (ufd_get (epoll_fd e)) Ctl_mod fd (Some event)))) (\<lambda>ret.
     if ret = - 1 then beside (throw_errno ''epoll_ctl::EPOLL_CTL_MOD failed'') else ret_c ()))"

definition epoll_mod :: "('w, 'x) ev_calls_scheme \<Rightarrow> int \<Rightarrow> uint32 \<Rightarrow> (epoll \<times> 'w sys, unit) cmd" where
  "epoll_mod K fd events = epoll_mod_event K fd (make_epoll_event fd events)"

definition epoll_mod_ptr ::
  "('w, 'x) ev_calls_scheme \<Rightarrow> int \<Rightarrow> uint32 \<Rightarrow> nat option \<Rightarrow> (epoll \<times> 'w sys, unit) cmd" where
  "epoll_mod_ptr K fd events context = epoll_mod_event K fd (make_epoll_event_ptr fd events context)"

definition epoll_mod_u32 ::
  "('w, 'x) ev_calls_scheme \<Rightarrow> int \<Rightarrow> uint32 \<Rightarrow> uint32 \<Rightarrow> (epoll \<times> 'w sys, unit) cmd" where
  "epoll_mod_u32 K fd events context = epoll_mod_event K fd (make_epoll_event_u32 fd events context)"

definition epoll_mod_u64 ::
  "('w, 'x) ev_calls_scheme \<Rightarrow> int \<Rightarrow> uint32 \<Rightarrow> uint64 \<Rightarrow> (epoll \<times> 'w sys, unit) cmd" where
  "epoll_mod_u64 K fd events context = epoll_mod_event K fd (make_epoll_event_u64 fd events context)"

text \<open>
  The caller's vector is beside the system state: resized to the number of registered descriptors
  (new elements are zero), filled from the front by the kernel, and cut to the number
  of events on success.
\<close>

definition epoll_wait_int ::
  "('w, 'x) ev_calls_scheme \<Rightarrow> epoll \<Rightarrow> int \<Rightarrow> (epoll_event list \<times> 'w sys, unit) cmd" where
  "epoll_wait_int K e timeout =
     then_c (modify_c (\<lambda>(evs, s). (vec_resize zero_epoll_event (unat (size_events e)) evs, s)))
     (bind_c (beside (call (sys_epoll_wait K (ufd_get (epoll_fd e)) (unat (size_events e)) timeout)))
       (\<lambda>(ret, out).
     then_c (modify_c (\<lambda>(evs, s). (std_copy out 0 evs, s)))
     (if ret = - 1 then beside (throw_errno ''epoll_wait failed'')
      else modify_c (\<lambda>(evs, s). (vec_resize zero_epoll_event (nat ret) evs, s)))))"

definition epoll_wait_ref ::
  "('w, 'x) ev_calls_scheme \<Rightarrow> epoll \<Rightarrow> (epoll_event list \<times> 'w sys, unit) cmd" where
  "epoll_wait_ref K e = epoll_wait_int K e (- 1)"

definition epoll_wait_ref_for ::
  "('w, 'x) ev_calls_scheme \<Rightarrow> epoll \<Rightarrow> int \<Rightarrow> (epoll_event list \<times> 'w sys, unit) cmd" where
  "epoll_wait_ref_for K e milliseconds = epoll_wait_int K e (narrow_int milliseconds)"

text \<open>The overloads that return a vector start from an empty one.\<close>

definition with_local :: "'b \<Rightarrow> ('b \<times> 's, unit) cmd \<Rightarrow> ('s, 'b) cmd" where
  "with_local x m = (\<lambda>s. case m (x, s) of
      (Ok _, (x', s')) \<Rightarrow> (Ok x', s')
    | (Throw err, (x', s')) \<Rightarrow> (Throw err, s')
    | (Undefined, (x', s')) \<Rightarrow> (Undefined, s')
    | (Terminated, (x', s')) \<Rightarrow> (Terminated, s'))"

definition epoll_wait :: "('w, 'x) ev_calls_scheme \<Rightarrow> epoll \<Rightarrow> ('w sys, epoll_event list) cmd" where
  "epoll_wait K e = with_local [] (epoll_wait_int K e (- 1))"

definition epoll_wait_for ::
  "('w, 'x) ev_calls_scheme \<Rightarrow> epoll \<Rightarrow> int \<Rightarrow> ('w sys, epoll_event list) cmd" where
  "epoll_wait_for K e milliseconds = with_local [] (epoll_wait_int K e (narrow_int milliseconds))"

definition epoll_wait_nothrow ::
  "('w, 'x) ev_calls_scheme \<Rightarrow> epoll \<Rightarrow> (epoll_event list \<times> 'w sys, int syscall_return) cmd" where
  "epoll_wait_nothrow K e =
     then_c (modify_c (\<lambda>(evs, s). (vec_resize zero_epoll_event (unat (size_events e)) evs, s)))
     (bind_c (beside (call (sys_epoll_wait K (ufd_get (epoll_fd e)) (unat (size_events e)) (- 1))))
       (\<lambda>(ret, out).
     then_c (modify_c (\<lambda>(evs, s). (std_copy out 0 evs, s)))
     (if ret = - 1
      then bind_c (beside (gets_c errno)) (\<lambda>err. ret_c (syscall_return_pair err ret))
      else then_c (modify_c (\<lambda>(evs, s). (vec_resize zero_epoll_event (nat ret) evs, s)))
        (ret_c (syscall_return_value ret)))))"

definition epoll_swap :: "epoll \<Rightarrow> epoll \<Rightarrow> epoll \<times> epoll" where
  "epoll_swap a b =
     (case ufd_swap (epoll_fd a) (epoll_fd b) of (u, v) \<Rightarrow>
        (\<lparr>epoll_fd = u, size_events = size_events b\<rparr>, \<lparr>epoll_fd = v, size_events = size_events a\<rparr>))"

text \<open>The defaulted moves copy the count: the object moved from keeps it beside its closed descriptor.\<close>

definition epoll_move_ctor :: "epoll \<Rightarrow> epoll \<times> epoll" where
  "epoll_move_ctor src =
     (case ufd_move_ctor (epoll_fd src) of (u, v) \<Rightarrow>
        (\<lparr>epoll_fd = u, size_events = size_events src\<rparr>, src\<lparr>epoll_fd := v\<rparr>))"

definition epoll_move_assign :: "'o \<Rightarrow> 'o \<Rightarrow> ('o \<Rightarrow> epoll) \<Rightarrow> ('o \<Rightarrow> epoll)" where
  "epoll_move_assign a b st =
     (let fds = ufd_move_assign a b (\<lambda>x. epoll_fd (st x)); sizes = (\<lambda>x. size_events (st x))(a := size_events (st b))
      in (\<lambda>x. \<lparr>epoll_fd = fds x, size_events = sizes x\<rparr>))"

subsection \<open>eventfd\<close>

text \<open>
  The 8 bytes of a \<^verbatim>\<open>uint64_t\<close> in memory, and back. A local variable whose
  address is passed to the kernel is at the address \<open>stk\<close>.
\<close>

definition store64 :: "bool \<Rightarrow> uint64 \<Rightarrow> byte list" where
  "store64 le v = (let bs = map (\<lambda>i. ucast (drop_bit (8 * i) v)) [0..<8] in if le then bs else rev bs)"

definition load64 :: "bool \<Rightarrow> byte list \<Rightarrow> uint64" where
  "load64 le bs = foldr (\<lambda>b acc. acc * 256 + ucast b) (if le then bs else rev bs) 0"

record eventfd =
  efd :: "unit unique_fd"

definition eventfd_ctor :: "('w, 'x) ev_calls_scheme \<Rightarrow> uint32 \<Rightarrow> int \<Rightarrow> ('w sys, eventfd) cmd" where
  "eventfd_ctor K initvalue flags =
     bind_c (call (sys_eventfd K initvalue (flags OR EFD_CLOEXEC))) (\<lambda>ret.
     let fd = unique_fd_of ret () in
     if \<not> ufd_bool fd then throw_errno ''eventfd system call failed'' else ret_c \<lparr>efd = fd\<rparr>)"

definition eventfd_ctor_flags :: "('w, 'x) ev_calls_scheme \<Rightarrow> int \<Rightarrow> ('w sys, eventfd) cmd" where
  "eventfd_ctor_flags K flags = eventfd_ctor K 0 flags"

definition eventfd_ctor_default :: "('w, 'x) ev_calls_scheme \<Rightarrow> ('w sys, eventfd) cmd" where
  "eventfd_ctor_default K = eventfd_ctor K 0 0"

definition eventfd_fd :: "eventfd \<Rightarrow> int" where
  "eventfd_fd e = ufd_get (efd e)"

definition set_local64 :: "bool \<Rightarrow> addr \<Rightarrow> uint64 \<Rightarrow> ('w sys, unit) cmd" where
  "set_local64 le stk v = modify_c (\<lambda>s. s\<lparr>mem := mem_write (mem s) stk (store64 le v)\<rparr>)"

definition eventfd_write_value ::
  "('w, 'x) ev_calls_scheme \<Rightarrow> bool \<Rightarrow> addr \<Rightarrow> eventfd \<Rightarrow> uint64 \<Rightarrow> ('w sys, unit) cmd" where
  "eventfd_write_value K le stk e v =
     then_c (set_local64 le stk v) (then_c (write_file K (eventfd_fd e) stk 8) (ret_c ()))"

definition eventfd_write ::
  "('w, 'x) ev_calls_scheme \<Rightarrow> bool \<Rightarrow> addr \<Rightarrow> eventfd \<Rightarrow> ('w sys, unit) cmd" where
  "eventfd_write K le stk e =
     then_c (set_local64 le stk 1) (then_c (write_file K (eventfd_fd e) stk 8) (ret_c ()))"

definition eventfd_write_nothrow ::
  "('w, 'x) ev_calls_scheme \<Rightarrow> bool \<Rightarrow> addr \<Rightarrow> eventfd \<Rightarrow> ('w sys, int syscall_return) cmd" where
  "eventfd_write_nothrow K le stk e =
     then_c (set_local64 le stk 1) (write_file_nothrow K (eventfd_fd e) stk 8)"

definition eventfd_write_nothrow_value ::
  "('w, 'x) ev_calls_scheme \<Rightarrow> bool \<Rightarrow> addr \<Rightarrow> eventfd \<Rightarrow> uint64 \<Rightarrow> ('w sys, int syscall_return) cmd" where
  "eventfd_write_nothrow_value K le stk e v =
     then_c (set_local64 le stk v) (write_file_nothrow K (eventfd_fd e) stk 8)"

text \<open>The variable the value is read into is not initialised: its bytes are \<open>junk\<close>.\<close>

definition eventfd_read ::
  "('w, 'x) ev_calls_scheme \<Rightarrow> bool \<Rightarrow> byte list \<Rightarrow> eventfd \<Rightarrow> ('w sys, uint64) cmd" where
  "eventfd_read K le junk e =
     bind_c (call (sys_read K (eventfd_fd e) 8)) (\<lambda>(r, bytes).
     let ret = narrow_int r in
     if ret = - 1 then throw_errno ''eventfd read faild''
     else ret_c (load64 le (std_copy bytes 0 junk)))"

subsection \<open>monotonic_timerfd\<close>

record monotonic_timerfd =
  tfd :: "unit unique_fd"

definition monotonic_timerfd_ctor ::
  "('w, 'x) ev_calls_scheme \<Rightarrow> int \<Rightarrow> ('w sys, monotonic_timerfd) cmd" where
  "monotonic_timerfd_ctor K flags =
     bind_c (call (sys_timerfd_create K CLOCK_MONOTONIC (flags OR TFD_CLOEXEC))) (\<lambda>ret.
     let fd = unique_fd_of ret () in
     if \<not> ufd_bool fd then throw_errno ''timerfd_create system call failed'' else ret_c \<lparr>tfd = fd\<rparr>)"

definition monotonic_timerfd_ctor_default ::
  "('w, 'x) ev_calls_scheme \<Rightarrow> ('w sys, monotonic_timerfd) cmd" where
  "monotonic_timerfd_ctor_default K = monotonic_timerfd_ctor K 0"

definition timerfd_fd :: "monotonic_timerfd \<Rightarrow> int" where
  "timerfd_fd t = ufd_get (tfd t)"

text \<open>
  A \<^verbatim>\<open>std::chrono::duration\<close> over a signed integer: a 64-bit count of periods of \<open>num / den\<close>
  seconds. \<^verbatim>\<open>duration_cast\<close> to units of which a second has \<open>scale\<close> multiplies the count by the
  numerator of the reduced ratio of the two units, as a 64-bit integer and unless it is 1, and divides by the
  denominator, towards zero. A product that does not fit is undefined behaviour.
\<close>

record duration =
  dcount :: int
  dnum :: int
  dden :: int

definition nanoseconds :: "int \<Rightarrow> duration" where
  "nanoseconds n = \<lparr>dcount = n, dnum = 1, dden = 1000000000\<rparr>"

definition fits_long :: "int \<Rightarrow> bool" where
  "fits_long x \<longleftrightarrow> - (2 ^ 63) \<le> x \<and> x < 2 ^ 63"

definition cast_num :: "int \<Rightarrow> duration \<Rightarrow> int" where
  "cast_num scale d = dnum d * scale div gcd (dnum d * scale) (dden d)"

definition cast_den :: "int \<Rightarrow> duration \<Rightarrow> int" where
  "cast_den scale d = dden d div gcd (dnum d * scale) (dden d)"

definition duration_cast :: "int \<Rightarrow> duration \<Rightarrow> int" where
  "duration_cast scale d = (dcount d * cast_num scale d) sdiv cast_den scale d"

definition cast_fits :: "int \<Rightarrow> duration \<Rightarrow> bool" where
  "cast_fits scale d \<longleftrightarrow> cast_num scale d = 1 \<or> fits_long (dcount d * cast_num scale d)"

definition cast_seconds :: "duration \<Rightarrow> int" where
  "cast_seconds d = duration_cast 1 d"

definition cast_nanoseconds :: "duration \<Rightarrow> int" where
  "cast_nanoseconds d = duration_cast 1000000000 d"

text \<open>
  The seconds are cast to nanoseconds once more; that product is not above the nanoseconds of the
  duration themselves and needs no test.
\<close>

definition duration_fits :: "duration \<Rightarrow> bool" where
  "duration_fits d \<longleftrightarrow> cast_fits 1 d \<and> cast_fits 1000000000 d"

lemma duration_fits_nanoseconds [simp]: "duration_fits (nanoseconds n)"
  by (simp add: duration_fits_def cast_fits_def cast_num_def nanoseconds_def)

definition oneshot_spec :: "duration \<Rightarrow> timespec" where
  "oneshot_spec time =
     (let nanosecond_offset = (if dcount time = 0 then 1 else 0);
          seconds = cast_seconds time;
          nanos = cast_nanoseconds time - seconds * 1000000000
      in \<lparr>tv_sec = seconds, tv_nsec = nanosecond_offset + nanos\<rparr>)"

definition set_oneshot_duration ::
  "('w, 'x) ev_calls_scheme \<Rightarrow> monotonic_timerfd \<Rightarrow> duration \<Rightarrow> ('w sys, timespec) cmd" where
  "set_oneshot_duration K t time =
     (if \<not> duration_fits time then undefined_c
      else bind_c (call (sys_timerfd_settime K (timerfd_fd t) 0 (oneshot_spec time))) (\<lambda>(ret, old_spec).
        if ret = - 1 then throw_errno ''timerfd_settime system call failed for given duration''
        else ret_c old_spec))"

definition set_oneshot ::
  "('w, 'x) ev_calls_scheme \<Rightarrow> monotonic_timerfd \<Rightarrow> int \<Rightarrow> ('w sys, timespec) cmd" where
  "set_oneshot K t timeout =
     bind_c (call (sys_steady_now K)) (\<lambda>now.
     if timeout > now then set_oneshot_duration K t (nanoseconds (timeout - now))
     else set_oneshot_duration K t (nanoseconds 1))"

definition timerfd_read ::
  "('w, 'x) ev_calls_scheme \<Rightarrow> bool \<Rightarrow> byte list \<Rightarrow> monotonic_timerfd \<Rightarrow> ('w sys, uint64) cmd" where
  "timerfd_read K le junk t =
     bind_c (read_file K (timerfd_fd t) 8) (\<lambda>(ret, bytes).
     ret_c (load64 le (std_copy bytes 0 junk)))"

subsection \<open>signal_mutex\<close>

record signal_mutex =
  sm_sigset :: sigset
  sm_prev_sigset :: sigset

text \<open>\<open>prev\<close> is the value of the member that the constructors leave uninitialised.\<close>

definition signal_mutex_ctor :: "sigset \<Rightarrow> sigset \<Rightarrow> signal_mutex" where
  "signal_mutex_ctor all_signals prev = \<lparr>sm_sigset = all_signals, sm_prev_sigset = prev\<rparr>"

definition signal_mutex_ctor_set :: "sigset \<Rightarrow> sigset \<Rightarrow> signal_mutex" where
  "signal_mutex_ctor_set sigset prev = \<lparr>sm_sigset = sigset, sm_prev_sigset = prev\<rparr>"

definition signal_mutex_lock ::
  "('w, 'x) ev_calls_scheme \<Rightarrow> (signal_mutex \<times> 'w sys, unit) cmd" where
  "signal_mutex_lock K =
     bind_c (gets_c fst) (\<lambda>m.
     bind_c (beside (call (sys_sigmask K Sig_block (sm_sigset m)))) (\<lambda>(ret, old).
     then_c (if ret = 0 then modify_c (\<lambda>(m, s). (m\<lparr>sm_prev_sigset := old\<rparr>, s)) else ret_c ())
     (if ret \<noteq> 0 then beside (throw_errno ''failed to block signals'') else ret_c ())))"

definition signal_mutex_unlock ::
  "('w, 'x) ev_calls_scheme \<Rightarrow> (signal_mutex \<times> 'w sys, unit) cmd" where
  "signal_mutex_unlock K =
     bind_c (gets_c fst) (\<lambda>m.
     then_c (beside (call (sys_sigmask K Sig_setmask (sm_prev_sigset m)))) (ret_c ()))"

subsection \<open>A kernel without behaviour\<close>

definition idle_ev_calls :: "'w ev_calls" where
  "idle_ev_calls =
     \<lparr>sys_close = (\<lambda>_ s. (0, s)), sys_read = (\<lambda>_ _ s. ((0, []), s)), sys_write = (\<lambda>_ _ _ s. (0, s)),
      sys_open = (\<lambda>_ _ _ s. (3, s)), sys_pipe2 = (\<lambda>_ s. ((0, 3, 4), s)), sys_fcntl = (\<lambda>_ _ _ s. (0, s)),
      sys_epoll_create1 = (\<lambda>_ s. (3, s)), sys_epoll_ctl = (\<lambda>_ _ _ _ s. (0, s)),
      sys_epoll_wait = (\<lambda>_ _ _ s. ((0, []), s)), sys_eventfd = (\<lambda>_ _ s. (4, s)),
      sys_timerfd_create = (\<lambda>_ _ s. (5, s)),
      sys_timerfd_settime = (\<lambda>_ _ _ s. ((0, \<lparr>tv_sec = 0, tv_nsec = 0\<rparr>), s)),
      sys_steady_now = (\<lambda>s. (0, s)), sys_sigmask = (\<lambda>_ _ s. ((0, {}), s))\<rparr>"

end
