(* ===== verification/Nothrow.thy ===== *)
theory Nothrow
  imports Events
begin

text \<open>
  The library offers many calls twice: one overload throws a \<^verbatim>\<open>system_error\<close>, the one that takes
  \<^verbatim>\<open>std::nothrow\<close> returns a \<^verbatim>\<open>syscall_return\<close>. \<open>agrees\<close> is what a caller expects of such
  a pair: on every state both do the same and report the same.
\<close>

definition agrees :: "('s, 'a) cmd \<Rightarrow> ('s, int syscall_return) cmd \<Rightarrow> (int \<Rightarrow> 'a) \<Rightarrow> string \<Rightarrow> bool" where
  "agrees m n conv msg \<longleftrightarrow> (\<forall>s. \<exists>ret s'. n s = (Ok ret, s') \<and>
     m s = (if sr_bool ret then (Ok (conv (return_value ret)), s')
            else (Throw (System_error (errno_value ret) msg), s')))"

lemma agreesI:
  assumes "\<And>s. \<exists>ret s'. n s = (Ok ret, s') \<and>
     m s = (if sr_bool ret then (Ok (conv (return_value ret)), s') else (Throw (System_error (errno_value ret) msg), s'))"
  shows "agrees m n conv msg"
  using assms unfolding agrees_def by blast

text \<open>A system call that fails sets \<^verbatim>\<open>errno\<close>.\<close>

definition failures_set_errno :: "('w, 'x) ev_calls_scheme \<Rightarrow> bool" where
  "failures_set_errno K \<longleftrightarrow>
     (\<forall>fd a n s. fst (sys_write K fd a n s) = - 1 \<longrightarrow> errno (snd (sys_write K fd a n s)) \<noteq> 0) \<and>
     (\<forall>ep n t s. fst (fst (sys_epoll_wait K ep n t s)) = - 1 \<longrightarrow> errno (snd (sys_epoll_wait K ep n t s)) \<noteq> 0) \<and>
     (\<forall>ep fd s. fst (sys_epoll_ctl K ep Ctl_del fd None s) \<noteq> 0 \<longrightarrow> errno (snd (sys_epoll_ctl K ep Ctl_del fd None s)) \<noteq> 0)"

lemma failures_set_errnoD:
  assumes "failures_set_errno K"
  shows "sys_write K fd a n s = (- 1, s') \<Longrightarrow> errno s' \<noteq> 0" "sys_epoll_wait K ep i t s = ((- 1, out), s') \<Longrightarrow> errno s' \<noteq> 0"
    "sys_epoll_ctl K ep Ctl_del fd None s = (r, s') \<Longrightarrow> r \<noteq> 0 \<Longrightarrow> errno s' \<noteq> 0"
  using assms unfolding failures_set_errno_def by (metis fst_conv snd_conv)+

definition path_message :: "string option \<Rightarrow> string" where
  "path_message path = (case path of Some p \<Rightarrow> p | None \<Rightarrow> ''path is null'')"

lemma open_nocloexec_agrees: "agrees (open_nocloexec_mode K path flags mode) (open_nothrow_nocloexec_mode K path flags mode) id (path_message path)"
  by (rule agreesI) (auto simp: open_defs cmd_simps path_message_def syscall_return_defs split: prod.splits)

lemma write_file_agrees:
  assumes "failures_set_errno K"
  shows "agrees (write_file K fd buf len) (write_file_nothrow K fd buf len) to_size ''write failed''"
proof (rule agreesI)
  fix s
  obtain ret s' where w: "sys_write K fd buf len s = (ret, s')" by (metis prod.exhaust)
  with failures_set_errnoD(1) [OF assms, of fd buf len s s']
  show "\<exists>ret s'. write_file_nothrow K fd buf len s = (Ok ret, s') \<and> write_file K fd buf len s =
     (if sr_bool ret then (Ok (to_size (return_value ret)), s') else (Throw (System_error (errno_value ret) ''write failed''), s'))"
    by (auto simp: write_file_def write_file_nothrow_def cmd_simps syscall_return_defs)
qed

text \<open>What is done before, and what becomes of the value, is the same on both sides.\<close>

lemma agrees_after:
  assumes "agrees m n conv msg" and before: "\<And>s. \<exists>s'. b s = (Ok (), s')"
  shows "agrees (then_c b m) (then_c b n) conv msg"
proof (rule agreesI)
  fix s
  obtain s1 where "b s = (Ok (), s1)" using before by blast
  with assms(1) show "\<exists>ret s'. then_c b n s = (Ok ret, s') \<and> then_c b m s =
     (if sr_bool ret then (Ok (conv (return_value ret)), s') else (Throw (System_error (errno_value ret) msg), s'))"
    unfolding agrees_def by (simp add: cmd_simps)
qed

lemma agrees_forget: "agrees m n conv msg \<Longrightarrow> agrees (then_c m (ret_c ())) n (\<lambda>_. ()) msg"
  unfolding agrees_def
  by (rule allI) (drule_tac x = s in spec, auto simp: cmd_simps split: if_splits)

lemma eventfd_write_agrees:
  assumes "failures_set_errno K"
  shows "agrees (eventfd_write K le stk e) (eventfd_write_nothrow K le stk e) (\<lambda>_. ()) ''write failed''"
    and "agrees (eventfd_write_value K le stk e v) (eventfd_write_nothrow_value K le stk e v) (\<lambda>_. ()) ''write failed''"
  unfolding eventfd_write_def eventfd_write_nothrow_def eventfd_write_value_def eventfd_write_nothrow_value_def
  by (rule agrees_after [OF agrees_forget [OF write_file_agrees [OF assms]]], simp add: set_local64_def cmd_simps)+

lemma epoll_wait_agrees:
  assumes "failures_set_errno K"
  shows "agrees (epoll_wait_ref K e) (epoll_wait_nothrow K e) (\<lambda>_. ()) ''epoll_wait failed''"
proof (rule agreesI)
  fix x :: "epoll_event list \<times> 'a sys"
  obtain evs s where x: "x = (evs, s)" by (cases x)
  obtain ret out s' where w: "sys_epoll_wait K (ufd_get (epoll_fd e)) (unat (size_events e)) (- 1) s = ((ret, out), s')"
    by (metis prod.exhaust)
  with failures_set_errnoD(2) [OF assms, of "ufd_get (epoll_fd e)" "unat (size_events e)" "- 1" s out s'] x
  show "\<exists>ret s'. epoll_wait_nothrow K e x = (Ok ret, s') \<and> epoll_wait_ref K e x =
     (if sr_bool ret then (Ok (), s') else (Throw (System_error (errno_value ret) ''epoll_wait failed''), s'))"
    by (auto simp: epoll_wait_nothrow_def epoll_wait_ref_def epoll_wait_int_def cmd_simps syscall_return_defs)
qed

lemma epoll_del_agrees:
  assumes "failures_set_errno K"
  shows "agrees (epoll_del K fd) (epoll_del_nothrow K fd) (\<lambda>_. ()) ''epoll_ctl::EPOLL_CTL_DEL failed''"
proof (rule agreesI)
  fix x :: "epoll \<times> 'a sys"
  obtain e s where x: "x = (e, s)" by (cases x)
  obtain ret s' where c: "sys_epoll_ctl K (ufd_get (epoll_fd e)) Ctl_del fd None s = (ret, s')" by (metis prod.exhaust)
  with failures_set_errnoD(3) [OF assms c] x
  show "\<exists>ret s'. epoll_del_nothrow K fd x = (Ok ret, s') \<and> epoll_del K fd x =
     (if sr_bool ret then (Ok (), s') else (Throw (System_error (errno_value ret) ''epoll_ctl::EPOLL_CTL_DEL failed''), s'))"
    by (auto simp: epoll_del_def epoll_del_nothrow_def cmd_simps syscall_return_defs)
qed

subsection \<open>Properties\<close>

text \<open>
  C37. The throwing and the nothrow overloads of \<^verbatim>\<open>open\<close> (with and without mode and
  \<^verbatim>\<open>O_CLOEXEC\<close>), \<^verbatim>\<open>write\<close>, \<^verbatim>\<open>eventfd::write\<close>,
  \<^verbatim>\<open>epoll::wait\<close> and \<^verbatim>\<open>epoll::del\<close> agree on every state: they leave the same state; one returns the value that
  the other holds, or throws a \<^verbatim>\<open>system_error\<close> with the error number that the other holds. (The nothrow
  overloads of \<^verbatim>\<open>pipe\<close> do not: \<open>pipe_write_stale_errno\<close>.)
\<close>

theorem nothrow_overloads_agree:
  assumes "failures_set_errno K"
  shows "agrees (open_nocloexec_mode K path flags mode) (open_nothrow_nocloexec_mode K path flags mode) id (path_message path)
     \<and> agrees (open_mode K path flags mode) (open_nothrow_mode K path flags mode) id (path_message path)
     \<and> agrees (open_nocloexec K path flags) (open_nothrow_nocloexec K path flags) id (path_message path)
     \<and> agrees (open_flags K path flags) (open_nothrow K path flags) id (path_message path)
     \<and> agrees (write_file K fd buf len) (write_file_nothrow K fd buf len) to_size ''write failed''
     \<and> agrees (eventfd_write K le stk e) (eventfd_write_nothrow K le stk e) (\<lambda>_. ()) ''write failed''
     \<and> agrees (eventfd_write_value K le stk e v) (eventfd_write_nothrow_value K le stk e v) (\<lambda>_. ()) ''write failed''
     \<and> agrees (epoll_wait_ref K ep) (epoll_wait_nothrow K ep) (\<lambda>_. ()) ''epoll_wait failed''
     \<and> agrees (epoll_del K fd) (epoll_del_nothrow K fd) (\<lambda>_. ()) ''epoll_ctl::EPOLL_CTL_DEL failed''"
  unfolding open_mode_def open_nothrow_mode_def open_flags_def open_nothrow_def open_nocloexec_def open_nothrow_nocloexec_def
  by (intro conjI open_nocloexec_agrees write_file_agrees eventfd_write_agrees epoll_wait_agrees epoll_del_agrees assms)

theorem nothrow_overloads_agree_witness:
  "\<exists>ret s'. eventfd_write_nothrow (idle_ev_calls\<lparr>sys_write := (\<lambda>_ _ _ s. (- 1, s\<lparr>errno := EAGAIN\<rparr>))\<rparr>) True 64 \<lparr>efd = unique_fd_of 3 ()\<rparr> (sys0 ())
       = (Ok ret, s') \<and> errno_value ret = EAGAIN \<and>
     eventfd_write (idle_ev_calls\<lparr>sys_write := (\<lambda>_ _ _ s. (- 1, s\<lparr>errno := EAGAIN\<rparr>))\<rparr>) True 64 \<lparr>efd = unique_fd_of 3 ()\<rparr> (sys0 ())
       = (Throw (System_error EAGAIN ''write failed''), s')"
proof -
  let ?K = "idle_ev_calls\<lparr>sys_write := (\<lambda>_ _ _ s. (- 1, s\<lparr>errno := EAGAIN\<rparr>))\<rparr> :: unit ev_calls"
  have "failures_set_errno ?K" by (simp add: failures_set_errno_def idle_ev_calls_def EAGAIN_def)
  from nothrow_overloads_agree [OF this, where le = True and stk = 64 and e = "\<lparr>efd = unique_fd_of 3 ()\<rparr>"]
  have "agrees (eventfd_write ?K True 64 \<lparr>efd = unique_fd_of 3 ()\<rparr>) (eventfd_write_nothrow ?K True 64 \<lparr>efd = unique_fd_of 3 ()\<rparr>)
      (\<lambda>_. ()) ''write failed''" by blast
  then obtain ret s' where "eventfd_write_nothrow ?K True 64 \<lparr>efd = unique_fd_of 3 ()\<rparr> (sys0 ()) = (Ok ret, s')"
    "eventfd_write ?K True 64 \<lparr>efd = unique_fd_of 3 ()\<rparr> (sys0 ()) =
       (if sr_bool ret then (Ok (), s') else (Throw (System_error (errno_value ret) ''write failed''), s'))"
    unfolding agrees_def by blast
  moreover from this(1) have "errno_value ret = EAGAIN" "\<not> sr_bool ret"
    by (auto simp: eventfd_write_nothrow_def set_local64_def write_file_nothrow_def cmd_simps syscall_return_defs EAGAIN_def)
  ultimately show ?thesis by auto
qed

end
