(* ===== verification/Timed.thy ===== *)
theory Timed
  imports Prelude
begin

text \<open>
  Vectors kept in order of time: \<^verbatim>\<open>std::lower_bound\<close> as the library's binary
  search, insertion at an iterator, and the entries of \<^verbatim>\<open>ioloop\<close>'s two vectors of
  timeouts. The locale \<open>timed_queue\<close> is the interface the loop relies on; both vectors interpret it.
\<close>

subsection \<open>Binary search\<close>

text \<open>
  \<^verbatim>\<open>std::lower_bound\<close>: the range starts at \<open>first\<close> and has \<open>len\<close> elements; \<open>below x\<close> is
  \<^verbatim>\<open>x < value\<close>.
\<close>

function lower_bound_from :: "('e \<Rightarrow> bool) \<Rightarrow> 'e list \<Rightarrow> nat \<Rightarrow> nat \<Rightarrow> nat" where
  "lower_bound_from below xs first len =
     (if len = 0 then first
      else let half = len div 2; middle = first + half in
        if below (xs ! middle) then lower_bound_from below xs (middle + 1) (len - half - 1)
        else lower_bound_from below xs first half)"
  by pat_completeness auto
termination by (relation "measure (\<lambda>(below, xs, first, len). len)") auto

declare lower_bound_from.simps [simp del]

definition lower_bound :: "('e \<Rightarrow> bool) \<Rightarrow> 'e list \<Rightarrow> nat" where
  "lower_bound below xs = lower_bound_from below xs 0 (length xs)"

definition insert_at :: "nat \<Rightarrow> 'e \<Rightarrow> 'e list \<Rightarrow> 'e list" where
  "insert_at i e xs = take i xs @ e # drop i xs"

text \<open>A range is partitioned when no element that is not below comes before one that is.\<close>

definition partitioned :: "('e \<Rightarrow> bool) \<Rightarrow> 'e list \<Rightarrow> bool" where
  "partitioned below xs \<longleftrightarrow> (\<forall>i j. i \<le> j \<longrightarrow> j < length xs \<longrightarrow> below (xs ! j) \<longrightarrow> below (xs ! i))"

lemma lower_bound_from_split:
  "first + len \<le> length xs \<Longrightarrow> partitioned below xs \<Longrightarrow>
     (\<forall>i < first. below (xs ! i)) \<Longrightarrow> (\<forall>i. first + len \<le> i \<longrightarrow> i < length xs \<longrightarrow> \<not> below (xs ! i)) \<Longrightarrow>
     (let k = lower_bound_from below xs first len
      in k \<le> length xs \<and> (\<forall>i < k. below (xs ! i)) \<and> (\<forall>i. k \<le> i \<longrightarrow> i < length xs \<longrightarrow> \<not> below (xs ! i)))"
proof (induction below xs first len rule: lower_bound_from.induct)
  case (1 below xs first len)
  let ?m = "first + len div 2"
  show ?case
  proof (cases "len = 0")
    case False
    then have m: "?m < length xs" "len div 2 < len" using 1(3) by simp_all
    show ?thesis
    proof (cases "below (xs ! ?m)")
      case True
      then have "\<forall>i < ?m + 1. below (xs ! i)"
        using 1(4) m unfolding partitioned_def by (metis Suc_eq_plus1 less_Suc_eq_le)
      with 1(1) [OF False refl refl True] 1(3-) m True False show ?thesis
        by (simp add: lower_bound_from.simps [of below xs first len] Let_def)
    next
      case above: False
      then have "\<forall>i. first + len div 2 \<le> i \<longrightarrow> i < length xs \<longrightarrow> \<not> below (xs ! i)"
        using 1(4) unfolding partitioned_def by blast
      with 1(2) [OF False refl refl above] 1(3-) m above False show ?thesis
        by (simp add: lower_bound_from.simps [of below xs first len] Let_def)
    qed
  qed (use 1(3-) in \<open>simp add: lower_bound_from.simps [of below xs first 0] Let_def\<close>)
qed

text \<open>The binary search finds the end of the elements below the value.\<close>

lemma lower_bound_split:
  assumes "partitioned below xs"
  shows "lower_bound below xs \<le> length xs"
    "x \<in> set (take (lower_bound below xs) xs) \<Longrightarrow> below x"
    "x \<in> set (drop (lower_bound below xs) xs) \<Longrightarrow> \<not> below x"
  using lower_bound_from_split [of 0 "length xs" xs below] assms
  by (auto simp: lower_bound_def Let_def in_set_conv_nth)

subsection \<open>The interface of a queue in order of time\<close>

locale timed_queue =
  fixes time_of :: "'e \<Rightarrow> int"
    and put :: "'e \<Rightarrow> 'e list \<Rightarrow> 'e list"
  assumes put_sorted: "sorted (map time_of xs) \<Longrightarrow> sorted (map time_of (put e xs))"
    and put_mset: "mset (put e xs) = add_mset e (mset xs)"
begin

lemma put_all_sorted: "sorted (map time_of xs) \<Longrightarrow> sorted (map time_of (fold put es xs))"
  by (induction es arbitrary: xs) (simp_all add: put_sorted)

lemma put_all_mset: "mset (fold put es xs) = mset es + mset xs"
  by (induction es arbitrary: xs) (simp_all add: put_mset)

lemma set_put: "set (put e xs) = insert e (set xs)"
  by (metis put_mset set_mset_mset set_mset_add_mset_insert)

lemma put_Nil: "put e [] = [e]"
  using put_mset [of e "[]"] by simp

lemma front_earliest:
  "sorted (map time_of xs) \<Longrightarrow> x \<in> set xs \<Longrightarrow> time_of (hd xs) \<le> time_of x"
  by (cases xs) auto

lemma put_front:
  "sorted (map time_of xs) \<Longrightarrow> xs \<noteq> [] \<Longrightarrow>
     time_of (hd (put e xs)) = min (time_of e) (time_of (hd xs))"
proof -
  assume s: "sorted (map time_of xs)" and n: "xs \<noteq> []"
  have p: "put e xs \<noteq> []" using set_put [of e xs] by auto
  have "time_of (hd (put e xs)) \<le> time_of e" "time_of (hd (put e xs)) \<le> time_of (hd xs)"
    using front_earliest [OF put_sorted [OF s]] n by (simp_all add: set_put)
  moreover have "hd (put e xs) = e \<or> time_of (hd xs) \<le> time_of (hd (put e xs))"
    using hd_in_set [OF p] front_earliest [OF s] by (auto simp: set_put)
  ultimately show ?thesis by auto
qed

end

text \<open>Insertion before the first element that is not earlier keeps the order.\<close>

definition put_by_time :: "('e \<Rightarrow> int) \<Rightarrow> 'e \<Rightarrow> 'e list \<Rightarrow> 'e list" where
  "put_by_time time_of e xs = insert_at (lower_bound (\<lambda>x. time_of x < time_of e) xs) e xs"

lemma partitioned_sorted: "sorted (map time_of xs) \<Longrightarrow> partitioned (\<lambda>x. time_of x < (t :: int)) xs"
  unfolding partitioned_def by (auto simp: sorted_iff_nth_mono) (meson le_less_trans)

lemma timed_put_by_time: "timed_queue time_of (put_by_time time_of)"
proof
  fix xs :: "'a list" and e
  assume s: "sorted (map time_of xs)"
  let ?k = "lower_bound (\<lambda>x. time_of x < time_of e) xs"
  note split = lower_bound_split [OF partitioned_sorted [OF s, of "time_of e"]]
  have "sorted (map time_of (take ?k xs @ drop ?k xs))" using s by simp
  then have "sorted (map time_of (take ?k xs))" "sorted (map time_of (drop ?k xs))"
    "\<forall>x\<in>set (take ?k xs). \<forall>y\<in>set (drop ?k xs). time_of x \<le> time_of y"
    unfolding map_append sorted_append by auto
  moreover have "\<forall>x\<in>set (take ?k xs). time_of x \<le> time_of e" by (blast intro: less_imp_le split(2))
  moreover have "\<forall>x\<in>set (drop ?k xs). time_of e \<le> time_of x" by (intro ballI leI notI) (drule split(3), simp)
  ultimately show "sorted (map time_of (put_by_time time_of e xs))"
    by (simp add: put_by_time_def insert_at_def sorted_append)
next
  fix xs :: "'a list" and e
  have "mset (take k xs) + mset (drop k xs) = mset xs" for k
    by (metis append_take_drop_id mset_append)
  then show "mset (put_by_time time_of e xs) = add_mset e (mset xs)"
    by (simp add: put_by_time_def insert_at_def)
qed

subsection \<open>The entries\<close>

text \<open>
  \<^verbatim>\<open>timeout_callback\<close> and \<^verbatim>\<open>periodic_timeout_callback\<close>. A handle
  is its identifier, an \<^verbatim>\<open>unsigned long long\<close>. The callback is a value of an
  arbitrary type that stands for a \<^verbatim>\<open>std::function\<close>.
\<close>

record 'c timeout_callback =
  to_handle :: uint64
  to_timeout :: int
  to_callback :: 'c
  to_remove :: bool

record 'c periodic_timeout_callback =
  pt_handle :: uint64
  pt_period :: int
  pt_timeout :: int
  pt_callback :: 'c
  pt_remove :: bool
  pt_processed :: bool

definition timeout_callback_ctor :: "uint64 \<Rightarrow> int \<Rightarrow> 'c \<Rightarrow> 'c timeout_callback" where
  "timeout_callback_ctor h t cb = \<lparr>to_handle = h, to_timeout = t, to_callback = cb, to_remove = False\<rparr>"

definition periodic_timeout_callback_ctor ::
  "uint64 \<Rightarrow> int \<Rightarrow> int \<Rightarrow> 'c \<Rightarrow> 'c periodic_timeout_callback" where
  "periodic_timeout_callback_ctor h p t cb =
     \<lparr>pt_handle = h, pt_period = p, pt_timeout = t, pt_callback = cb, pt_remove = False,
      pt_processed = False\<rparr>"

text \<open>\<^verbatim>\<open>periodic_timeout_callback::reset\<close>\<close>

definition periodic_reset :: "int \<Rightarrow> 'c periodic_timeout_callback \<Rightarrow> 'c periodic_timeout_callback" where
  "periodic_reset now t = t\<lparr>pt_timeout := now + pt_period t, pt_processed := False\<rparr>"

text \<open>The comparisons of \<^verbatim>\<open>ioloop.hpp\<close>: handles by identifier, entries by time.\<close>

definition timeout_handle_eq :: "uint64 \<Rightarrow> uint64 \<Rightarrow> bool" where
  [simp]: "timeout_handle_eq lhs rhs \<longleftrightarrow> lhs = rhs"

definition timeout_handle_neq :: "uint64 \<Rightarrow> uint64 \<Rightarrow> bool" where
  [simp]: "timeout_handle_neq lhs rhs \<longleftrightarrow> \<not> timeout_handle_eq lhs rhs"

definition periodic_timeout_handle_eq :: "uint64 \<Rightarrow> uint64 \<Rightarrow> bool" where
  [simp]: "periodic_timeout_handle_eq lhs rhs \<longleftrightarrow> lhs = rhs"

definition periodic_timeout_handle_neq :: "uint64 \<Rightarrow> uint64 \<Rightarrow> bool" where
  [simp]: "periodic_timeout_handle_neq lhs rhs \<longleftrightarrow> \<not> periodic_timeout_handle_eq lhs rhs"

definition timeout_callback_less :: "'c timeout_callback \<Rightarrow> 'c timeout_callback \<Rightarrow> bool" where
  [simp]: "timeout_callback_less lhs rhs \<longleftrightarrow> to_timeout lhs < to_timeout rhs"

definition timeout_callback_before :: "'c timeout_callback \<Rightarrow> int \<Rightarrow> bool" where
  [simp]: "timeout_callback_before lhs timeout \<longleftrightarrow> to_timeout lhs < timeout"

definition periodic_callback_less :: "'c periodic_timeout_callback \<Rightarrow> 'c periodic_timeout_callback \<Rightarrow> bool" where
  [simp]: "periodic_callback_less lhs rhs \<longleftrightarrow> pt_timeout lhs < pt_timeout rhs"

definition periodic_callback_before :: "'c periodic_timeout_callback \<Rightarrow> int \<Rightarrow> bool" where
  [simp]: "periodic_callback_before lhs timeout \<longleftrightarrow> pt_timeout lhs < timeout"

definition put_timeout :: "'c timeout_callback \<Rightarrow> 'c timeout_callback list \<Rightarrow> 'c timeout_callback list" where
  "put_timeout e xs = insert_at (lower_bound (\<lambda>x. timeout_callback_less x e) xs) e xs"

definition put_periodic ::
  "'c periodic_timeout_callback \<Rightarrow> 'c periodic_timeout_callback list \<Rightarrow> 'c periodic_timeout_callback list" where
  "put_periodic e xs = insert_at (lower_bound (\<lambda>x. periodic_callback_less x e) xs) e xs"

lemma put_by_its_time: "put_timeout = put_by_time to_timeout" "put_periodic = put_by_time pt_timeout"
  by (simp_all add: fun_eq_iff put_timeout_def put_periodic_def put_by_time_def)

interpretation timeout_q: timed_queue to_timeout put_timeout
  unfolding put_by_its_time by (rule timed_put_by_time)

interpretation periodic_q: timed_queue pt_timeout put_periodic
  unfolding put_by_its_time by (rule timed_put_by_time)

end
