(* ===== verification/Ioloop.thy ===== *)
theory Ioloop
  imports Events Timed
begin

text \<open>
  \<^verbatim>\<open>linuxpp::ioloop\<close>. The methods run on the pair of the loop object and the system
  state. User code is a parameter: a callback and a handler are values of an arbitrary type, and
  \<open>user_code\<close> says what running one does to the pair (it may call the loop's methods). The destructor
  of the third-party \<^verbatim>\<open>ndgpp::bool_sentry\<close> is the parameter \<open>sen\<close>: from the value of
  the flag at its construction to the value it leaves. A node of the
  \<^verbatim>\<open>unordered_map\<close> of handlers has a number, its address; a pointer to a node that
  is no longer in the map dangles. The loop's methods take the kernel and the few other
  parameters in one record, \<open>loop_env\<close>.
\<close>

datatype 'c handler_fn = User_handler 'c | Process_callbacks | Process_stop | Process_timeouts
  | Process_periodic_timeouts

record 'c handler_callback =
  hc_events :: uint32
  hc_callback :: "'c handler_fn"

record 'c handler_node =
  hn_fd :: int
  hn_node :: nat
  hn_value :: "'c handler_callback"

record 'c ioloop =
  stop_eventfd :: eventfd
  timeouts :: "'c timeout_callback list"
  processing_timeouts :: bool
  pending_timeout_additions :: "'c timeout_callback list"
  timeout_timerfd :: monotonic_timerfd
  periodic_timeouts :: "'c periodic_timeout_callback list"
  processing_periodic_timeouts :: bool
  pending_periodic_timeout_additions :: "'c periodic_timeout_callback list"
  periodic_timeout_timerfd :: monotonic_timerfd
  new_callbacks :: "'c list"
  callbacks_eventfd :: eventfd
  handlers :: "'c handler_node list"
  processing_handlers :: bool
  removed_handlers :: "int list"
  epoll_events :: "epoll_event list"
  loop_epoll :: epoll
  keep_running :: bool
  next_timeout_id :: uint64
  next_periodic_id :: uint64
  next_node :: nat

type_synonym ('c, 'w) loop_state = "'c ioloop \<times> 'w sys"

record ('c, 'w) user_code =
  run_callback :: "'c \<Rightarrow> (('c, 'w) loop_state, unit) cmd"
  run_handler :: "'c \<Rightarrow> int \<Rightarrow> uint32 \<Rightarrow> (('c, 'w) loop_state, unit) cmd"

record ('c, 'w) loop_env =
  kern :: "'w ev_calls"
  user :: "('c, 'w) user_code"
  sen :: "bool \<Rightarrow> bool"
  srt :: "'c periodic_timeout_callback list \<Rightarrow> 'c periodic_timeout_callback list"
  host_le :: bool
  local_addr :: addr
  raw8 :: "byte list"

subsection \<open>Plumbing\<close>

definition loop_modify :: "('c ioloop \<Rightarrow> 'c ioloop) \<Rightarrow> (('c, 'w) loop_state, unit) cmd" where
  "loop_modify f = modify_c (\<lambda>(l, s). (f l, s))"

definition loop_get :: "('c ioloop \<Rightarrow> 'a) \<Rightarrow> (('c, 'w) loop_state, 'a) cmd" where
  "loop_get f = gets_c (\<lambda>(l, s). f l)"

text \<open>Run a command of the epoll member, or of the member vector of events.\<close>

definition on_epoll :: "(epoll \<times> 'w sys, 'a) cmd \<Rightarrow> (('c, 'w) loop_state, 'a) cmd" where
  "on_epoll m = (\<lambda>(l, s). case m (loop_epoll l, s) of (r, (e, s')) \<Rightarrow> (r, (l\<lparr>loop_epoll := e\<rparr>, s')))"

definition on_events :: "(epoll_event list \<times> 'w sys, 'a) cmd \<Rightarrow> (('c, 'w) loop_state, 'a) cmd" where
  "on_events m = (\<lambda>(l, s). case m (epoll_events l, s) of (r, (e, s')) \<Rightarrow> (r, (l\<lparr>epoll_events := e\<rparr>, s')))"

text \<open>The scope of a \<^verbatim>\<open>bool_sentry\<close>: its destructor runs however the scope is left.\<close>

definition with_sentry ::
  "(bool \<Rightarrow> bool) \<Rightarrow> ('c ioloop \<Rightarrow> bool) \<Rightarrow> (bool \<Rightarrow> 'c ioloop \<Rightarrow> 'c ioloop)
    \<Rightarrow> (('c, 'w) loop_state, 'a) cmd \<Rightarrow> (('c, 'w) loop_state, 'a) cmd" where
  "with_sentry sn get put m = (\<lambda>(l, s). case m (l, s) of (r, (l', s')) \<Rightarrow> (r, (put (sn (get l)) l', s')))"

lemma loop_modify_run [cmd_simps]: "loop_modify f (l, s) = (Ok (), (f l, s))"
  by (simp add: loop_modify_def cmd_simps)

lemma loop_get_run [cmd_simps]: "loop_get f (l, s) = (Ok (f l), (l, s))"
  by (simp add: loop_get_def cmd_simps)

subsection \<open>Handlers\<close>

definition event_read :: uint32 where "event_read = 1"
definition event_write :: uint32 where "event_write = 2"
definition event_error :: uint32 where "event_error = 4"

definition epoll_events_of :: "uint32 \<Rightarrow> uint32" where
  "epoll_events_of ioloop_events =
     (if and ioloop_events event_read \<noteq> 0 then 1 else 0) OR
     (if and ioloop_events event_write \<noteq> 0 then 4 else 0) OR
     (if and ioloop_events event_error \<noteq> 0 then 8 else 0)"

definition erase_handler :: "int \<Rightarrow> 'c ioloop \<Rightarrow> 'c ioloop" where
  "erase_handler fd l = l\<lparr>handlers := filter (\<lambda>h. hn_fd h \<noteq> fd) (handlers l)\<rparr>"

definition add_handler ::
  "('c, 'w) loop_env \<Rightarrow> int \<Rightarrow> uint32 \<Rightarrow> 'c handler_fn \<Rightarrow> (('c, 'w) loop_state, unit) cmd" where
  "add_handler X fd events callback =
     bind_c (loop_get (\<lambda>l. (find (\<lambda>h. hn_fd h = fd) (handlers l), next_node l))) (\<lambda>(found, node).
     if found \<noteq> None
     then throw_c (Runtime_error ''failed to insert handler: fd is already handled'')
     else then_c (loop_modify (\<lambda>l. l\<lparr>next_node := node + 1,
              handlers := handlers l @ [\<lparr>hn_fd = fd, hn_node = node,
                hn_value = \<lparr>hc_events = events, hc_callback = callback\<rparr>\<rparr>]\<rparr>))
          (catch_c (on_epoll (epoll_add_ptr (kern X) fd (epoll_events_of events) (Some node)))
             (\<lambda>e. then_c (loop_modify (erase_handler fd))
                (throw_c (Nested (Runtime_error ''failed to add fd to epoll'') e)))))"

definition remove_handler :: "('c, 'w) loop_env \<Rightarrow> int \<Rightarrow> (('c, 'w) loop_state, unit) cmd" where
  "remove_handler X fd =
     bind_c (loop_get (\<lambda>l. (find (\<lambda>h. hn_fd h = fd) (handlers l), processing_handlers l)))
       (\<lambda>(found, processing).
     if found = None then ret_c ()
     else if processing then loop_modify (\<lambda>l. l\<lparr>removed_handlers := removed_handlers l @ [fd]\<rparr>)
     else then_c (loop_modify (erase_handler fd))
       (bind_c (on_epoll (epoll_del_nothrow (kern X) fd)) (\<lambda>epoll_ret.
        if \<not> sr_bool epoll_ret \<and> errno_value epoll_ret \<noteq> ENOENT
        then throw_c (System_error (errno_value epoll_ret)
               ''linuxpp::epoll_.del(...) failed in linuxpp::ioloop::remove_handler'')
        else ret_c ())))"

subsection \<open>Callbacks\<close>

definition add_callback :: "('c, 'w) loop_env \<Rightarrow> 'c \<Rightarrow> (('c, 'w) loop_state, unit) cmd" where
  "add_callback X callback =
     then_c (loop_modify (\<lambda>l. l\<lparr>new_callbacks := new_callbacks l @ [callback]\<rparr>))
     (bind_c (loop_get callbacks_eventfd) (\<lambda>e.
      bind_c (beside (eventfd_write_nothrow (kern X) (host_le X) (local_addr X) e)) (\<lambda>ret.
      if \<not> sr_bool ret \<and> errno_value ret \<noteq> EAGAIN
      then throw_c (System_error (errno_value ret) ''failed to write to ioloop's callback eventfd'')
      else ret_c ())))"

definition process_callbacks :: "('c, 'w) loop_env \<Rightarrow> (('c, 'w) loop_state, unit) cmd" where
  "process_callbacks X =
     bind_c (loop_get callbacks_eventfd) (\<lambda>e.
     then_c (beside (eventfd_read (kern X) (host_le X) (raw8 X) e))
     (bind_c (loop_get new_callbacks) (\<lambda>callbacks.
      then_c (loop_modify (\<lambda>l. l\<lparr>new_callbacks := []\<rparr>))
      (for_each (run_callback (user X)) callbacks))))"

definition process_stop :: "('c, 'w) loop_env \<Rightarrow> (('c, 'w) loop_state, unit) cmd" where
  "process_stop X =
     bind_c (loop_get stop_eventfd) (\<lambda>e.
     then_c (beside (eventfd_read (kern X) (host_le X) (raw8 X) e)) (ret_c ()))"

subsection \<open>Timeouts\<close>

definition timeout_handle :: "(('c, 'w) loop_state, uint64) cmd" where
  "timeout_handle =
     bind_c (loop_get next_timeout_id) (\<lambda>id.
     then_c (loop_modify (\<lambda>l. l\<lparr>next_timeout_id := next_timeout_id l + 1\<rparr>)) (ret_c id))"

definition arm_timeouts :: "('c, 'w) loop_env \<Rightarrow> int \<Rightarrow> (('c, 'w) loop_state, unit) cmd" where
  "arm_timeouts X timeout =
     bind_c (loop_get timeout_timerfd) (\<lambda>t.
     then_c (beside (set_oneshot (kern X) t timeout)) (ret_c ()))"

definition insert_timeout :: "int \<Rightarrow> 'c \<Rightarrow> (('c, 'w) loop_state, uint64) cmd" where
  "insert_timeout timeout callback =
     bind_c (loop_get (\<lambda>l. lower_bound (\<lambda>t. timeout_callback_before t timeout) (timeouts l))) (\<lambda>later_timeout.
     bind_c timeout_handle (\<lambda>h.
     then_c (loop_modify (\<lambda>l. l\<lparr>timeouts :=
               insert_at later_timeout (timeout_callback_ctor h timeout callback) (timeouts l)\<rparr>))
     (ret_c h)))"

definition add_timeout :: "('c, 'w) loop_env \<Rightarrow> int \<Rightarrow> 'c \<Rightarrow> (('c, 'w) loop_state, uint64) cmd" where
  "add_timeout X timeout callback =
     bind_c (loop_get (\<lambda>l. (processing_timeouts l, timeouts l))) (\<lambda>(processing, ts).
     if processing
     then bind_c timeout_handle (\<lambda>h.
          then_c (loop_modify (\<lambda>l. l\<lparr>pending_timeout_additions :=
                    pending_timeout_additions l @ [timeout_callback_ctor h timeout callback]\<rparr>))
          (ret_c h))
     else if ts = []
     then bind_c timeout_handle (\<lambda>h.
          then_c (loop_modify (\<lambda>l. l\<lparr>timeouts := [timeout_callback_ctor h timeout callback]\<rparr>))
          (then_c (arm_timeouts X timeout) (ret_c h)))
     else let current_earliest_timeout = to_timeout (hd ts) in
          bind_c (insert_timeout timeout callback) (\<lambda>h.
          then_c (when_c (current_earliest_timeout > timeout) (arm_timeouts X timeout)) (ret_c h)))"

definition add_timeout_delay :: "('c, 'w) loop_env \<Rightarrow> int \<Rightarrow> 'c \<Rightarrow> (('c, 'w) loop_state, uint64) cmd" where
  "add_timeout_delay X delay callback =
     bind_c (beside (call (sys_steady_now (kern X)))) (\<lambda>now. add_timeout X (now + delay) callback)"

text \<open>The first element with the property is changed, or erased.\<close>

fun change_first :: "('e \<Rightarrow> bool) \<Rightarrow> ('e \<Rightarrow> 'e) \<Rightarrow> 'e list \<Rightarrow> 'e list" where
  "change_first p f [] = []"
| "change_first p f (x # xs) = (if p x then f x # xs else x # change_first p f xs)"

fun erase_first :: "('e \<Rightarrow> bool) \<Rightarrow> 'e list \<Rightarrow> 'e list" where
  "erase_first p [] = []"
| "erase_first p (x # xs) = (if p x then xs else x # erase_first p xs)"

definition remove_timeout :: "uint64 \<Rightarrow> (('c, 'w) loop_state, unit) cmd" where
  "remove_timeout h = loop_modify (\<lambda>l.
     if \<exists>t\<in>set (timeouts l). timeout_handle_eq (to_handle t) h
     then if processing_timeouts l
          then l\<lparr>timeouts := change_first (\<lambda>t. timeout_handle_eq (to_handle t) h) (\<lambda>t. t\<lparr>to_remove := True\<rparr>) (timeouts l)\<rparr>
          else l\<lparr>timeouts := erase_first (\<lambda>t. timeout_handle_eq (to_handle t) h) (timeouts l)\<rparr>
     else l\<lparr>pending_timeout_additions := erase_first (\<lambda>t. timeout_handle_eq (to_handle t) h) (pending_timeout_additions l)\<rparr>)"

text \<open>
  The loop over the vector. The iterator is the index \<open>i\<close>, \<open>k\<close> elements are left of the \<open>n\<close>
  the vector had; a vector that changed its length has invalidated the iterator. The result is the
  iterator after the loop: it has been incremented past the element at which the loop breaks.
\<close>

fun timeouts_loop ::
  "('c, 'w) loop_env \<Rightarrow> int \<Rightarrow> nat \<Rightarrow> nat \<Rightarrow> nat \<Rightarrow> (('c, 'w) loop_state, nat) cmd" where
  "timeouts_loop X now n 0 i =
     bind_c (loop_get timeouts) (\<lambda>ts. if length ts \<noteq> n then undefined_c else ret_c i)"
| "timeouts_loop X now n (Suc k) i =
     bind_c (loop_get timeouts) (\<lambda>ts.
     if length ts \<noteq> n then undefined_c
     else let t = ts ! i in
       if to_remove t then timeouts_loop X now n k (i + 1)
       else if to_timeout t \<le> now
       then then_c (run_callback (user X) (to_callback t)) (timeouts_loop X now n k (i + 1))
       else ret_c (i + 1))"

definition process_timeouts :: "('c, 'w) loop_env \<Rightarrow> (('c, 'w) loop_state, unit) cmd" where
  "process_timeouts X =
     then_c (bind_c (loop_get timeout_timerfd) (\<lambda>t.
             then_c (beside (timerfd_read (kern X) (host_le X) (raw8 X) t)) (ret_c ())))
    (then_c (with_sentry (sen X) processing_timeouts (\<lambda>b l. l\<lparr>processing_timeouts := b\<rparr>)
       (then_c (loop_modify (\<lambda>l. l\<lparr>processing_timeouts := True\<rparr>))
        (bind_c (beside (call (sys_steady_now (kern X)))) (\<lambda>now.
         bind_c (loop_get (\<lambda>l. length (timeouts l))) (\<lambda>n.
         bind_c (timeouts_loop X now n n 0) (\<lambda>i.
         loop_modify (\<lambda>l. l\<lparr>timeouts := drop i (timeouts l)\<rparr>)))))))
    (then_c (loop_modify (\<lambda>l. l\<lparr>timeouts := filter (\<lambda>t. \<not> to_remove t) (timeouts l)\<rparr>))
    (then_c (loop_modify (\<lambda>l. l\<lparr>timeouts := fold put_timeout (pending_timeout_additions l) (timeouts l),
                                pending_timeout_additions := []\<rparr>))
     (bind_c (loop_get timeouts) (\<lambda>ts.
      when_c (ts \<noteq> []) (arm_timeouts X (to_timeout (hd ts))))))))"

subsection \<open>Periodic timeouts\<close>

definition periodic_timeout_handle :: "(('c, 'w) loop_state, uint64) cmd" where
  "periodic_timeout_handle =
     bind_c (loop_get next_periodic_id) (\<lambda>id.
     then_c (loop_modify (\<lambda>l. l\<lparr>next_periodic_id := next_periodic_id l + 1\<rparr>)) (ret_c id))"

definition arm_periodic :: "('c, 'w) loop_env \<Rightarrow> int \<Rightarrow> (('c, 'w) loop_state, unit) cmd" where
  "arm_periodic X timeout =
     bind_c (loop_get periodic_timeout_timerfd) (\<lambda>t.
     then_c (beside (set_oneshot (kern X) t timeout)) (ret_c ()))"

definition insert_periodic_timeout ::
  "('c, 'w) loop_env \<Rightarrow> int \<Rightarrow> 'c \<Rightarrow> (('c, 'w) loop_state, uint64) cmd" where
  "insert_periodic_timeout X period callback =
     bind_c (beside (call (sys_steady_now (kern X)))) (\<lambda>now.
     let timeout = now + period in
     bind_c (loop_get (\<lambda>l. lower_bound (\<lambda>t. periodic_callback_before t timeout) (periodic_timeouts l)))
       (\<lambda>later_timeout.
     bind_c periodic_timeout_handle (\<lambda>h.
     then_c (loop_modify (\<lambda>l. l\<lparr>periodic_timeouts :=
               insert_at later_timeout (periodic_timeout_callback_ctor h period timeout callback)
                 (periodic_timeouts l)\<rparr>))
     (ret_c h))))"

text \<open>
  When the vector was empty the handle is taken from the front of the other vector,
  \<open>pending_periodic_timeout_additions\<close>: undefined when that one is empty.
\<close>

definition add_periodic_timeout ::
  "('c, 'w) loop_env \<Rightarrow> int \<Rightarrow> 'c \<Rightarrow> (('c, 'w) loop_state, uint64) cmd" where
  "add_periodic_timeout X period callback =
     bind_c (loop_get (\<lambda>l. (processing_periodic_timeouts l, periodic_timeouts l))) (\<lambda>(processing, ts).
     if processing
     then bind_c periodic_timeout_handle (\<lambda>h.
          bind_c (beside (call (sys_steady_now (kern X)))) (\<lambda>now.
          then_c (loop_modify (\<lambda>l. l\<lparr>pending_periodic_timeout_additions :=
                    pending_periodic_timeout_additions l
                    @ [periodic_timeout_callback_ctor h period (now + period) callback]\<rparr>))
          (ret_c h)))
     else if ts = []
     then bind_c periodic_timeout_handle (\<lambda>h.
          bind_c (beside (call (sys_steady_now (kern X)))) (\<lambda>now.
          then_c (loop_modify (\<lambda>l. l\<lparr>periodic_timeouts :=
                    [periodic_timeout_callback_ctor h period (now + period) callback]\<rparr>))
          (then_c (arm_periodic X (now + period))
          (bind_c (loop_get pending_periodic_timeout_additions) (\<lambda>pending.
           if pending = [] then undefined_c else ret_c (pt_handle (hd pending)))))))
     else let current_earliest_timeout = pt_timeout (hd ts) in
          bind_c (insert_periodic_timeout X period callback) (\<lambda>h.
          bind_c (loop_get (\<lambda>l. pt_timeout (hd (periodic_timeouts l)))) (\<lambda>front.
          then_c (when_c (front < current_earliest_timeout) (arm_periodic X front)) (ret_c h))))"

text \<open>
  A pending entry is erased with its iterator from the wrong vector: undefined.
\<close>

definition remove_periodic_timeout :: "uint64 \<Rightarrow> (('c, 'w) loop_state, unit) cmd" where
  "remove_periodic_timeout h =
     bind_c (loop_get (\<lambda>l. (processing_periodic_timeouts l, periodic_timeouts l,
                            pending_periodic_timeout_additions l))) (\<lambda>(processing, ts, pending).
     if \<exists>t\<in>set ts. periodic_timeout_handle_eq (pt_handle t) h
     then if processing
          then loop_modify (\<lambda>l. l\<lparr>periodic_timeouts :=
                 change_first (\<lambda>t. periodic_timeout_handle_eq (pt_handle t) h) (\<lambda>t. t\<lparr>pt_remove := True\<rparr>) ts\<rparr>)
          else loop_modify (\<lambda>l. l\<lparr>periodic_timeouts := erase_first (\<lambda>t. periodic_timeout_handle_eq (pt_handle t) h) ts\<rparr>)
     else if \<exists>t\<in>set pending. periodic_timeout_handle_eq (pt_handle t) h then undefined_c
     else ret_c ())"

text \<open>
  \<^verbatim>\<open>invoke\<close> marks the entry as processed and calls back; \<^verbatim>\<open>reset\<close> runs
  over the processed entries at the front.
\<close>

definition periodic_invoke :: "('c, 'w) loop_env \<Rightarrow> nat \<Rightarrow> (('c, 'w) loop_state, unit) cmd" where
  "periodic_invoke X i =
     bind_c (loop_get periodic_timeouts) (\<lambda>ts.
     if i < length ts
     then then_c (loop_modify (\<lambda>l. l\<lparr>periodic_timeouts := ts[i := (ts ! i)\<lparr>pt_processed := True\<rparr>]\<rparr>))
         (run_callback (user X) (pt_callback (ts ! i)))
     else undefined_c)"

lemma periodic_invoke_run [cmd_simps]:
  "i < length (periodic_timeouts l) \<Longrightarrow> periodic_invoke X i (l, s) =
     run_callback (user X) (pt_callback (periodic_timeouts l ! i))
       (l\<lparr>periodic_timeouts := (periodic_timeouts l)[i := (periodic_timeouts l ! i)\<lparr>pt_processed := True\<rparr>]\<rparr>, s)"
  by (simp add: periodic_invoke_def cmd_simps)

fun periodic_loop ::
  "('c, 'w) loop_env \<Rightarrow> int \<Rightarrow> nat \<Rightarrow> nat \<Rightarrow> nat \<Rightarrow> (('c, 'w) loop_state, unit) cmd" where
  "periodic_loop X now n 0 i =
     bind_c (loop_get periodic_timeouts) (\<lambda>ts. if length ts \<noteq> n then undefined_c else ret_c ())"
| "periodic_loop X now n (Suc k) i =
     bind_c (loop_get periodic_timeouts) (\<lambda>ts.
     if length ts \<noteq> n then undefined_c
     else let t = ts ! i in
       if pt_remove t then periodic_loop X now n k (i + 1)
       else if pt_timeout t \<le> now
       then then_c (periodic_invoke X i) (periodic_loop X now n k (i + 1))
       else ret_c ())"

fun reset_processed :: "int \<Rightarrow> 'c periodic_timeout_callback list \<Rightarrow> 'c periodic_timeout_callback list" where
  "reset_processed now [] = []"
| "reset_processed now (t # ts) =
     (if pt_processed t then periodic_reset now t # reset_processed now ts else t # ts)"

definition process_periodic_timeouts :: "('c, 'w) loop_env \<Rightarrow> (('c, 'w) loop_state, unit) cmd" where
  "process_periodic_timeouts X =
     then_c (bind_c (loop_get periodic_timeout_timerfd) (\<lambda>t.
             then_c (beside (timerfd_read (kern X) (host_le X) (raw8 X) t)) (ret_c ())))
    (then_c (with_sentry (sen X) processing_periodic_timeouts (\<lambda>b l. l\<lparr>processing_periodic_timeouts := b\<rparr>)
       (then_c (loop_modify (\<lambda>l. l\<lparr>processing_periodic_timeouts := True\<rparr>))
        (bind_c (beside (call (sys_steady_now (kern X)))) (\<lambda>now.
         bind_c (loop_get (\<lambda>l. length (periodic_timeouts l))) (\<lambda>n.
         periodic_loop X now n n 0)))))
    (then_c (loop_modify (\<lambda>l. l\<lparr>periodic_timeouts := filter (\<lambda>t. \<not> pt_remove t) (periodic_timeouts l)\<rparr>))
    (bind_c (beside (call (sys_steady_now (kern X)))) (\<lambda>now.
     then_c (loop_modify (\<lambda>l. l\<lparr>periodic_timeouts := reset_processed now (periodic_timeouts l)\<rparr>))
    (then_c (loop_modify (\<lambda>l. l\<lparr>periodic_timeouts := srt X (periodic_timeouts l)\<rparr>))
    (then_c (loop_modify (\<lambda>l. l\<lparr>periodic_timeouts :=
               fold put_periodic (pending_periodic_timeout_additions l) (periodic_timeouts l),
               pending_periodic_timeout_additions := []\<rparr>))
     (bind_c (loop_get periodic_timeouts) (\<lambda>ts.
      when_c (ts \<noteq> []) (arm_periodic X (pt_timeout (hd ts)))))))))))"

subsection \<open>The loop\<close>

definition run_handler_fn ::
  "('c, 'w) loop_env \<Rightarrow> 'c handler_fn \<Rightarrow> int \<Rightarrow> uint32 \<Rightarrow> (('c, 'w) loop_state, unit) cmd" where
  "run_handler_fn X fn fd events =
     (case fn of
        User_handler h \<Rightarrow> run_handler (user X) h fd events
      | Process_callbacks \<Rightarrow> process_callbacks X
      | Process_stop \<Rightarrow> process_stop X
      | Process_timeouts \<Rightarrow> process_timeouts X
      | Process_periodic_timeouts \<Rightarrow> process_periodic_timeouts X)"

definition dispatch_event :: "('c, 'w) loop_env \<Rightarrow> epoll_event \<Rightarrow> (('c, 'w) loop_state, unit) cmd" where
  "dispatch_event X event =
     (case ev_data event of
        Data_ptr (Some node) \<Rightarrow>
          bind_c (loop_get (\<lambda>l. find (\<lambda>h. hn_node h = node) (handlers l))) (\<lambda>found.
          case found of
            None \<Rightarrow> undefined_c
          | Some h \<Rightarrow> run_handler_fn X (hc_callback (hn_value h)) (hn_fd h) (hc_events (hn_value h)))
      | _ \<Rightarrow> undefined_c)"

definition prune_handler :: "('c, 'w) loop_env \<Rightarrow> int \<Rightarrow> (('c, 'w) loop_state, unit) cmd" where
  "prune_handler X fd =
     bind_c (on_epoll (epoll_del_nothrow (kern X) fd)) (\<lambda>epoll_ret.
     if \<not> sr_bool epoll_ret \<and> errno_value epoll_ret \<noteq> ENOENT
     then throw_c (System_error (errno_value epoll_ret)
            ''linuxpp::ioloop::epoll_.del(...) failed in linuxpp::ioloop::start'')
     else loop_modify (erase_handler fd))"

definition start_iteration :: "('c, 'w) loop_env \<Rightarrow> (('c, 'w) loop_state, unit) cmd" where
  "start_iteration X =
     bind_c (loop_get loop_epoll) (\<lambda>e.
     bind_c (on_events (epoll_wait_nothrow (kern X) e)) (\<lambda>ret.
     if \<not> sr_bool ret \<and> errno_value ret = EINTR then ret_c ()
     else
       then_c (with_sentry (sen X) processing_handlers (\<lambda>b l. l\<lparr>processing_handlers := b\<rparr>)
         (then_c (loop_modify (\<lambda>l. l\<lparr>processing_handlers := True\<rparr>))
          (bind_c (loop_get epoll_events) (for_each (dispatch_event X)))))
       (bind_c (loop_get removed_handlers) (\<lambda>removed.
        if removed = [] then ret_c ()
        else then_c (for_each (prune_handler X) removed)
               (loop_modify (\<lambda>l. l\<lparr>removed_handlers := []\<rparr>))))))"

text \<open>\<open>None\<close>: the loop runs forever.\<close>

partial_function (option) start_loop ::
  "('c, 'w) loop_env \<Rightarrow> ('c, 'w) loop_state \<Rightarrow> (unit res \<times> ('c, 'w) loop_state) option" where
  "start_loop X ls =
     (if \<not> keep_running (fst ls) then Some (Ok (), ls)
      else case start_iteration X ls of
             (Ok _, ls') \<Rightarrow> start_loop X ls'
           | (Throw e, ls') \<Rightarrow> Some (Throw e, ls')
           | (Undefined, ls') \<Rightarrow> Some (Undefined, ls')
           | (Terminated, ls') \<Rightarrow> Some (Terminated, ls'))"

definition start ::
  "('c, 'w) loop_env \<Rightarrow> ('c, 'w) loop_state \<Rightarrow> (unit res \<times> ('c, 'w) loop_state) option" where
  "start X = (\<lambda>(l, s). start_loop X (l\<lparr>keep_running := True\<rparr>, s))"

definition stop :: "('c, 'w) loop_env \<Rightarrow> (('c, 'w) loop_state, unit) cmd" where
  "stop X =
     then_c (loop_modify (\<lambda>l. l\<lparr>keep_running := False\<rparr>))
     (bind_c (loop_get stop_eventfd) (\<lambda>e.
      beside (eventfd_write (kern X) (host_le X) (local_addr X) e)))"

subsection \<open>Construction\<close>

text \<open>
  Members are constructed in the order of their declaration; when a later one or the body throws, those
  already constructed are destroyed, the last one first.
\<close>

definition on_throw :: "('w, unit) syscall \<Rightarrow> ('w sys, 'a) cmd \<Rightarrow> ('w sys, 'a) cmd" where
  "on_throw cleanup m = (\<lambda>s. case m s of (Throw e, s') \<Rightarrow> (Throw e, snd (cleanup s')) | r \<Rightarrow> r)"

definition close_fd :: "('c, 'w) loop_env \<Rightarrow> unit unique_fd \<Rightarrow> ('w, unit) syscall" where
  "close_fd X u = (\<lambda>s. ((), snd (ufd_destroy (default_close (kern X)) u s)))"

text \<open>
  The counters of the handles are static members, which live longer than a loop: \<open>ids\<close> are their values when the
  loop is built.
\<close>

definition empty_loop ::
  "uint64 \<times> uint64 \<Rightarrow> eventfd \<Rightarrow> monotonic_timerfd \<Rightarrow> monotonic_timerfd \<Rightarrow> eventfd \<Rightarrow> epoll \<Rightarrow> 'c ioloop" where
  "empty_loop ids stop_fd timeout_fd periodic_fd callbacks_fd ep =
     \<lparr>stop_eventfd = stop_fd, timeouts = [], processing_timeouts = False,
      pending_timeout_additions = [], timeout_timerfd = timeout_fd,
      periodic_timeouts = [], processing_periodic_timeouts = False,
      pending_periodic_timeout_additions = [], periodic_timeout_timerfd = periodic_fd,
      new_callbacks = [], callbacks_eventfd = callbacks_fd, handlers = [],
      processing_handlers = False, removed_handlers = [], epoll_events = [], loop_epoll = ep,
      keep_running = True, next_timeout_id = fst ids, next_periodic_id = snd ids, next_node = 0\<rparr>"

definition ioloop_body :: "('c, 'w) loop_env \<Rightarrow> (('c, 'w) loop_state, unit) cmd" where
  "ioloop_body X =
     bind_c (loop_get (\<lambda>l. l)) (\<lambda>l.
     then_c (add_handler X (eventfd_fd (callbacks_eventfd l)) event_read Process_callbacks)
    (then_c (add_handler X (eventfd_fd (stop_eventfd l)) event_read Process_stop)
    (then_c (add_handler X (timerfd_fd (timeout_timerfd l)) event_read Process_timeouts)
            (add_handler X (timerfd_fd (periodic_timeout_timerfd l)) event_read Process_periodic_timeouts))))"

definition ioloop_ctor :: "('c, 'w) loop_env \<Rightarrow> uint64 \<times> uint64 \<Rightarrow> ('w sys, 'c ioloop) cmd" where
  "ioloop_ctor X ids =
     bind_c (eventfd_ctor_default (kern X)) (\<lambda>stop_fd. on_throw (close_fd X (efd stop_fd))
    (bind_c (monotonic_timerfd_ctor_default (kern X)) (\<lambda>timeout_fd. on_throw (close_fd X (tfd timeout_fd))
    (bind_c (monotonic_timerfd_ctor_default (kern X)) (\<lambda>periodic_fd. on_throw (close_fd X (tfd periodic_fd))
    (bind_c (eventfd_ctor_flags (kern X) EFD_NONBLOCK) (\<lambda>callbacks_fd. on_throw (close_fd X (efd callbacks_fd))
    (bind_c (epoll_ctor (kern X)) (\<lambda>ep. on_throw (close_fd X (epoll_fd ep))
      (with_local (empty_loop ids stop_fd timeout_fd periodic_fd callbacks_fd ep) (ioloop_body X)))))))))))"

text \<open>The destructor is implicit: the members are destroyed in the reverse order.\<close>

definition ioloop_destroy :: "('c, 'w) loop_env \<Rightarrow> 'c ioloop \<Rightarrow> ('w, unit) syscall" where
  "ioloop_destroy X l = (\<lambda>s.
     let s1 = snd (close_fd X (epoll_fd (loop_epoll l)) s);
         s2 = snd (close_fd X (efd (callbacks_eventfd l)) s1);
         s3 = snd (close_fd X (tfd (periodic_timeout_timerfd l)) s2);
         s4 = snd (close_fd X (tfd (timeout_timerfd l)) s3)
     in close_fd X (efd (stop_eventfd l)) s4)"

end
