(* ===== verification/Event_Props.thy ===== *)
theory Event_Props
  imports Events
begin

text \<open>
  Properties of the event sources: the timer value that \<^verbatim>\<open>set_oneshot\<close> asks for, the signal
  mask around \<^verbatim>\<open>signal_mutex\<close>, and the count of registered descriptors in
  \<^verbatim>\<open>epoll\<close>, which sizes the vector its \<^verbatim>\<open>wait\<close> hands to the
  kernel. \<open>epoll_law\<close> states what the kernel's interest list promises; the event loop relies on it too.
\<close>

subsection \<open>Timers\<close>

lemma sdiv_nonneg: "0 \<le> (a::int) \<Longrightarrow> 0 < b \<Longrightarrow> a sdiv b = a div b"
  by (simp add: signed_divide_int_def sgn_if)

lemma scaled_div_bounds:
  assumes "0 \<le> (a::int)" "0 < b" "0 < n"
  shows "a div b * n \<le> a * n div b" "a * n div b < a div b * n + n"
proof -
  let ?q = "a div b" and ?t = "a mod b * n div b"
  have "a * n = (?q * b + a mod b) * n" by simp
  also have "\<dots> = a mod b * n + ?q * n * b" by (simp only: algebra_simps)
  finally have eq: "a * n div b = ?q * n + ?t" using assms by simp
  have "b * ?t \<le> a mod b * n"
    using mult_div_mod_eq [of b "a mod b * n"] pos_mod_sign [OF assms(2), of "a mod b * n"] by linarith
  also have "\<dots> < b * n" using assms by (simp add: pos_mod_bound)
  finally have "?t < n" using assms by (simp add: mult_less_cancel_left_pos)
  moreover have "0 \<le> ?t" using assms by (simp add: pos_imp_zdiv_nonneg_iff)
  ultimately show "a div b * n \<le> a * n div b" "a * n div b < a div b * n + n" unfolding eq by simp_all
qed

lemma duration_cast_eq:
  assumes "0 \<le> dcount d" "0 < dnum d" "0 < dden d" "0 < scale"
  shows "duration_cast scale d = dcount d * dnum d * scale div dden d" "0 < cast_num scale d" "0 < cast_den scale d"
proof -
  let ?g = "gcd (dnum d * scale) (dden d)"
  have g: "0 < ?g" using assms by simp
  have n: "dnum d * scale = ?g * cast_num scale d" and m: "dden d = ?g * cast_den scale d"
    by (simp_all add: cast_num_def cast_den_def)
  show num: "0 < cast_num scale d" using n assms g by (metis mult_pos_pos zero_less_mult_pos)
  show den: "0 < cast_den scale d" using m assms(3) g by (metis zero_less_mult_pos)
  have "dcount d * dnum d * scale div dden d = ?g * (dcount d * cast_num scale d) div (?g * cast_den scale d)"
    by (metis m n mult.assoc mult.left_commute)
  also have "\<dots> = dcount d * cast_num scale d div cast_den scale d" 
    using g by (intro div_mult_mult1) simp
  finally show "duration_cast scale d = dcount d * dnum d * scale div dden d"
    using assms(1) num den by (simp add: duration_cast_def sdiv_nonneg)
qed

lemma oneshot_spec_split:
  assumes "0 \<le> dcount d" "0 < dnum d" "0 < dden d"
  shows "tv_sec (oneshot_spec d) * 1000000000 + tv_nsec (oneshot_spec d)
       = dcount d * dnum d * 1000000000 div dden d + (if dcount d = 0 then 1 else 0)
     \<and> 0 \<le> tv_sec (oneshot_spec d) \<and> 0 \<le> tv_nsec (oneshot_spec d) \<and> tv_nsec (oneshot_spec d) < 1000000000
     \<and> (tv_sec (oneshot_spec d) = 0 \<and> tv_nsec (oneshot_spec d) = 0
          \<longleftrightarrow> 0 < dcount d \<and> dcount d * dnum d * 1000000000 < dden d)"
proof -
  let ?a = "dcount d * dnum d" and ?b = "dden d"
  have a: "0 \<le> ?a" using assms by simp
  have sec: "cast_seconds d = ?a div ?b" "cast_nanoseconds d = ?a * 1000000000 div ?b"
    using duration_cast_eq [OF assms] by (simp_all add: cast_seconds_def cast_nanoseconds_def)
  note b = scaled_div_bounds [OF a assms(3), of 1000000000]
  have q: "0 \<le> ?a div ?b" using a assms by (simp add: pos_imp_zdiv_nonneg_iff)
  have z: "?a * 1000000000 div ?b = 0 \<longleftrightarrow> ?a * 1000000000 < ?b"
    using assms by (auto simp: zdiv_eq_0_iff)
  show ?thesis
  proof (cases "dcount d = 0")
    case True
    then show ?thesis by (simp add: oneshot_spec_def sec Let_def)
  next
    case False
    with assms have "0 < dcount d" by simp
    with b q z show ?thesis by (auto simp: oneshot_spec_def sec Let_def)
  qed
qed

text \<open>
  C33. What a duration arms the timer with, when the 64-bit products of the conversions fit: the nanoseconds of the
  duration rounded down, in seconds and a nanosecond part below one second, and one nanosecond for a duration of
  zero. The value is zero, which disarms the timer instead, exactly for the durations between zero and one
  nanosecond. The conversion of the seconds back to nanoseconds fits as well. A product that does not fit is
  undefined behaviour, before the system call.
\<close>

theorem oneshot_spec_value:
  assumes "0 \<le> dcount d" "fits_long (dcount d)" "0 < dnum d" "0 < dden d"
  shows "if duration_fits d
     then \<exists>sec nsec. set_oneshot_duration K t d s =
         (case sys_timerfd_settime K (timerfd_fd t) 0 \<lparr>tv_sec = sec, tv_nsec = nsec\<rparr> s of ((ret, old), s') \<Rightarrow>
            (if ret = - 1 then Throw (System_error (errno s') ''timerfd_settime system call failed for given duration'')
             else Ok old, s'))
       \<and> sec * 1000000000 + nsec = dcount d * dnum d * 1000000000 div dden d + (if dcount d = 0 then 1 else 0)
       \<and> 0 \<le> nsec \<and> nsec < 1000000000 \<and> 0 \<le> sec \<and> fits_long (sec * 1000000000)
       \<and> (sec = 0 \<and> nsec = 0 \<longleftrightarrow> 0 < dcount d \<and> dcount d * dnum d * 1000000000 < dden d)
     else set_oneshot_duration K t d s = (Undefined, s)"
proof (cases "duration_fits d")
  case True
  note spec = oneshot_spec_split [OF assms(1,3,4)]
  have eq: "duration_cast 1000000000 d = dcount d * dnum d * 1000000000 div dden d"
    and num: "0 < cast_num 1000000000 d" and den: "0 < cast_den 1000000000 d"
    using duration_cast_eq [OF assms(1,3,4), of 1000000000] by simp_all
  let ?p = "dcount d * cast_num 1000000000 d"
  have p: "0 \<le> ?p" "?p < 2 ^ 63"
    using True assms(1,2) num by (auto simp: duration_fits_def cast_fits_def fits_long_def)
  have "?p div cast_den 1000000000 d \<le> ?p"
    using p(1) den by (metis div_by_1 int_one_le_iff_zero_less zdiv_mono2 zero_less_one)
  then have le: "dcount d * dnum d * 1000000000 div dden d < 2 ^ 63"
    using p den by (simp add: eq [symmetric] duration_cast_def sdiv_nonneg)
  have "tv_sec (oneshot_spec d) * 1000000000 < 2 ^ 63"
    using spec le by (auto split: if_splits)
  then have "fits_long (tv_sec (oneshot_spec d) * 1000000000)" using spec by (simp add: fits_long_def)
  moreover have "set_oneshot_duration K t d s =
      (case sys_timerfd_settime K (timerfd_fd t) 0
         \<lparr>tv_sec = tv_sec (oneshot_spec d), tv_nsec = tv_nsec (oneshot_spec d)\<rparr> s of ((ret, old), s') \<Rightarrow>
         (if ret = - 1 then Throw (System_error (errno s') ''timerfd_settime system call failed for given duration'')
          else Ok old, s'))"
    using True by (cases "oneshot_spec d") (simp add: set_oneshot_duration_def cmd_simps case_prod_beta)
  ultimately show ?thesis unfolding if_P [OF True] using spec by blast
qed (simp add: set_oneshot_duration_def cmd_simps)

theorem oneshot_spec_value_witness:
  "(\<exists>sec nsec. set_oneshot_duration idle_ev_calls \<lparr>tfd = unique_fd_of 3 ()\<rparr> \<lparr>dcount = 1500, dnum = 1, dden = 1000\<rparr> (sys0 ())
       = (Ok (snd (fst (sys_timerfd_settime idle_ev_calls 3 0 \<lparr>tv_sec = sec, tv_nsec = nsec\<rparr> (sys0 ())))), sys0 ())
     \<and> sec * 1000000000 + nsec = 1500000000)
   \<and> set_oneshot_duration idle_ev_calls \<lparr>tfd = unique_fd_of 3 ()\<rparr> \<lparr>dcount = 10000000000, dnum = 1, dden = 1\<rparr> (sys0 ())
       = (Undefined, sys0 ())"
proof -
  have "duration_fits \<lparr>dcount = 1500, dnum = 1, dden = 1000\<rparr>" "\<not> duration_fits \<lparr>dcount = 10000000000, dnum = 1, dden = 1\<rparr>"
    by (simp_all add: duration_fits_def cast_fits_def cast_num_def fits_long_def)
  with oneshot_spec_value [of "\<lparr>dcount = 1500, dnum = 1, dden = 1000\<rparr>" idle_ev_calls "\<lparr>tfd = unique_fd_of 3 ()\<rparr>" "sys0 ()"]
    oneshot_spec_value [of "\<lparr>dcount = 10000000000, dnum = 1, dden = 1\<rparr>" idle_ev_calls "\<lparr>tfd = unique_fd_of 3 ()\<rparr>" "sys0 ()"]
  show ?thesis by (auto simp: fits_long_def idle_ev_calls_def)
qed

text \<open>
  Setting a deadline always arms the timer: the request is the time left, at least one
  nanosecond, also when the deadline has already passed, and it is a valid \<^verbatim>\<open>timespec\<close>.
\<close>

theorem set_oneshot_arms:
  assumes "sys_steady_now K s = (now, s1)"
  shows "\<exists>spec. set_oneshot K t timeout s =
     bind_c (call (sys_timerfd_settime K (timerfd_fd t) 0 spec)) (\<lambda>(ret, old).
       if ret = - 1 then throw_errno ''timerfd_settime system call failed for given duration'' else ret_c old) s1
     \<and> tv_sec spec * 1000000000 + tv_nsec spec = max 1 (timeout - now)
     \<and> 0 \<le> tv_nsec spec \<and> tv_nsec spec < 1000000000 \<and> 0 \<le> tv_sec spec"
proof -
  let ?d = "nanoseconds (if timeout > now then timeout - now else 1)"
  have "tv_sec (oneshot_spec ?d) * 1000000000 + tv_nsec (oneshot_spec ?d) = max 1 (timeout - now)
     \<and> 0 \<le> tv_nsec (oneshot_spec ?d) \<and> tv_nsec (oneshot_spec ?d) < 1000000000 \<and> 0 \<le> tv_sec (oneshot_spec ?d)"
    using oneshot_spec_split [of ?d] by (auto simp: nanoseconds_def max_def)
  with assms show ?thesis
    by (intro exI [of _ "oneshot_spec ?d"]) (simp add: set_oneshot_def set_oneshot_duration_def cmd_simps)
qed

theorem set_oneshot_arms_witness:
  "\<exists>spec. set_oneshot (idle_ev_calls\<lparr>sys_steady_now := (\<lambda>s. (5000000000, s))\<rparr>) \<lparr>tfd = unique_fd_of 3 ()\<rparr>
       6500000000 (sys0 ()) =
     bind_c (call (sys_timerfd_settime (idle_ev_calls\<lparr>sys_steady_now := (\<lambda>s. (5000000000, s))\<rparr>)
       (timerfd_fd \<lparr>tfd = unique_fd_of 3 ()\<rparr>) 0 spec)) (\<lambda>(ret, old).
       if ret = - 1 then throw_errno ''timerfd_settime system call failed for given duration'' else ret_c old)
       (sys0 ())
     \<and> tv_sec spec * 1000000000 + tv_nsec spec = 1500000000"
  using set_oneshot_arms [of "idle_ev_calls\<lparr>sys_steady_now := (\<lambda>s. (5000000000, s))\<rparr>" "sys0 ()" 5000000000 "sys0 ()"
      "\<lparr>tfd = unique_fd_of 3 ()\<rparr>" 6500000000]
  by auto

subsection \<open>The signal mask\<close>

text \<open>\<^verbatim>\<open>pthread_sigmask\<close> on the set \<open>blocked\<close> of signals the thread blocks.\<close>

definition sigmask_law :: "('w, 'x) ev_calls_scheme \<Rightarrow> ('w \<Rightarrow> sigset) \<Rightarrow> bool" where
  "sigmask_law K blocked \<longleftrightarrow>
     (\<forall>m s r old s'. sys_sigmask K Sig_block m s = ((r, old), s') \<longrightarrow> 
         (if r = 0 then old = blocked (world s) \<and> blocked (world s') = blocked (world s) \<union> m else blocked (world s') = blocked (world s))) \<and>
     (\<forall>m s r old s'. sys_sigmask K Sig_setmask m s = ((r, old), s') \<longrightarrow> r = 0 \<and> blocked (world s') = m)"

lemma signal_mutex_lock_mask:
  assumes "sigmask_law K blocked" and "signal_mutex_lock K (m, s) = (r, (m1, s1))"
  shows "(r = Ok () \<and> blocked (world s1) = blocked (world s) \<union> sm_sigset m
       \<and> (\<forall>s2. \<exists>s3. signal_mutex_unlock K (m1, s2) = (Ok (), (m1, s3)) \<and> blocked (world s3) = blocked (world s)))
    \<or> (r = Throw (System_error (errno s1) ''failed to block signals'')
       \<and> m1 = m \<and> blocked (world s1) = blocked (world s))"
proof -
  obtain ret old s' where run: "sys_sigmask K Sig_block (sm_sigset m) s = ((ret, old), s')" by (metis prod.exhaust)
  with assms(1) have law: "if ret = 0 then old = blocked (world s) \<and> blocked (world s') = blocked (world s) \<union> sm_sigset m
      else blocked (world s') = blocked (world s)"
    unfolding sigmask_law_def by blast
  have unlock: "\<exists>s3. signal_mutex_unlock K (m', s2) = (Ok (), (m', s3)) \<and> blocked (world s3) = sm_prev_sigset m'" for m' s2
  proof -
    obtain q o' t where "sys_sigmask K Sig_setmask (sm_prev_sigset m') s2 = ((q, o'), t)" by (metis prod.exhaust)
    with assms(1) show ?thesis
      unfolding sigmask_law_def by (auto simp: signal_mutex_unlock_def cmd_simps)
  qed
  show ?thesis
  proof (cases "ret = 0")
    case True
    with law run assms(2) unlock [of m1] show ?thesis
      by (auto simp: signal_mutex_lock_def cmd_simps)
  qed (use law run assms(2) in \<open>auto simp: signal_mutex_lock_def cmd_simps\<close>)
qed

text \<open>
  A locked \<^verbatim>\<open>signal_mutex\<close> blocks its signals, and unlocking it restores the mask the
  thread had before the lock, whatever the thread did to it in between; when the lock throws, the mask
  and the object are as before.
\<close>

theorem signal_mutex_restores:
  assumes "sigmask_law K blocked" and "signal_mutex_lock K (m, s) = (r, (m1, s1))"
  shows "(r = Ok () \<and> blocked (world s1) = blocked (world s) \<union> sm_sigset m
       \<and> (\<forall>s2. \<exists>s3. signal_mutex_unlock K (m1, s2) = (Ok (), (m1, s3)) \<and> blocked (world s3) = blocked (world s)))
    \<or> (r = Throw (System_error (errno s1) ''failed to block signals'')
       \<and> m1 = m \<and> blocked (world s1) = blocked (world s))"
  using assms by (rule signal_mutex_lock_mask)

theorem signal_mutex_restores_witness:
  "\<exists>m1 s1. signal_mutex_lock
       (idle_ev_calls\<lparr>sys_sigmask := (\<lambda>how m s. ((0, world s),
          s\<lparr>world := (case how of Sig_block \<Rightarrow> world s \<union> m | Sig_setmask \<Rightarrow> m)\<rparr>))\<rparr>)
       (signal_mutex_ctor_set {2, 15} {}, sys0 {10}) = (Ok (), (m1, s1)) \<and> world s1 = {2, 10, 15}"
proof -
  let ?K = "idle_ev_calls\<lparr>sys_sigmask := (\<lambda>how m s. ((0, world s),
          s\<lparr>world := (case how of Sig_block \<Rightarrow> world s \<union> m | Sig_setmask \<Rightarrow> m)\<rparr>))\<rparr> :: sigset ev_calls"
  obtain r m1 s1 where run: "signal_mutex_lock ?K (signal_mutex_ctor_set {2, 15} {}, sys0 {10}) = (r, (m1, s1))"
    by (cases "signal_mutex_lock ?K (signal_mutex_ctor_set {2, 15} {}, sys0 {10})") (auto split: prod.splits)
  have "sigmask_law ?K id" by (auto simp: sigmask_law_def)
  from signal_mutex_restores [OF this run] run show ?thesis
    by (auto simp: signal_mutex_lock_def signal_mutex_ctor_set_def cmd_simps)
qed

subsection \<open>The interest list\<close>

text \<open>
  The kernel's interest list \<open>reg\<close> of the epoll descriptor \<open>ep\<close>: \<^verbatim>\<open>epoll_ctl\<close>
  succeeds with the documented effect or fails without one, and \<^verbatim>\<open>epoll_wait\<close> reports at
  most the number of events it was given room for, each with the data of a registered descriptor.
\<close>

definition epoll_law ::
  "('w, 'x) ev_calls_scheme \<Rightarrow> int \<Rightarrow> ('w \<Rightarrow> (int \<rightharpoonup> epoll_event)) \<Rightarrow> bool" where
  "epoll_law K ep reg \<longleftrightarrow>
     (\<forall>fd ev s r s'. sys_epoll_ctl K ep Ctl_add fd (Some ev) s = (r, s') \<longrightarrow>
        r = 0 \<and> fd \<notin> dom (reg (world s)) \<and> reg (world s') = (reg (world s))(fd \<mapsto> ev)
        \<or> r = - 1 \<and> reg (world s') = reg (world s)) \<and>
     (\<forall>fd ev s r s'. sys_epoll_ctl K ep Ctl_mod fd (Some ev) s = (r, s') \<longrightarrow>
        r = 0 \<and> fd \<in> dom (reg (world s)) \<and> reg (world s') = (reg (world s))(fd \<mapsto> ev)
        \<or> r = - 1 \<and> reg (world s') = reg (world s)) \<and>
     (\<forall>fd s r s'. sys_epoll_ctl K ep Ctl_del fd None s = (r, s') \<longrightarrow>
        r = 0 \<and> fd \<in> dom (reg (world s)) \<and> reg (world s') = (reg (world s))(fd := None)
        \<or> r = - 1 \<and> errno s' \<noteq> 0 \<and> reg (world s') = reg (world s)) \<and>
     (\<forall>n t s r out s'. sys_epoll_wait K ep n t s = ((r, out), s') \<longrightarrow> reg (world s') = reg (world s) \<and>
        (r = - 1 \<and> out = [] \<and> errno s' \<noteq> 0
         \<or> 0 \<le> r \<and> r \<le> int n \<and> length out = nat r \<and>
           (\<forall>e\<in>set out. \<exists>fd ev. reg (world s) fd = Some ev \<and> ev_data e = ev_data ev)))"

lemma epoll_lawD:
  assumes "epoll_law K ep reg"
  shows "sys_epoll_ctl K ep Ctl_add fd (Some ev) s = (r, s') \<Longrightarrow>
        r = 0 \<and> fd \<notin> dom (reg (world s)) \<and> reg (world s') = (reg (world s))(fd \<mapsto> ev)
        \<or> r = - 1 \<and> reg (world s') = reg (world s)"
    and "sys_epoll_ctl K ep Ctl_mod fd (Some ev) s = (r, s') \<Longrightarrow>
        r = 0 \<and> fd \<in> dom (reg (world s)) \<and> reg (world s') = (reg (world s))(fd \<mapsto> ev)
        \<or> r = - 1 \<and> reg (world s') = reg (world s)"
    and "sys_epoll_ctl K ep Ctl_del fd None s = (r, s') \<Longrightarrow>
        r = 0 \<and> fd \<in> dom (reg (world s)) \<and> reg (world s') = (reg (world s))(fd := None)
        \<or> r = - 1 \<and> errno s' \<noteq> 0 \<and> reg (world s') = reg (world s)"
    and "sys_epoll_wait K ep n t s = ((q, out), s') \<Longrightarrow> reg (world s') = reg (world s) \<and>
        (q = - 1 \<and> out = [] \<and> errno s' \<noteq> 0
         \<or> 0 \<le> q \<and> q \<le> int n \<and> length out = nat q \<and>
           (\<forall>e\<in>set out. \<exists>fd ev. reg (world s) fd = Some ev \<and> ev_data e = ev_data ev))"
  using assms unfolding epoll_law_def by simp_all

text \<open>
  A sequence of calls on one object, failures included; the object's count of descriptors agrees
  with the interest list.
\<close>

datatype epoll_call = Ep_add int epoll_event | Ep_mod int epoll_event | Ep_del int

fun epoll_do :: "('w, 'x) ev_calls_scheme \<Rightarrow> epoll_call \<Rightarrow> (epoll \<times> 'w sys, unit) cmd" where
  "epoll_do K (Ep_add fd ev) = epoll_add_event K fd ev"
| "epoll_do K (Ep_mod fd ev) = epoll_mod_event K fd ev"
| "epoll_do K (Ep_del fd) = epoll_del K fd"

definition epoll_run :: "('w, 'x) ev_calls_scheme \<Rightarrow> epoll_call list \<Rightarrow> (epoll \<times> 'w sys, unit) cmd" where
  "epoll_run K = for_each (\<lambda>c. catch_c (epoll_do K c) (\<lambda>_. ret_c ()))"

definition epoll_sized :: "('w \<Rightarrow> (int \<rightharpoonup> epoll_event)) \<Rightarrow> epoll \<times> 'w sys \<Rightarrow> bool" where
  "epoll_sized reg = (\<lambda>(e, s). finite (dom (reg (world s)))
     \<and> size_events e = of_nat (card (dom (reg (world s)))))"

lemma epoll_add_sized:
  assumes law: "epoll_law K (ufd_get (epoll_fd e)) reg" and sz: "epoll_sized reg (e, s)"
    and run: "epoll_add_event K fd ev (e, s) = (r, (e', s'))"
  shows "epoll_sized reg (e', s') \<and> epoll_fd e' = epoll_fd e \<and> r \<noteq> Undefined \<and> r \<noteq> Terminated"
proof -
  obtain ret s1 where c: "sys_epoll_ctl K (ufd_get (epoll_fd e)) Ctl_add fd (Some ev) s = (ret, s1)"
    by (metis prod.exhaust)
  from epoll_lawD(1) [OF law c] consider "ret = 0" "fd \<notin> dom (reg (world s))" "reg (world s1) = (reg (world s))(fd \<mapsto> ev)"
    | "ret = - 1" "reg (world s1) = reg (world s)"
    by (elim disjE conjE)
  then show ?thesis
    by cases (use run c sz in \<open>auto simp: epoll_add_event_def cmd_simps epoll_sized_def card_insert_if\<close>)
qed

lemma epoll_mod_sized:
  assumes law: "epoll_law K (ufd_get (epoll_fd e)) reg" and sz: "epoll_sized reg (e, s)"
    and run: "epoll_mod_event K fd ev (e, s) = (r, (e', s'))"
  shows "epoll_sized reg (e', s') \<and> epoll_fd e' = epoll_fd e \<and> r \<noteq> Undefined \<and> r \<noteq> Terminated"
proof -
  obtain ret s1 where c: "sys_epoll_ctl K (ufd_get (epoll_fd e)) Ctl_mod fd (Some ev) s = (ret, s1)"
    by (metis prod.exhaust)
  from epoll_lawD(2) [OF law c] consider "ret = 0" "fd \<in> dom (reg (world s))" "reg (world s1) = (reg (world s))(fd \<mapsto> ev)"
    | "ret = - 1" "reg (world s1) = reg (world s)"
    by (elim disjE conjE)
  then show ?thesis
    by cases (use run c sz in \<open>auto simp: epoll_mod_event_def cmd_simps epoll_sized_def card_insert_if insert_absorb\<close>)
qed

lemma epoll_del_cases:
  assumes law: "epoll_law K (ufd_get (epoll_fd e)) reg"
  obtains (gone) s' where "epoll_del_nothrow K fd (e, s) = (Ok (syscall_return_value 0), (e\<lparr>size_events := size_events e - 1\<rparr>, s'))"
      "fd \<in> dom (reg (world s))" "reg (world s') = (reg (world s))(fd := None)"
  | (failed) err s' where "epoll_del_nothrow K fd (e, s) = (Ok (syscall_return_pair err (- 1)), (e, s'))"
      "err \<noteq> 0" "reg (world s') = reg (world s)"
proof -
  obtain ret s1 where c: "sys_epoll_ctl K (ufd_get (epoll_fd e)) Ctl_del fd None s = (ret, s1)"
    by (metis prod.exhaust)
  from epoll_lawD(3) [OF law c] consider "ret = 0" "fd \<in> dom (reg (world s))" "reg (world s1) = (reg (world s))(fd := None)"
    | "ret = - 1" "errno s1 \<noteq> 0" "reg (world s1) = reg (world s)"
    by (elim disjE conjE)
  then show thesis
    by cases (use c gone failed in \<open>auto simp: epoll_del_nothrow_def cmd_simps\<close>)
qed

lemma epoll_sized_del:
  assumes "epoll_sized reg (e, s)" "fd \<in> dom (reg (world s))" "reg (world s') = (reg (world s))(fd := None)"
  shows "epoll_sized reg (e\<lparr>size_events := size_events e - 1\<rparr>, s')"
proof -
  have "0 < card (dom (reg (world s)))" using assms by (auto simp: epoll_sized_def card_gt_0_iff)
  with assms show ?thesis by (simp add: epoll_sized_def card_Diff_singleton of_nat_diff)
qed

lemma epoll_del_sized:
  assumes law: "epoll_law K (ufd_get (epoll_fd e)) reg" and sz: "epoll_sized reg (e, s)"
    and run: "epoll_del K fd (e, s) = (r, (e', s'))"
  shows "epoll_sized reg (e', s') \<and> epoll_fd e' = epoll_fd e \<and> r \<noteq> Undefined \<and> r \<noteq> Terminated"
  using law
proof (cases rule: epoll_del_cases [where fd = fd and s = s])
  case (gone s1)
  with run epoll_sized_del [OF sz gone(2,3)] show ?thesis
    by (auto simp: epoll_del_def cmd_simps)
next
  case (failed err s1)
  with run sz show ?thesis by (auto simp: epoll_del_def cmd_simps epoll_sized_def)
qed

text \<open>
  C32. The count of registered descriptors is right: over any sequence of \<^verbatim>\<open>add\<close>,
  \<^verbatim>\<open>mod\<close> and \<^verbatim>\<open>del\<close> calls, of which any may fail and throw, the member
  \<open>size_events\<close> equals the size of the kernel's interest list, so \<^verbatim>\<open>wait\<close> always has
  room for every descriptor that can be ready.
\<close>

theorem epoll_size_tracks:
  assumes "epoll_law K (ufd_get (epoll_fd e)) reg" and "epoll_sized reg (e, s)"
  shows "\<exists>e' s'. epoll_run K cs (e, s) = (Ok (), (e', s')) \<and> epoll_sized reg (e', s')
     \<and> ufd_get (epoll_fd e') = ufd_get (epoll_fd e)"
  using assms
proof (induction cs arbitrary: e s)
  case (Cons c cs)
  obtain r e1 s1 where run: "epoll_do K c (e, s) = (r, (e1, s1))" by (metis prod.exhaust)
  with Cons.prems have one: "epoll_sized reg (e1, s1) \<and> epoll_fd e1 = epoll_fd e \<and> r \<noteq> Undefined \<and> r \<noteq> Terminated"
    using epoll_add_sized epoll_mod_sized epoll_del_sized by (cases c) (simp_all, blast+)
  with Cons.prems Cons.IH [of e1 s1] run show ?case
    by (cases r) (auto simp: epoll_run_def cmd_simps)
qed (simp add: epoll_run_def cmd_simps)

theorem epoll_size_tracks_witness:
  "\<exists>e' s'. epoll_run (idle_ev_calls\<lparr>sys_epoll_ctl := (\<lambda>ep op fd ev s.
        (case (op, ev) of
           (Ctl_add, Some e) \<Rightarrow> if world s fd = None then (0, s\<lparr>world := (world s)(fd \<mapsto> e)\<rparr>) else (- 1, s\<lparr>errno := 17\<rparr>)
         | (Ctl_mod, Some e) \<Rightarrow> if world s fd \<noteq> None then (0, s\<lparr>world := (world s)(fd \<mapsto> e)\<rparr>) else (- 1, s\<lparr>errno := 2\<rparr>)
         | _ \<Rightarrow> if world s fd \<noteq> None then (0, s\<lparr>world := (world s)(fd := None)\<rparr>) else (- 1, s\<lparr>errno := 2\<rparr>)))\<rparr>)
       [Ep_add 4 zero_epoll_event, Ep_add 4 zero_epoll_event, Ep_del 7]
       (\<lparr>epoll_fd = unique_fd_of 3 (), size_events = 0\<rparr>, sys0 Map.empty) = (Ok (), (e', s'))
     \<and> epoll_sized id (e', s')"
proof -
  let ?K = "idle_ev_calls\<lparr>sys_epoll_ctl := (\<lambda>ep op fd ev s.
        (case (op, ev) of
           (Ctl_add, Some e) \<Rightarrow> if world s fd = None then (0, s\<lparr>world := (world s)(fd \<mapsto> e)\<rparr>) else (- 1, s\<lparr>errno := 17\<rparr>)
         | (Ctl_mod, Some e) \<Rightarrow> if world s fd \<noteq> None then (0, s\<lparr>world := (world s)(fd \<mapsto> e)\<rparr>) else (- 1, s\<lparr>errno := 2\<rparr>)
         | _ \<Rightarrow> if world s fd \<noteq> None then (0, s\<lparr>world := (world s)(fd := None)\<rparr>) else (- 1, s\<lparr>errno := 2\<rparr>)))\<rparr>
       :: (int \<rightharpoonup> epoll_event) ev_calls"
  have "epoll_law ?K ep id" for ep
    by (auto simp: epoll_law_def idle_ev_calls_def split: if_splits)
  moreover have "epoll_sized id (\<lparr>epoll_fd = unique_fd_of 3 (), size_events = 0\<rparr>, sys0 Map.empty)"
    by (simp add: epoll_sized_def)
  ultimately show ?thesis using epoll_size_tracks by blast
qed

end
