(* ===== verification/Ioloop_Timeouts.thy ===== *)
theory Ioloop_Timeouts
  imports Ioloop Event_Props
begin

text \<open>
  The one-shot timeouts of \<^verbatim>\<open>ioloop\<close>. User code is any code that acts on the
  loop through its public methods: \<open>api_step\<close> is one such action, and \<open>api_invariant\<close> is the contract of
  a property of the loop that every action keeps; callbacks and the loops that run them then keep it
  too. While \<^verbatim>\<open>process_timeouts\<close> runs its callbacks the vector of timeouts is frozen up to
  the removal flags, so its iterator stays valid. The vector stays in order of time, and the timer is armed
  whenever a timeout waits. The last theorem shows the entry that
  \<^verbatim>\<open>process_timeouts\<close> erases without having called it.
\<close>

subsection \<open>Commands that leave a part of the loop alone\<close>

named_theorems leaves_intros \<open>commands that leave a part of the loop alone\<close>

definition leaves :: "('c ioloop \<Rightarrow> 'a) \<Rightarrow> (('c, 'w) loop_state, 'b) cmd \<Rightarrow> bool" where
  "leaves f m \<longleftrightarrow> (\<forall>l s. f (fst (snd (m (l, s)))) = f l)"

lemma leavesD: "leaves f m \<Longrightarrow> m x = (r, y) \<Longrightarrow> f (fst y) = f (fst x)"
  unfolding leaves_def by (cases x) (metis fst_conv snd_conv)

lemma leavesI: "(\<And>x r y. m x = (r, y) \<Longrightarrow> f (fst y) = f (fst x)) \<Longrightarrow> leaves f m"
  unfolding leaves_def by (metis fst_conv prod.collapse)

lemma leaves_basic [leaves_intros]:
  "leaves f (ret_c v)" "leaves f (throw_c e)" "leaves f undefined_c" "leaves f (loop_get g)" "leaves f (beside m)"
  by (simp_all add: leaves_def cmd_simps)

lemma leaves_modify [leaves_intros]: "(\<And>l. f (g l) = f l) \<Longrightarrow> leaves f (loop_modify g)"
  by (simp add: leaves_def cmd_simps)

lemma leaves_bind [leaves_intros]:
  assumes m: "leaves f m" and g: "\<And>v. leaves f (g v)"
  shows "leaves f (bind_c m g)"
proof (rule leavesI)
  fix x r y assume run: "bind_c m g x = (r, y)"
  obtain r1 y1 where m1: "m x = (r1, y1)" by (metis prod.exhaust)
  from leavesD [OF m m1] run m1 show "f (fst y) = f (fst x)"
    by (cases r1) (auto simp: cmd_simps dest: leavesD [OF g])
qed

lemma leaves_then [leaves_intros]: "leaves f m \<Longrightarrow> leaves f n \<Longrightarrow> leaves f (then_c m n)"
  unfolding then_c_def by (rule leaves_bind)

lemma leaves_catch [leaves_intros]:
  assumes m: "leaves f m" and h: "\<And>e. leaves f (h e)"
  shows "leaves f (catch_c m h)"
proof (rule leavesI)
  fix x r y assume run: "catch_c m h x = (r, y)"
  obtain r1 y1 where m1: "m x = (r1, y1)" by (metis prod.exhaust)
  from leavesD [OF m m1] run m1 show "f (fst y) = f (fst x)"
    by (cases r1) (auto simp: cmd_simps dest: leavesD [OF h])
qed

lemma leaves_when [leaves_intros]: "leaves f m \<Longrightarrow> leaves f (when_c b m)"
  by (simp add: when_c_def leaves_intros)

lemma leaves_if [leaves_intros]: "leaves f m \<Longrightarrow> leaves f n \<Longrightarrow> leaves f (if b then m else n)"
  by simp

lemma leaves_case [leaves_intros]: "(\<And>a b. leaves f (g a b)) \<Longrightarrow> leaves f (case p of (a, b) \<Rightarrow> g a b)"
  by (cases p) simp

lemma leaves_let [leaves_intros]: "leaves f (g v) \<Longrightarrow> leaves f (let w = v in g w)"
  by simp

lemma leaves_on_epoll [leaves_intros]: "(\<And>l e. f (l\<lparr>loop_epoll := e\<rparr>) = f l) \<Longrightarrow> leaves f (on_epoll m)"
  by (simp add: leaves_def on_epoll_def split: prod.splits)


text \<open>The part of the loop that belongs to the timeouts, and what leaves it alone.\<close>

definition timeout_part :: "'c ioloop \<Rightarrow> 'c timeout_callback list \<times> bool \<times> 'c timeout_callback list" where
  "timeout_part l = (timeouts l, processing_timeouts l, pending_timeout_additions l)"

lemma leaves_timeout_part:
  "leaves timeout_part (add_handler X fd ev cb)" "leaves timeout_part (remove_handler X fd)"
  "leaves timeout_part (add_callback X c)" "leaves timeout_part (stop X)"
  "leaves timeout_part (add_periodic_timeout X p c)" "leaves timeout_part (remove_periodic_timeout h)"
  "leaves timeout_part timeout_handle" "leaves timeout_part periodic_timeout_handle"
  unfolding add_handler_def remove_handler_def erase_handler_def add_callback_def stop_def
    add_periodic_timeout_def insert_periodic_timeout_def timeout_handle_def periodic_timeout_handle_def arm_periodic_def
    remove_periodic_timeout_def
  by (auto intro!: leaves_intros simp: timeout_part_def)

lemmas leaves_timeoutD = leaves_timeout_part [THEN leavesD]

lemma leaves_timerfd:
  "leaves timeout_timerfd (add_handler X fd ev cb)" "leaves timeout_timerfd (remove_handler X fd)"
  "leaves timeout_timerfd (add_callback X c)" "leaves timeout_timerfd (stop X)"
  "leaves timeout_timerfd (add_periodic_timeout X p c)" "leaves timeout_timerfd (remove_periodic_timeout h)"
  "leaves timeout_timerfd timeout_handle" "leaves timeout_timerfd periodic_timeout_handle"
  unfolding add_handler_def remove_handler_def erase_handler_def add_callback_def stop_def
    add_periodic_timeout_def insert_periodic_timeout_def timeout_handle_def periodic_timeout_handle_def arm_periodic_def
    remove_periodic_timeout_def
  by (auto intro!: leaves_intros)

lemmas leaves_timerfdD = leaves_timerfd [THEN leavesD]

subsection \<open>User code\<close>

text \<open>
  What user code may do: change the rest of the system, within \<open>ok\<close>, or call a public method of the
  loop (other than \<^verbatim>\<open>start\<close>, which would run the loop inside itself), whether it returns
  or throws; the calls on periodic timeouts that are undefined behaviour are left out. Constructing a handle, which other
  loops of the thread do too, advances the static counter.
\<close>

inductive api_step ::
  "('c, 'w) loop_env \<Rightarrow> ('w sys \<Rightarrow> 'w sys \<Rightarrow> bool) \<Rightarrow> ('c, 'w) loop_state \<Rightarrow> ('c, 'w) loop_state \<Rightarrow> bool"
  for X ok where
  outside: "ok s s' \<Longrightarrow> api_step X ok (l, s) (l, s')"
| call_add_handler: "add_handler X fd ev (User_handler h) x = (r, y) \<Longrightarrow> api_step X ok x y"
| call_remove_handler: "remove_handler X fd x = (r, y) \<Longrightarrow> api_step X ok x y"
| call_add_callback: "add_callback X c x = (r, y) \<Longrightarrow> api_step X ok x y"
| call_add_timeout: "add_timeout X t c x = (r, y) \<Longrightarrow> api_step X ok x y"
| call_add_timeout_delay: "add_timeout_delay X d c x = (r, y) \<Longrightarrow> api_step X ok x y"
| call_remove_timeout: "remove_timeout k x = (r, y) \<Longrightarrow> api_step X ok x y"
| call_add_periodic: "add_periodic_timeout X p c x = (r, y) \<Longrightarrow> r \<noteq> Undefined \<Longrightarrow> api_step X ok x y"
| call_remove_periodic: "remove_periodic_timeout k x = (r, y) \<Longrightarrow> r \<noteq> Undefined \<Longrightarrow> api_step X ok x y"
| call_stop: "stop X x = (r, y) \<Longrightarrow> api_step X ok x y"
| new_timeout_handle: "timeout_handle x = (r, y) \<Longrightarrow> api_step X ok x y"
| new_periodic_handle: "periodic_timeout_handle x = (r, y) \<Longrightarrow> api_step X ok x y"

text \<open>Every callback and every handler returns or throws after finitely many such actions.\<close>

definition api_code :: "('c, 'w) loop_env \<Rightarrow> ('w sys \<Rightarrow> 'w sys \<Rightarrow> bool) \<Rightarrow> bool" where
  "api_code X ok \<longleftrightarrow>
     (\<forall>c x r y. run_callback (user X) c x = (r, y) \<longrightarrow> r \<noteq> Undefined \<and> r \<noteq> Terminated \<and> (api_step X ok)\<^sup>*\<^sup>* x y) \<and>
     (\<forall>h fd ev x r y. run_handler (user X) h fd ev x = (r, y) \<longrightarrow> r \<noteq> Undefined \<and> r \<noteq> Terminated \<and> (api_step X ok)\<^sup>*\<^sup>* x y)"

text \<open>The vector of timeouts while it is processed: as it was, up to the removal flags.\<close>

definition unflag :: "'c timeout_callback \<Rightarrow> 'c timeout_callback" where
  "unflag t = t\<lparr>to_remove := False\<rparr>"

definition frozen :: "'c timeout_callback list \<Rightarrow> 'c ioloop \<Rightarrow> bool" where
  "frozen ts l \<longleftrightarrow> processing_timeouts l \<and> map unflag (timeouts l) = map unflag ts"

lemma map_change_first: "(\<And>t. g (h t) = g t) \<Longrightarrow> map g (change_first p h ts) = map g ts"
  by (induction ts) simp_all

lemma add_timeout_processing:
  assumes "processing_timeouts (fst x)" "add_timeout X t c x = (r, y)"
  shows "\<exists>h. r = Ok h \<and> timeouts (fst y) = timeouts (fst x) \<and> processing_timeouts (fst y)
     \<and> pending_timeout_additions (fst y) = pending_timeout_additions (fst x) @ [timeout_callback_ctor h t c]"
  using assms by (cases x) (auto simp: add_timeout_def timeout_handle_def cmd_simps)

lemma api_step_frozen: "api_step X ok x y \<Longrightarrow> frozen ts (fst x) \<Longrightarrow> frozen ts (fst y)"
proof (induction rule: api_step.induct)
  case (call_add_timeout t c x r y)
  then show ?case using add_timeout_processing [of x X t c r y] by (auto simp: frozen_def)
next
  case (call_add_timeout_delay d c x r y)
  then obtain t x1 where "add_timeout X t c x1 = (r, y)" "fst x1 = fst x"
    by (cases x) (auto simp: add_timeout_delay_def cmd_simps)
  with call_add_timeout_delay show ?case
    using add_timeout_processing [of x1 X t c r y] by (auto simp: frozen_def)
next
  case (call_remove_timeout k x r y)
  then show ?case
    by (cases x) (auto simp: remove_timeout_def frozen_def cmd_simps map_change_first unflag_def)
qed (auto dest!: leaves_timeoutD
     simp: timeout_part_def frozen_def)


definition defined :: "'a res \<Rightarrow> bool" where
  "defined r \<longleftrightarrow> r \<noteq> Undefined \<and> r \<noteq> Terminated"

text \<open>An invariant of the public methods holds after every callback, and after the loops over callbacks.\<close>

locale api_invariant =
  fixes X :: "('c, 'w) loop_env" and ok :: "'w sys \<Rightarrow> 'w sys \<Rightarrow> bool" and I :: "('c, 'w) loop_state \<Rightarrow> bool"
  assumes api_keeps: "api_step X ok x y \<Longrightarrow> I x \<Longrightarrow> I y"

sublocale api_invariant \<subseteq> step_invariant "api_step X ok" I
  by unfold_locales (rule api_keeps)

context api_invariant
begin

lemma callback_keeps:
  assumes "api_code X ok" "run_callback (user X) c x = (r, y)" "I x"
  shows "I y \<and> defined r"
  using assms kept_star unfolding api_code_def defined_def by blast

lemma handler_keeps:
  assumes "api_code X ok" "run_handler (user X) h fd ev x = (r, y)" "I x"
  shows "I y \<and> defined r"
  using assms kept_star unfolding api_code_def defined_def by blast

lemma callbacks_keep:
  assumes "api_code X ok"
  shows "for_each (run_callback (user X)) cs x = (r, y) \<Longrightarrow> I x \<Longrightarrow> I y \<and> defined r"
proof (induction cs arbitrary: x)
  case (Cons c cs)
  obtain r1 y1 where c: "run_callback (user X) c x = (r1, y1)" by (metis prod.exhaust)
  from callback_keeps [OF assms c] Cons show ?case
    using c by (cases r1) (auto simp: cmd_simps defined_def)
qed (auto simp: cmd_simps defined_def)

lemma timeouts_loop_keeps:
  assumes "api_code X ok"
  shows "timeouts_loop X now n k i x = (r, y) \<Longrightarrow> I x \<Longrightarrow> I y"
proof (induction k arbitrary: i x)
  case 0
  then show ?case by (cases x) (auto simp: cmd_simps split: if_splits)
next
  case (Suc k)
  obtain l s where x: "x = (l, s)" by (cases x)
  let ?t = "timeouts l ! i"
  obtain r1 y1 where c: "run_callback (user X) (to_callback ?t) (l, s) = (r1, y1)" by (metis prod.exhaust)
  from callback_keeps [OF assms c] Suc x c show ?case
    by (cases r1) (auto simp: cmd_simps Let_def split: if_splits)
qed

end

interpretation frozen_inv: api_invariant X ok "\<lambda>x. frozen ts (fst x)" for X ok ts
  by unfold_locales (rule api_step_frozen)

lemma api_step_timerfd: "api_step X ok x y \<Longrightarrow> timeout_timerfd (fst y) = timeout_timerfd (fst x)"
proof (induction rule: api_step.induct)
  case (call_add_timeout t c x r y)
  have "leaves timeout_timerfd (add_timeout X t c)"
    unfolding add_timeout_def insert_timeout_def timeout_handle_def arm_timeouts_def
    by (auto intro!: leaves_intros)
  from leavesD [OF this call_add_timeout] show ?case .
next
  case (call_add_timeout_delay d c x r y)
  have "leaves timeout_timerfd (add_timeout_delay X d c)"
    unfolding add_timeout_delay_def add_timeout_def insert_timeout_def timeout_handle_def arm_timeouts_def
    by (auto intro!: leaves_intros)
  from leavesD [OF this call_add_timeout_delay] show ?case .
next
  case (call_remove_timeout k x r y)
  have "leaves timeout_timerfd (remove_timeout k)"
    unfolding remove_timeout_def by (auto intro!: leaves_intros)
  from leavesD [OF this call_remove_timeout] show ?case .
qed (auto dest!: leaves_timerfdD)

interpretation timerfd_inv: api_invariant X ok "\<lambda>x. timeout_timerfd (fst x) = t" for X ok t
  by unfold_locales (simp add: api_step_timerfd)

lemma frozen_nth: "frozen ts l \<Longrightarrow> i < length ts \<Longrightarrow> to_timeout (timeouts l ! i) = to_timeout (ts ! i)"
  unfolding frozen_def unflag_def
  by (metis (no_types, lifting) length_map nth_map timeout_callback.select_convs(2) timeout_callback.surjective
      timeout_callback.update_convs(4))

lemma frozen_length: "frozen ts l \<Longrightarrow> length (timeouts l) = length ts"
  unfolding frozen_def by (metis length_map)

lemma frozen_times: "frozen ts l \<Longrightarrow> map to_timeout (timeouts l) = map to_timeout ts"
  by (rule nth_equalityI) (simp_all add: frozen_length frozen_nth)

lemma timeouts_loop_frozen:
  assumes "api_code X ok"
  shows "frozen ts (fst x) \<Longrightarrow> i + k = length ts \<Longrightarrow> timeouts_loop X now (length ts) k i x = (r, y) \<Longrightarrow>
     frozen ts (fst y) \<and> r \<noteq> Undefined \<and> r \<noteq> Terminated"
proof (induction k arbitrary: i x)
  case 0
  then show ?case by (cases x) (auto simp: cmd_simps frozen_length)
next
  case (Suc k)
  obtain l s where x: "x = (l, s)" by (cases x)
  let ?t = "timeouts l ! i"
  have len: "length (timeouts l) = length ts" using Suc.prems(1) x by (simp add: frozen_length)
  show ?case
  proof (cases "to_remove ?t \<or> now < to_timeout ?t")
    case True
    with Suc.prems x len Suc.IH [of x "i + 1"] show ?thesis
      by (auto simp: cmd_simps Let_def split: if_splits)
  next
    case False
    obtain r1 y1 where c: "run_callback (user X) (to_callback ?t) (l, s) = (r1, y1)" by (metis prod.exhaust)
    from frozen_inv.callback_keeps [OF assms c, of ts] Suc.prems x len False c Suc.IH [of y1 "i + 1"]
    show ?thesis by (cases r1) (auto simp: cmd_simps Let_def defined_def)
  qed
qed

lemma arm_timeouts_defined: "arm_timeouts X t (l, s) = (r, y) \<Longrightarrow> defined r \<and> fst y = l"
  by (auto simp: arm_timeouts_def set_oneshot_def set_oneshot_duration_def cmd_simps defined_def
      split: prod.splits if_splits res.splits)

lemma timerfd_read_defined: "timerfd_read K le j t s = (r, s') \<Longrightarrow> defined r"
  by (auto simp: timerfd_read_def read_file_def cmd_simps defined_def split: prod.splits if_splits res.splits)


text \<open>The part of \<^verbatim>\<open>process_timeouts\<close> after the scope of the sentry.\<close>

definition finish_timeouts :: "('c, 'w) loop_env \<Rightarrow> (('c, 'w) loop_state, unit) cmd" where
  "finish_timeouts X =
     then_c (loop_modify (\<lambda>l. l\<lparr>timeouts := filter (\<lambda>t. \<not> to_remove t) (timeouts l)\<rparr>))
    (then_c (loop_modify (\<lambda>l. l\<lparr>timeouts := fold put_timeout (pending_timeout_additions l) (timeouts l),
                                pending_timeout_additions := []\<rparr>))
     (bind_c (loop_get timeouts) (\<lambda>ts.
      when_c (ts \<noteq> []) (arm_timeouts X (to_timeout (hd ts))))))"

definition finished_timeouts :: "'c ioloop \<Rightarrow> 'c ioloop" where
  "finished_timeouts l = l\<lparr>timeouts := fold put_timeout (pending_timeout_additions l)
       (filter (\<lambda>t. \<not> to_remove t) (timeouts l)), pending_timeout_additions := []\<rparr>"

lemma finish_timeouts_run:
  "finish_timeouts X (l, s) =
     (let l' = finished_timeouts l
      in if timeouts l' = [] then (Ok (), (l', s)) else arm_timeouts X (to_timeout (hd (timeouts l'))) (l', s))"
  by (simp add: finish_timeouts_def finished_timeouts_def cmd_simps Let_def)

lemma finished_timeouts_sorted:
  "sorted (map to_timeout (timeouts l)) \<Longrightarrow> sorted (map to_timeout (timeouts (finished_timeouts l)))"
  by (simp add: finished_timeouts_def timeout_q.put_all_sorted sorted_filter)

lemma finish_timeouts_defined:
  "finish_timeouts X (l, s) = (r, (l', s')) \<Longrightarrow> defined r \<and> l' = finished_timeouts l"
  by (auto simp: finish_timeouts_run Let_def defined_def split: if_splits dest: arm_timeouts_defined)

text \<open>The scope of the sentry.\<close>

definition expire_timeouts :: "('c, 'w) loop_env \<Rightarrow> (('c, 'w) loop_state, unit) cmd" where
  "expire_timeouts X =
     with_sentry (sen X) processing_timeouts (\<lambda>b l. l\<lparr>processing_timeouts := b\<rparr>)
       (then_c (loop_modify (\<lambda>l. l\<lparr>processing_timeouts := True\<rparr>))
        (bind_c (beside (call (sys_steady_now (kern X)))) (\<lambda>now.
         bind_c (loop_get (\<lambda>l. length (timeouts l))) (\<lambda>n.
         bind_c (timeouts_loop X now n n 0) (\<lambda>i.
         loop_modify (\<lambda>l. l\<lparr>timeouts := drop i (timeouts l)\<rparr>))))))"

lemma process_timeouts_split:
  "process_timeouts X (l, s) =
     (case timerfd_read (kern X) (host_le X) (raw8 X) (timeout_timerfd l) s of
        (Ok v, s1) \<Rightarrow> then_c (expire_timeouts X) (finish_timeouts X) (l, s1)
      | (Throw e, s1) \<Rightarrow> (Throw e, (l, s1))
      | (Undefined, s1) \<Rightarrow> (Undefined, (l, s1))
      | (Terminated, s1) \<Rightarrow> (Terminated, (l, s1)))"
  by (simp add: process_timeouts_def expire_timeouts_def finish_timeouts_def cmd_simps split: prod.splits res.splits)

lemma expire_timeouts_frozen:
  assumes "api_code X ok" "sen X False = False" "\<not> processing_timeouts l"
    and "expire_timeouts X (l, s) = (r, (l', s'))"
  shows "defined r \<and> \<not> processing_timeouts l' \<and> timeout_timerfd l' = timeout_timerfd l
    \<and> (\<exists>i. map to_timeout (timeouts l') = drop i (map to_timeout (timeouts l)))"
proof -
  let ?l = "l\<lparr>processing_timeouts := True\<rparr>" and ?n = "length (timeouts l)"
  obtain now s1 where now: "sys_steady_now (kern X) s = (now, s1)" by (metis prod.exhaust)
  obtain ri l1 s2 where loop: "timeouts_loop X now ?n ?n 0 (?l, s1) = (ri, (l1, s2))" by (metis prod.exhaust)
  have "frozen (timeouts l) ?l" by (simp add: frozen_def)
  with timeouts_loop_frozen [OF assms(1) _ _ loop]
  have fr: "frozen (timeouts l) l1" and ok: "ri \<noteq> Undefined" "ri \<noteq> Terminated" by auto
  have "r = (case ri of Ok i \<Rightarrow> Ok () | Throw e \<Rightarrow> Throw e | _ \<Rightarrow> Undefined)"
    and l': "l' = (case ri of Ok i \<Rightarrow> l1\<lparr>timeouts := drop i (timeouts l1)\<rparr> | _ \<Rightarrow> l1)\<lparr>processing_timeouts := False\<rparr>"
    using assms(2-4) now loop ok by (cases ri; simp add: expire_timeouts_def with_sentry_def cmd_simps)+
  moreover have "\<exists>i. map to_timeout (timeouts l') = drop i (map to_timeout (timeouts l))"
    using l' frozen_times [OF fr] by (cases ri) (auto simp flip: drop_map intro: exI [of _ 0])
  moreover have "timeout_timerfd l1 = timeout_timerfd l"
    using timerfd_inv.timeouts_loop_keeps [OF assms(1) loop, of "timeout_timerfd l"] by simp
  ultimately show ?thesis using ok by (cases ri) (auto simp: defined_def)
qed

subsection \<open>Which callbacks run\<close>

text \<open>
  Callbacks that do not act on the loop: \<open>eff\<close> is their effect on the system. An entry is due when
  the loop goes past it.
\<close>

definition quiet :: "('c, 'w) loop_env \<Rightarrow> ('c \<Rightarrow> 'w sys \<Rightarrow> 'w sys) \<Rightarrow> bool" where
  "quiet X eff \<longleftrightarrow> (\<forall>c l s. run_callback (user X) c (l, s) = (Ok (), (l, eff c s)))"

definition due :: "int \<Rightarrow> 'c timeout_callback \<Rightarrow> bool" where
  "due now t \<longleftrightarrow> to_remove t \<or> to_timeout t \<le> now"

definition call_all :: "('c \<Rightarrow> 'w sys \<Rightarrow> 'w sys) \<Rightarrow> 'c timeout_callback list \<Rightarrow> 'w sys \<Rightarrow> 'w sys" where
  "call_all eff ts = fold (\<lambda>t. eff (to_callback t)) (filter (\<lambda>t. \<not> to_remove t) ts)"

lemma timeouts_loop_quiet:
  assumes "quiet X eff"
  shows "i + k = length (timeouts l) \<Longrightarrow>
     timeouts_loop X now (length (timeouts l)) k i (l, s) =
       (Ok (min (length (timeouts l)) (i + length (takeWhile (due now) (drop i (timeouts l))) + 1)),
        (l, call_all eff (takeWhile (due now) (drop i (timeouts l))) s))"
proof (induction k arbitrary: i s)
  case 0
  then show ?case by (simp add: cmd_simps call_all_def)
next
  case (Suc k)
  let ?t = "timeouts l ! i"
  have d: "drop i (timeouts l) = ?t # drop (Suc i) (timeouts l)"
    using Suc.prems by (simp add: Cons_nth_drop_Suc)
  have IH: "timeouts_loop X now (length (timeouts l)) k (Suc i) (l, s') =
       (Ok (min (length (timeouts l)) (Suc i + length (takeWhile (due now) (drop (Suc i) (timeouts l))) + 1)),
        (l, call_all eff (takeWhile (due now) (drop (Suc i) (timeouts l))) s'))" for s'
    using Suc.IH [of "Suc i"] Suc.prems by simp
  show ?case
    using Suc.prems assms unfolding d quiet_def
    by (auto simp: cmd_simps IH due_def [of now ?t] call_all_def Let_def)
qed

lemma process_timeouts_quiet:
  assumes q: "quiet X eff" and "sen X False = False" "\<not> processing_timeouts l"
    and rd: "timerfd_read (kern X) (host_le X) (raw8 X) (timeout_timerfd l) s = (Ok v, s1)"
    and now: "sys_steady_now (kern X) s1 = (now, s2)"
  shows "process_timeouts X (l, s) =
     finish_timeouts X (l\<lparr>timeouts := drop 1 (dropWhile (due now) (timeouts l))\<rparr>,
       call_all eff (takeWhile (due now) (timeouts l)) s2)"
proof -
  let ?l = "l\<lparr>processing_timeouts := True\<rparr>"
  have restored: "l\<lparr>processing_timeouts := True, timeouts := u, processing_timeouts := False\<rparr> = l\<lparr>timeouts := u\<rparr>" for u
    using assms(3) by simp
  have "drop (min (length ts) (Suc (length (takeWhile p ts)))) ts = drop 1 (dropWhile p ts)" for p and ts :: "'a timeout_callback list"
    by (simp add: dropWhile_eq_drop min_def)
  with timeouts_loop_quiet [OF q, of 0 "length (timeouts l)" ?l now s2]
  have "expire_timeouts X (l, s1) = (Ok (), (l\<lparr>timeouts := drop 1 (dropWhile (due now) (timeouts l))\<rparr>,
       call_all eff (takeWhile (due now) (timeouts l)) s2))"
    using assms(2,3) now by (simp add: expire_timeouts_def with_sentry_def cmd_simps restored)
  with rd show ?thesis by (simp add: process_timeouts_split cmd_simps)
qed

subsection \<open>The timer is armed\<close>

text \<open>
  \<^verbatim>\<open>timerfd_settime\<close> fails without an effect, or arms the timer for a value that is
  not zero and disarms it for zero; reading the clock does not change it.
\<close>

definition timer_law :: "('w, 'x) ev_calls_scheme \<Rightarrow> int \<Rightarrow> ('w \<Rightarrow> bool) \<Rightarrow> bool" where
  "timer_law K fd armed \<longleftrightarrow>
     (\<forall>spec s r old s'. sys_timerfd_settime K fd 0 spec s = ((r, old), s') \<longrightarrow>
        r = - 1 \<and> armed (world s') = armed (world s)
        \<or> r = 0 \<and> armed (world s') = (tv_sec spec \<noteq> 0 \<or> tv_nsec spec \<noteq> 0)) \<and>
     (\<forall>s. armed (world (snd (sys_steady_now K s))) = armed (world s))"

text \<open>Between the loop's activities: in order, and armed when a timeout waits.\<close>

definition timeouts_ready :: "('w \<Rightarrow> bool) \<Rightarrow> ('c, 'w) loop_state \<Rightarrow> bool" where
  "timeouts_ready armed = (\<lambda>(l, s). \<not> processing_timeouts l \<and> sorted (map to_timeout (timeouts l))
     \<and> (timeouts l \<noteq> [] \<longrightarrow> armed (world s)))"

lemma oneshot_positive:
  "0 < n \<Longrightarrow> tv_sec (oneshot_spec (nanoseconds n)) \<noteq> 0 \<or> tv_nsec (oneshot_spec (nanoseconds n)) \<noteq> 0"
  using oneshot_spec_split [of "nanoseconds n"] by (auto simp: nanoseconds_def)

lemma set_oneshot_armed:
  assumes "timer_law K (timerfd_fd t) armed" "set_oneshot K t timeout s = (Ok v, s')"
  shows "armed (world s')"
proof -
  obtain now s1 where now: "sys_steady_now K s = (now, s1)" by (metis prod.exhaust)
  define d where "d = nanoseconds (if now < timeout then timeout - now else 1)"
  obtain r old s2 where set: "sys_timerfd_settime K (timerfd_fd t) 0 (oneshot_spec d) s1 = ((r, old), s2)"
    by (metis prod.exhaust)
  have "set_oneshot_duration K t d s1 = (Ok v, s')"
    using assms(2) now by (simp add: set_oneshot_def cmd_simps d_def split: if_splits)
  with set have "r \<noteq> - 1" "s2 = s'" by (auto simp: set_oneshot_duration_def cmd_simps split: if_splits)
  moreover have "tv_sec (oneshot_spec d) \<noteq> 0 \<or> tv_nsec (oneshot_spec d) \<noteq> 0"
    unfolding d_def by (rule oneshot_positive) simp
  ultimately show ?thesis using assms(1) set unfolding timer_law_def by blast
qed

lemma arm_timeouts_armed:
  assumes "timer_law (kern X) (timerfd_fd (timeout_timerfd l)) armed" "arm_timeouts X t (l, s) = (Ok (), (l', s'))"
  shows "l' = l \<and> armed (world s')"
proof -
  obtain r s1 where run: "set_oneshot (kern X) (timeout_timerfd l) t s = (r, s1)" by (metis prod.exhaust)
  with assms(2) have "\<exists>v. r = Ok v" "l' = l" "s' = s1"
    by (cases r; auto simp: arm_timeouts_def cmd_simps)+
  with set_oneshot_armed [OF assms(1)] run show ?thesis by auto
qed

text \<open>
  When the timer expires: \<open>dl\<close> is its deadline and \<open>clk\<close> the monotonic clock, which only moves
  forward. A reading of the clock lies between its values before and after; a relative \<^verbatim>\<open>timerfd_settime\<close> fails
  without an effect, or sets the deadline to its value after some moment during the call, or disarms for zero.
\<close>

definition deadline_law ::
  "('w, 'x) ev_calls_scheme \<Rightarrow> int \<Rightarrow> ('w \<Rightarrow> int option) \<Rightarrow> ('w \<Rightarrow> int) \<Rightarrow> bool" where
  "deadline_law K fd dl clk \<longleftrightarrow>
     (\<forall>s now s'. sys_steady_now K s = (now, s') \<longrightarrow>
        clk (world s) \<le> now \<and> now \<le> clk (world s') \<and> dl (world s') = dl (world s)) \<and>
     (\<forall>spec s r old s'. sys_timerfd_settime K fd 0 spec s = ((r, old), s') \<longrightarrow> clk (world s) \<le> clk (world s') \<and>
        (r = - 1 \<and> dl (world s') = dl (world s)
         \<or> r = 0 \<and> (let n = tv_sec spec * 1000000000 + tv_nsec spec in
             if n = 0 then dl (world s') = None
             else \<exists>at. clk (world s) \<le> at \<and> at \<le> clk (world s') \<and> dl (world s') = Some (at + n))))"

definition due_at :: "('w \<Rightarrow> int option) \<Rightarrow> ('w \<Rightarrow> int) \<Rightarrow> int \<Rightarrow> int \<Rightarrow> 'w sys \<Rightarrow> bool" where
  "due_at dl clk lag t s \<longleftrightarrow>
     (case dl (world s) of None \<Rightarrow> False | Some d \<Rightarrow> t \<le> d \<and> d \<le> max t (clk (world s) + 1) + lag)"

definition timer_due ::
  "('w \<Rightarrow> int option) \<Rightarrow> ('w \<Rightarrow> int) \<Rightarrow> int \<Rightarrow> ('c, 'w) loop_state \<Rightarrow> bool" where
  "timer_due dl clk lag = (\<lambda>(l, s). \<not> processing_timeouts l \<and> sorted (map to_timeout (timeouts l))
     \<and> (timeouts l \<noteq> [] \<longrightarrow> due_at dl clk lag (to_timeout (hd (timeouts l))) s))"

lemma set_oneshot_due:
  assumes law: "deadline_law K (timerfd_fd t) dl clk" and run: "set_oneshot K t timeout s = (Ok v, s')"
    and lag: "clk (world s') - clk (world s) \<le> lag"
  shows "due_at dl clk lag timeout s'"
proof -
  obtain now s1 where now: "sys_steady_now K s = (now, s1)" by (metis prod.exhaust)
  define d where "d = nanoseconds (if now < timeout then timeout - now else 1)"
  obtain r old s2 where set: "sys_timerfd_settime K (timerfd_fd t) 0 (oneshot_spec d) s1 = ((r, old), s2)"
    by (metis prod.exhaust)
  have "set_oneshot_duration K t d s1 = (Ok v, s')"
    using run now by (simp add: set_oneshot_def cmd_simps d_def split: if_splits)
  with set have r: "r \<noteq> - 1" "s2 = s'" by (auto simp: set_oneshot_duration_def cmd_simps split: if_splits)
  have n: "tv_sec (oneshot_spec d) * 1000000000 + tv_nsec (oneshot_spec d) = max 1 (timeout - now)"
    using oneshot_spec_split [of d] by (auto simp: d_def nanoseconds_def max_def)
  have clk: "clk (world s) \<le> now" "now \<le> clk (world s1)"
    using law now unfolding deadline_law_def by blast+
  have "let n = max 1 (timeout - now) in if n = 0 then dl (world s') = None
      else \<exists>at. clk (world s1) \<le> at \<and> at \<le> clk (world s') \<and> dl (world s') = Some (at + n)"
    using law set r unfolding deadline_law_def n [symmetric] by blast
  moreover have "max 1 (timeout - now) \<noteq> 0" by simp
  ultimately obtain at where "clk (world s1) \<le> at" "at \<le> clk (world s')"
    "dl (world s') = Some (at + max 1 (timeout - now))"
    unfolding Let_def by metis
  then show ?thesis using clk lag by (auto simp: due_at_def max_def)
qed

lemma arm_timeouts_due:
  assumes "deadline_law (kern X) (timerfd_fd (timeout_timerfd l)) dl clk" "arm_timeouts X t (l, s) = (Ok (), (l', s'))"
    and "clk (world s') - clk (world s) \<le> lag"
  shows "l' = l \<and> due_at dl clk lag t s'"
proof -
  obtain r s1 where run: "set_oneshot (kern X) (timeout_timerfd l) t s = (r, s1)" by (metis prod.exhaust)
  with assms(2) obtain v where "r = Ok v" "l' = l" "s' = s1"
    by (cases r) (auto simp: arm_timeouts_def cmd_simps)
  with set_oneshot_due [OF assms(1) _ assms(3)] run show ?thesis by auto
qed

lemma put_timeout_hd:
  assumes "sorted (map to_timeout ts)"
  shows "to_timeout (hd (put_timeout e ts))
     = (if ts = [] \<or> to_timeout e < to_timeout (hd ts) then to_timeout e else to_timeout (hd ts))"
proof (cases ts)
  case (Cons a us)
  let ?u = "put_timeout e ts"
  have m: "mset ?u = add_mset e (mset ts)" by (simp add: timeout_q.put_mset)
  then have set: "set ?u = insert e (set ts)" by (metis set_mset_add_mset_insert set_mset_mset)
  then obtain b vs where u: "?u = b # vs" by (cases ?u) auto
  have "sorted (map to_timeout ?u)" by (rule timeout_q.put_sorted [OF assms])
  then have low: "to_timeout b \<le> to_timeout x" if "x \<in> insert e (set ts)" for x
    using that u unfolding set [symmetric] by auto
  have "b \<in> insert e (set ts)" using u set by auto
  moreover have "to_timeout a \<le> to_timeout x" if "x \<in> set ts" for x using assms that Cons by auto
  ultimately show ?thesis using low [of e] low [of a] Cons u by force
qed (simp add: timeout_q.put_Nil)

lemma add_timeout_cases:
  assumes "\<not> processing_timeouts l"
  shows "add_timeout X t c (l, s) =
     (let h = next_timeout_id l;
          l' = l\<lparr>next_timeout_id := h + 1, timeouts := put_timeout (timeout_callback_ctor h t c) (timeouts l)\<rparr>
      in if timeouts l = [] \<or> t < to_timeout (hd (timeouts l))
         then then_c (arm_timeouts X t) (ret_c h) (l', s)
         else (Ok h, (l', s)))"
  using assms
  by (cases "timeouts l = []")
    (simp_all add: add_timeout_def insert_timeout_def timeout_handle_def cmd_simps Let_def timeout_q.put_Nil,
     simp_all add: put_timeout_def put_by_time_def timeout_callback_ctor_def)

lemma arm_then_ok:
  assumes "then_c (arm_timeouts X t) (ret_c h) (l, s) = (Ok k, (l', s'))"
  shows "arm_timeouts X t (l, s) = (Ok (), (l', s')) \<and> k = h"
  using assms by (auto simp: cmd_simps split: prod.splits res.splits)

lemma sorted_erase_first: "sorted (map f xs) \<Longrightarrow> sorted (map f (erase_first p xs))"
proof (induction xs)
  case (Cons x xs)
  have "set (erase_first p xs) \<subseteq> set xs" by (induction xs) auto
  with Cons show ?case by auto
qed simp

lemma process_timeouts_ok:
  assumes "process_timeouts X (l, s) = (Ok (), (l', s'))"
  obtains s1 l2 s2 where "expire_timeouts X (l, s1) = (Ok (), (l2, s2))" "finish_timeouts X (l2, s2) = (Ok (), (l', s'))"
proof -
  obtain rr s1 where rd: "timerfd_read (kern X) (host_le X) (raw8 X) (timeout_timerfd l) s = (rr, s1)"
    by (metis prod.exhaust)
  obtain re l2 s2 where ex: "expire_timeouts X (l, s1) = (re, (l2, s2))" by (metis prod.exhaust)
  from assms rd ex have "re = Ok () \<and> finish_timeouts X (l2, s2) = (Ok (), (l', s'))"
    by (cases rr; cases re) (simp_all add: process_timeouts_split cmd_simps)
  with that ex show thesis by blast
qed

subsection \<open>An environment for examples\<close>

text \<open>
  Callbacks append their number to a log; the clock shows 10; the second component of the world says
  whether the timer is armed.
\<close>

definition log_env :: "(nat, nat list \<times> bool) loop_env" where
  "log_env =
     \<lparr>kern = idle_ev_calls
        \<lparr>sys_read := (\<lambda>_ _ s. ((8, replicate 8 0), s)), sys_steady_now := (\<lambda>s. (10, s)),
         sys_timerfd_settime := (\<lambda>_ _ spec s. ((0, spec),
           s\<lparr>world := (fst (world s), tv_sec spec \<noteq> 0 \<or> tv_nsec spec \<noteq> 0)\<rparr>))\<rparr>,
      user = \<lparr>run_callback = (\<lambda>c (l, s). (Ok (), (l, s\<lparr>world := (fst (world s) @ [c], snd (world s))\<rparr>))),
              run_handler = (\<lambda>_ _ _ x. (Ok (), x))\<rparr>,
      sen = id, srt = sort_key pt_timeout, host_le = True, local_addr = 64, raw8 = replicate 8 0\<rparr>"

definition log_loop :: "nat timeout_callback list \<Rightarrow> nat ioloop" where
  "log_loop ts = (empty_loop (0, 0) \<lparr>efd = unique_fd_of 4 ()\<rparr> \<lparr>tfd = unique_fd_of 5 ()\<rparr> \<lparr>tfd = unique_fd_of 6 ()\<rparr>
     \<lparr>efd = unique_fd_of 7 ()\<rparr> \<lparr>epoll_fd = unique_fd_of 3 (), size_events = 0\<rparr>)\<lparr>timeouts := ts\<rparr>"

text \<open>An environment whose clock moves forward by one with every call; the second component of the world is the deadline.\<close>

definition clock_env :: "(nat, int \<times> int option) loop_env" where
  "clock_env =
     \<lparr>kern = idle_ev_calls
        \<lparr>sys_steady_now := (\<lambda>s. (fst (world s) + 1, s\<lparr>world := (fst (world s) + 1, snd (world s))\<rparr>)),
         sys_timerfd_settime := (\<lambda>_ _ spec s. ((0, spec), s\<lparr>world := (fst (world s) + 1,
           let n = tv_sec spec * 1000000000 + tv_nsec spec in if n = 0 then None else Some (fst (world s) + 1 + n))\<rparr>))\<rparr>,
      user = \<lparr>run_callback = (\<lambda>_ x. (Ok (), x)), run_handler = (\<lambda>_ _ _ x. (Ok (), x))\<rparr>,
      sen = id, srt = sort_key pt_timeout, host_le = True, local_addr = 64, raw8 = replicate 8 0\<rparr>"

lemma clock_env_law: "deadline_law (kern clock_env) fd snd fst"
  by (auto simp: deadline_law_def clock_env_def Let_def)

lemma log_env_api: "api_code log_env (\<lambda>_ _. True)"
  by (auto simp: api_code_def log_env_def intro!: r_into_rtranclp outside)

lemma log_env_simps:
  "sen log_env False = False" "timer_law (kern log_env) fd snd"
  "quiet log_env (\<lambda>c s. s\<lparr>world := (fst (world s) @ [c], snd (world s))\<rparr>)"
  "timerfd_read (kern log_env) (host_le log_env) (raw8 log_env) t s = (Ok 0, s)"
  "sys_steady_now (kern log_env) s = (10, s)"
  by (simp_all add: log_env_def timer_law_def quiet_def timerfd_read_def read_file_def cmd_simps
      load64_def std_copy_def eval_nat_numeral)

lemma log_env_arm: "\<exists>s'. arm_timeouts log_env t (l, s) = (Ok (), (l, s'))"
  by (simp add: arm_timeouts_def set_oneshot_def set_oneshot_duration_def log_env_def cmd_simps)

lemma log_loop_simps [simp]:
  "timeouts (log_loop ts) = ts" "\<not> processing_timeouts (log_loop ts)" "pending_timeout_additions (log_loop ts) = []"
  "next_timeout_id (log_loop ts) = 0"
  by (simp_all add: log_loop_def empty_loop_def)

lemma process_timeouts_outcome:
  assumes "api_code X ok" "sen X False = False" "\<not> processing_timeouts l"
    and "sorted (map to_timeout (timeouts l))" "process_timeouts X (l, s) = (r, (l', s'))"
  shows "r \<noteq> Undefined \<and> r \<noteq> Terminated \<and> \<not> processing_timeouts l' \<and> sorted (map to_timeout (timeouts l'))
     \<and> (r = Ok () \<longrightarrow> pending_timeout_additions l' = [])"
proof -
  obtain rr s1 where rd: "timerfd_read (kern X) (host_le X) (raw8 X) (timeout_timerfd l) s = (rr, s1)"
    by (metis prod.exhaust)
  show ?thesis
  proof (cases "\<exists>v. rr = Ok v")
    case False
    with timerfd_read_defined [OF rd] rd assms(3-5) show ?thesis
      by (cases rr) (auto simp: process_timeouts_split defined_def)
  next
    case True
    obtain re l1 s2 where ex: "expire_timeouts X (l, s1) = (re, (l1, s2))" by (metis prod.exhaust)
    from expire_timeouts_frozen [OF assms(1-3) this] assms(4)
    have re: "defined re" "\<not> processing_timeouts l1" "sorted (map to_timeout (timeouts l1))"
      by (auto simp: sorted_wrt_drop)
    have run: "process_timeouts X (l, s) = then_c (expire_timeouts X) (finish_timeouts X) (l, s1)"
      using True rd by (auto simp: process_timeouts_split)
    show ?thesis
    proof (cases "\<exists>v. re = Ok v")
      case True
      with run ex assms(5) have "finish_timeouts X (l1, s2) = (r, (l', s'))" by (auto simp: cmd_simps)
      from finish_timeouts_defined [OF this] re show ?thesis
        by (auto simp: defined_def finished_timeouts_sorted) (simp_all add: finished_timeouts_def)
    qed (use run ex assms(5) re in \<open>cases re; auto simp: cmd_simps defined_def\<close>)
  qed
qed

subsection \<open>Properties\<close>

text \<open>
  Processing the timeouts is safe for every user code that acts through the loop's methods,
  also when a callback adds or removes timeouts or throws: the iterator stays valid (no undefined
  behaviour), the flag is reset, the vector stays in order of time, and on return the
  pending additions have been taken over.
\<close>

theorem process_timeouts_safe:
  assumes "api_code X ok" "sen X False = False" "\<not> processing_timeouts l"
    and "sorted (map to_timeout (timeouts l))" "process_timeouts X (l, s) = (r, (l', s'))"
  shows "r \<noteq> Undefined \<and> r \<noteq> Terminated \<and> \<not> processing_timeouts l' \<and> sorted (map to_timeout (timeouts l'))
     \<and> (r = Ok () \<longrightarrow> pending_timeout_additions l' = [])"
  by (rule process_timeouts_outcome [OF assms])

theorem process_timeouts_safe_witness:
  "fst (process_timeouts log_env (log_loop [timeout_callback_ctor 0 9 1, timeout_callback_ctor 1 30 2], sys0 ([], True)))
     \<noteq> Undefined"
proof -
  let ?l = "log_loop [timeout_callback_ctor 0 9 1, timeout_callback_ctor 1 30 2]"
  obtain r l' s' where run: "process_timeouts log_env (?l, sys0 ([], True)) = (r, (l', s'))" by (metis prod.exhaust)
  from process_timeouts_safe [OF log_env_api log_env_simps(1) _ _ run] run show ?thesis
    by (simp add: timeout_callback_ctor_def)
qed



text \<open>
  C23. When \<^verbatim>\<open>process_timeouts\<close> returns, the timer is armed if any timeout is left: no
  waiting timeout is left without a timer, whatever the callbacks added or removed.
\<close>

theorem process_timeouts_ready:
  assumes "timer_law (kern X) (timerfd_fd (timeout_timerfd l)) armed"
    and "api_code X ok" "sen X False = False" "\<not> processing_timeouts l" "sorted (map to_timeout (timeouts l))"
    and "process_timeouts X (l, s) = (Ok (), (l', s'))"
  shows "timeouts_ready armed (l', s') \<and> pending_timeout_additions l' = []"
  using assms(6)
proof (cases rule: process_timeouts_ok)
  case (1 s1 l2 s2)
  from expire_timeouts_frozen [OF assms(2-4) 1(1)] assms(5)
  have l2: "\<not> processing_timeouts l2" "timeout_timerfd l2 = timeout_timerfd l" "sorted (map to_timeout (timeouts l2))"
    by (auto simp: sorted_wrt_drop)
  have l': "l' = finished_timeouts l2" using finish_timeouts_defined [OF 1(2)] by simp
  have "timeouts l' \<noteq> [] \<Longrightarrow> arm_timeouts X (to_timeout (hd (timeouts l'))) (l', s2) = (Ok (), (l', s'))"
    using 1(2) l' by (simp add: finish_timeouts_run Let_def)
  moreover have "timer_law (kern X) (timerfd_fd (timeout_timerfd l')) armed"
    using assms(1) l2(2) l' by (simp add: finished_timeouts_def)
  ultimately have "timeouts l' \<noteq> [] \<Longrightarrow> armed (world s')" using arm_timeouts_armed by blast
  with l2 l' finished_timeouts_sorted [OF l2(3)] show ?thesis
    by (simp add: timeouts_ready_def finished_timeouts_def)
qed

theorem process_timeouts_ready_witness:
  "\<exists>l' s'. process_timeouts log_env (log_loop [timeout_callback_ctor 0 9 1, timeout_callback_ctor 1 30 2],
       sys0 ([], False)) = (Ok (), (l', s')) \<and> timeouts_ready snd (l', s')"
proof -
  let ?l = "log_loop [timeout_callback_ctor 0 9 1, timeout_callback_ctor 1 30 2]"
  have so: "sorted (map to_timeout (timeouts ?l))" by (simp add: timeout_callback_ctor_def)
  have "\<exists>l' s'. process_timeouts log_env (?l, sys0 ([], False)) = (Ok (), (l', s'))"
    by (simp add: process_timeouts_quiet [OF log_env_simps(3,1) _ log_env_simps(4,5)] finish_timeouts_run
        finished_timeouts_def due_def timeout_callback_ctor_def)
  then obtain l' s' where run: "process_timeouts log_env (?l, sys0 ([], False)) = (Ok (), (l', s'))" by blast
  from process_timeouts_ready [OF log_env_simps(2) log_env_api log_env_simps(1) _ so run] run show ?thesis by simp
qed

text \<open>
  C38. \<^verbatim>\<open>process_timeouts\<close> loses a timeout: the iterator is incremented before the
  loop breaks at the first entry that has not expired, so that entry is erased with
  the expired ones. Its callback has not been called, and never will be.
\<close>

theorem process_timeouts_loses_next:
  assumes "quiet X eff" "sen X False = False" "\<not> processing_timeouts l"
    and "timerfd_read (kern X) (host_le X) (raw8 X) (timeout_timerfd l) s = (Ok v, s1)"
    and "sys_steady_now (kern X) s1 = (now, s2)"
    and "timeouts l = expired @ t # rest" "\<forall>e\<in>set expired. to_timeout e \<le> now" "now < to_timeout t"
    and "\<forall>e\<in>set (timeouts l). \<not> to_remove e" "pending_timeout_additions l = []"
    and "process_timeouts X (l, s) = (r, (l', s'))"
  shows "timeouts l' = rest
     \<and> (rest = [] \<longrightarrow> r = Ok () \<and> s' = fold (\<lambda>e. eff (to_callback e)) expired s2)"
proof -
  have tw: "takeWhile (due now) (timeouts l) = expired" "dropWhile (due now) (timeouts l) = t # rest"
    using assms(6-9) by (simp_all add: due_def takeWhile_append2 dropWhile_append2)
  have f: "filter (\<lambda>t. \<not> to_remove t) expired = expired" "filter (\<lambda>t. \<not> to_remove t) rest = rest"
    using assms(6,9) by (simp_all add: filter_id_conv)
  have run: "finish_timeouts X (l\<lparr>timeouts := rest\<rparr>, fold (\<lambda>e. eff (to_callback e)) expired s2) = (r, (l', s'))"
    using process_timeouts_quiet [OF assms(1-5)] assms(11) tw f by (simp add: call_all_def)
  have fin: "timeouts (finished_timeouts (l\<lparr>timeouts := rest\<rparr>)) = rest"
    using f assms(10) by (simp add: finished_timeouts_def)
  with finish_timeouts_defined [OF run] run show ?thesis
    by (auto simp: finish_timeouts_run Let_def)
qed

theorem process_timeouts_loses_next_witness:
  "\<exists>r l' s'. process_timeouts log_env (log_loop [timeout_callback_ctor 0 9 1, timeout_callback_ctor 1 30 2],
       sys0 ([], False)) = (r, (l', s')) \<and> timeouts l' = [] \<and> fst (world s') = [1]"
proof -
  let ?l = "log_loop ([timeout_callback_ctor 0 9 1] @ timeout_callback_ctor 1 30 2 # [])"
  obtain r l' s' where run: "process_timeouts log_env (?l, sys0 ([], False)) = (r, (l', s'))" by (metis prod.exhaust)
  from process_timeouts_loses_next [OF log_env_simps(3,1) _ log_env_simps(4,5) log_loop_simps(1) _ _ _ _ run] run
  show ?thesis by (simp add: timeout_callback_ctor_def)
qed

end
