(* ===== verification/Timeout_Calls.thy ===== *)
theory Timeout_Calls
  imports Ioloop_Timeouts
begin

text \<open>
  Which timeouts \<^verbatim>\<open>process_timeouts\<close> calls, for callbacks that act on the loop in any way its methods allow:
  each expired entry once, in order, none that was removed before its turn. The calls are observed in a log that
  every callback is written to.
\<close>

subsection \<open>The log\<close>

definition call_log :: "('c, 'w) loop_env \<Rightarrow> ('w \<Rightarrow> 'c list) \<Rightarrow> bool" where
  "call_log X lg \<longleftrightarrow>
     (\<forall>c x r y. run_callback (user X) c x = (r, y) \<longrightarrow> lg (world (snd y)) = lg (world (snd x)) @ [c]) \<and>
     (\<forall>fd n s. lg (world (snd (sys_read (kern X) fd n s))) = lg (world s)) \<and>
     (\<forall>s. lg (world (snd (sys_steady_now (kern X) s))) = lg (world s)) \<and>
     (\<forall>fd fl spec s. lg (world (snd (sys_timerfd_settime (kern X) fd fl spec s))) = lg (world s))"

lemma call_logD:
  assumes "call_log X lg"
  shows "run_callback (user X) c x = (r, y) \<Longrightarrow> lg (world (snd y)) = lg (world (snd x)) @ [c]"
    "lg (world (snd (sys_read (kern X) fd n s))) = lg (world s)" "lg (world (snd (sys_steady_now (kern X) s))) = lg (world s)"
    "lg (world (snd (sys_timerfd_settime (kern X) fd fl spec s))) = lg (world s)"
  using assms unfolding call_log_def by blast+

lemma set_oneshot_log:
  assumes "call_log X lg"
  shows "lg (world (snd (set_oneshot (kern X) tf d s))) = lg (world s)"
proof -
  obtain now s1 where now: "sys_steady_now (kern X) s = (now, s1)" by (metis prod.exhaust)
  then have "lg (world s1) = lg (world s)" using call_logD(3) [OF assms(1), of s] by simp
  moreover have "lg (world (snd (sys_timerfd_settime (kern X) fd fl spec s1))) = lg (world s1)" for fd fl spec
    by (rule call_logD(4) [OF assms(1)])
  ultimately show ?thesis
    using now
    by (auto simp: set_oneshot_def set_oneshot_duration_def cmd_simps Let_def split: prod.splits if_splits res.splits)
qed

lemma arm_timeouts_log:
  assumes "call_log X lg" "arm_timeouts X t (l, s) = (r, (l', s'))"
  shows "lg (world s') = lg (world s)"
  using assms(2) by (auto simp: arm_timeouts_def cmd_simps set_oneshot_log [OF assms(1)] split: prod.splits res.splits)

lemma timerfd_read_log:
  "call_log X lg \<Longrightarrow> timerfd_read (kern X) le j t s = (r, s') \<Longrightarrow> lg (world s') = lg (world s)"
  using call_logD(2) [of X lg "timerfd_fd t" 8 s]
  by (auto simp: timerfd_read_def read_file_def cmd_simps split: prod.splits if_splits res.splits)

subsection \<open>The loop over the vector\<close>

text \<open>An entry that is marked as removed stays so while the vector is processed.\<close>

definition marked :: "'c timeout_callback list \<Rightarrow> nat \<Rightarrow> 'c ioloop \<Rightarrow> bool" where
  "marked ts m l \<longleftrightarrow> frozen ts l \<and> m < length ts \<and> to_remove (timeouts l ! m)"

lemma change_first_flag:
  "m < length ts \<Longrightarrow> to_remove (ts ! m) \<Longrightarrow> to_remove (change_first p (\<lambda>t. t\<lparr>to_remove := True\<rparr>) ts ! m)"
  by (induction ts arbitrary: m) (auto simp: nth_Cons split: nat.splits)

lemma api_step_marked: "api_step X ok x y \<Longrightarrow> marked ts m (fst x) \<Longrightarrow> marked ts m (fst y)"
proof -
  assume step: "api_step X ok x y" and x: "marked ts m (fst x)"
  then have "frozen ts (fst y)" by (auto simp: marked_def intro: api_step_frozen)
  moreover from step x have "to_remove (timeouts (fst y) ! m)"
  proof (induction rule: api_step.induct)
    case (call_add_timeout t c x r y)
    then show ?case using add_timeout_processing [of x X t c r y] by (auto simp: marked_def frozen_def)
  next
    case (call_add_timeout_delay d c x r y)
    then obtain t x1 where "add_timeout X t c x1 = (r, y)" "fst x1 = fst x"
      by (cases x) (auto simp: add_timeout_delay_def cmd_simps)
    with call_add_timeout_delay show ?case
      using add_timeout_processing [of x1 X t c r y] by (auto simp: marked_def frozen_def)
  next
    case (call_remove_timeout k x r y)
    then show ?case
      by (cases x) (auto simp: remove_timeout_def marked_def cmd_simps frozen_length intro!: change_first_flag
          dest: frozen_def [THEN iffD1])
  qed (auto dest!: leaves_timeoutD simp: timeout_part_def marked_def)
  ultimately show ?thesis using x by (simp add: marked_def)
qed

interpretation marked_inv: api_invariant X ok "\<lambda>x. marked ts m (fst x)" for X ok ts m
  by unfold_locales (rule api_step_marked)

lemma frozen_entry:
  assumes "frozen ts l" "m < length ts"
  shows "to_callback (timeouts l ! m) = to_callback (ts ! m)" "to_handle (timeouts l ! m) = to_handle (ts ! m)"
    "to_timeout (timeouts l ! m) = to_timeout (ts ! m)"
proof -
  have "map unflag (timeouts l) ! m = map unflag ts ! m" using assms(1) by (simp add: frozen_def)
  then have "unflag (timeouts l ! m) = unflag (ts ! m)" using assms(2) frozen_length [OF assms(1)] by simp
  then have "to_callback (unflag (timeouts l ! m)) = to_callback (unflag (ts ! m))"
    "to_handle (unflag (timeouts l ! m)) = to_handle (unflag (ts ! m))"
    "to_timeout (unflag (timeouts l ! m)) = to_timeout (unflag (ts ! m))" by simp_all
  then show "to_callback (timeouts l ! m) = to_callback (ts ! m)" "to_handle (timeouts l ! m) = to_handle (ts ! m)"
    "to_timeout (timeouts l ! m) = to_timeout (ts ! m)" by (simp_all add: unflag_def)
qed

text \<open>
  The calls of a run of the loop from entry \<open>i\<close> on: the entries \<open>js\<close>, in order, are expired and were not marked; when the loop
  ends at \<open>j\<close>, each entry it went past was called, or is marked, or is the one that has not expired at which it broke; and it
  broke at such an entry or reached the end.
\<close>

definition calls_of ::
  "'c timeout_callback list \<Rightarrow> int \<Rightarrow> nat \<Rightarrow> 'c ioloop \<Rightarrow> nat list \<Rightarrow> nat res \<Rightarrow> 'c ioloop \<Rightarrow> bool" where
  "calls_of ts now i l js r l' \<longleftrightarrow>
     sorted_wrt (<) js \<and> (\<forall>m\<in>set js. i \<le> m \<and> m < length ts \<and> to_timeout (ts ! m) \<le> now \<and> \<not> marked ts m l) \<and>
     (\<forall>e. r = Throw e \<longrightarrow> js \<noteq> []) \<and>
     (i < length ts \<and> \<not> marked ts i l \<and> to_timeout (ts ! i) \<le> now \<longrightarrow> i \<in> set js) \<and>
     (\<forall>j. r = Ok j \<longrightarrow> i \<le> j \<and> j \<le> length ts \<and> (\<forall>m\<in>set js. m < j) \<and>
        (\<forall>m<j. m < i \<or> m \<in> set js \<or> to_remove (timeouts l' ! m) \<or> Suc m = j \<and> now < to_timeout (ts ! m)) \<and>
        (j = length ts \<or> i < j \<and> now < to_timeout (ts ! (j - 1)) \<and> \<not> to_remove (timeouts l' ! (j - 1))))"

definition void_res :: "'a res \<Rightarrow> unit res" where
  "void_res r = (case r of Ok v \<Rightarrow> Ok () | Throw e \<Rightarrow> Throw e | Undefined \<Rightarrow> Undefined | Terminated \<Rightarrow> Terminated)"

lemma void_res_simps [simp]:
  "void_res (Ok v) = Ok ()" "void_res (Throw e) = Throw e" "void_res Undefined = Undefined" "void_res Terminated = Terminated"
  by (simp_all add: void_res_def)

lemma calls_of_Ok:
  assumes "calls_of ts now i l js (Ok n) l'"
  shows "sorted_wrt (<) js" "n \<le> length ts" "\<forall>m\<in>set js. m < n \<and> to_timeout (ts ! m) \<le> now \<and> \<not> marked ts m l"
    "\<forall>m<n. m < i \<or> m \<in> set js \<or> to_remove (timeouts l' ! m) \<or> Suc m = n \<and> now < to_timeout (ts ! m)"
    "n = length ts \<or> i < n \<and> now < to_timeout (ts ! (n - 1)) \<and> \<not> to_remove (timeouts l' ! (n - 1))"
proof -
  note c = assms [unfolded calls_of_def]
  show "sorted_wrt (<) js" using c by (rule conjunct1)
  note js = c [THEN conjunct2, THEN conjunct1]
    and n = c [THEN conjunct2, THEN conjunct2, THEN conjunct2, THEN conjunct2, rule_format, OF refl]
  show "n \<le> length ts" "\<forall>m\<in>set js. m < n \<and> to_timeout (ts ! m) \<le> now \<and> \<not> marked ts m l"
    "\<forall>m<n. m < i \<or> m \<in> set js \<or> to_remove (timeouts l' ! m) \<or> Suc m = n \<and> now < to_timeout (ts ! m)"
    "n = length ts \<or> i < n \<and> now < to_timeout (ts ! (n - 1)) \<and> \<not> to_remove (timeouts l' ! (n - 1))"
    using js n by blast+
qed

lemma calls_of_skip:
  assumes "calls_of ts now (Suc i) l js r l'" "to_remove (timeouts l' ! i)" "marked ts i l"
  shows "calls_of ts now i l js r l'"
  using assms by (auto simp: calls_of_def less_Suc_eq dest: Suc_leD)

lemma calls_of_call:
  assumes "calls_of ts now (Suc i) l1 js r l'" "i < length ts" "to_timeout (ts ! i) \<le> now" "\<not> marked ts i l"
    and "\<And>m. marked ts m l \<Longrightarrow> marked ts m l1"
  shows "calls_of ts now i l (i # js) r l'"
  using assms by (auto simp: calls_of_def less_Suc_eq Suc_le_eq)

lemma calls_of_complete:
  assumes "calls_of ts now 0 l js (Ok n) l'" "sorted (map to_timeout ts)" "m < length ts" "to_timeout (ts ! m) \<le> now"
  shows "m < n \<and> (m \<in> set js \<or> to_remove (timeouts l' ! m))"
proof -
  note c = calls_of_Ok [OF assms(1)]
  have "m < n"
  proof (rule ccontr)
    assume "\<not> m < n"
    with c(5) assms(3) have "now < to_timeout (ts ! (n - 1))" "n - 1 \<le> m" by auto
    with sorted_nth_mono [OF assms(2), of "n - 1" m] assms(3,4) show False by simp
  qed
  moreover from this c(4) assms(4) have "m \<in> set js \<or> to_remove (timeouts l' ! m)"
    by (metis not_less not_less_zero)
  ultimately show ?thesis ..
qed

lemma timeouts_loop_calls:
  assumes env: "api_code X ok" "call_log X lg"
  shows "frozen ts (fst x) \<Longrightarrow> i + k = length ts \<Longrightarrow> timeouts_loop X now (length ts) k i x = (r, y) \<Longrightarrow>
     (api_step X ok)\<^sup>*\<^sup>* x y \<and>
     (\<exists>js. calls_of ts now i (fst x) js r (fst y) \<and>
        for_each (run_callback (user X)) (map (\<lambda>m. to_callback (ts ! m)) js) x
          = (void_res r, y) \<and>
        lg (world (snd y)) = lg (world (snd x)) @ map (\<lambda>m. to_callback (ts ! m)) js)"
proof (induction k arbitrary: i x)
  case 0
  then show ?case
    by (cases x) (auto simp: cmd_simps frozen_length calls_of_def intro!: exI [of _ "[]"])
next
  case (Suc k)
  obtain l s where x: "x = (l, s)" by (cases x)
  let ?t = "timeouts l ! i"
  have fr: "frozen ts l" and i: "i < length ts" using Suc.prems(1,2) x by simp_all
  note len = frozen_length [OF fr] and entry = frozen_entry [OF fr i]
  consider (skip) "to_remove ?t" | (stop) "\<not> to_remove ?t" "now < to_timeout ?t" | (run) "\<not> to_remove ?t" "to_timeout ?t \<le> now"
    by linarith
  then show ?case
  proof cases
    case skip
    with Suc.prems x len have "timeouts_loop X now (length ts) k (i + 1) x = (r, y)" by (simp add: cmd_simps)
    from Suc.IH [OF Suc.prems(1) _ this] Suc.prems(2) obtain js where
      step: "(api_step X ok)\<^sup>*\<^sup>* x y" and js: "calls_of ts now (i + 1) (fst x) js r (fst y)"
        "lg (world (snd y)) = lg (world (snd x)) @ map (\<lambda>m. to_callback (ts ! m)) js"
      and calls: "for_each (run_callback (user X)) (map (\<lambda>m. to_callback (ts ! m)) js) x
          = (void_res r, y)" by auto
    have "marked ts i (fst y)" using marked_inv.kept_star [OF step] skip fr i x by (simp add: marked_def)
    moreover have "marked ts i (fst x)" using skip fr i x by (simp add: marked_def)
    ultimately have "calls_of ts now i (fst x) js r (fst y)" using js(1) by (auto simp: marked_def intro: calls_of_skip)
    with step js(2) calls show ?thesis by blast
  next
    case stop
    with Suc.prems x len have "r = Ok (i + 1)" "y = x" by (auto simp: cmd_simps)
    moreover have "calls_of ts now i l [] (Ok (i + 1)) l"
      using stop entry(3) i by (auto simp: calls_of_def less_Suc_eq_le)
    ultimately show ?thesis using x by (auto simp: cmd_simps intro!: exI [of _ "[]"])
  next
    case run
    obtain r1 y1 where c: "run_callback (user X) (to_callback ?t) (l, s) = (r1, y1)" by (metis prod.exhaust)
    have step: "(api_step X ok)\<^sup>*\<^sup>* x y1" using env(1) c x unfolding api_code_def by blast
    have lg: "lg (world (snd y1)) = lg (world s) @ [to_callback (ts ! i)]" using call_logD(1) [OF env(2) c] entry(1) by simp
    have fr1: "frozen ts (fst y1)" using frozen_inv.kept_star [OF step] fr x by simp
    have mono: "marked ts m l \<Longrightarrow> marked ts m (fst y1)" for m using marked_inv.kept_star [OF step] x by simp
    have due: "to_timeout (ts ! i) \<le> now" "\<not> marked ts i l" using run entry(3) by (simp_all add: marked_def)
    show ?thesis
    proof (cases "\<exists>v. r1 = Ok v")
      case True
      then have "timeouts_loop X now (length ts) k (i + 1) y1 = (r, y)"
        using Suc.prems(3) x c run len by (auto simp: cmd_simps Let_def)
      from Suc.IH [OF fr1 _ this] Suc.prems(2) obtain js where
        rest: "(api_step X ok)\<^sup>*\<^sup>* y1 y" and js: "calls_of ts now (Suc i) (fst y1) js r (fst y)"
          "lg (world (snd y)) = lg (world (snd y1)) @ map (\<lambda>m. to_callback (ts ! m)) js"
          "for_each (run_callback (user X)) (map (\<lambda>m. to_callback (ts ! m)) js) y1
            = (void_res r, y)" by auto
      from calls_of_call [OF js(1) i due mono] js(2,3) lg rtranclp_trans [OF step rest] x c entry(1) True show ?thesis
        by (intro conjI exI [of _ "i # js"]) (auto simp: cmd_simps)
    next
      case False
      then have y: "y = y1" "\<And>j. r \<noteq> Ok j" and r: "void_res r = r1"
        using Suc.prems(3) x c run len by (cases r1; auto simp: cmd_simps Let_def)+
      then have "for_each (run_callback (user X)) [to_callback (ts ! i)] x = (void_res r, y)"
        using x c entry(1) False unfolding r by (cases r1) (simp_all add: cmd_simps)
      with step lg due i x y show ?thesis by (intro conjI exI [of _ "[i]"]) (simp_all add: calls_of_def)
    qed
  qed
qed

lemma expire_timeouts_calls:
  assumes env: "api_code X ok" "call_log X lg" and "sen X False = False" "\<not> processing_timeouts l"
    and "expire_timeouts X (l, s) = (r, (l', s'))"
  obtains now s1 lm js ri where "sys_steady_now (kern X) s = (now, s1)" "frozen (timeouts l) lm"
    "(api_step X ok)\<^sup>*\<^sup>* (l\<lparr>processing_timeouts := True\<rparr>, s1) (lm, s')"
    "calls_of (timeouts l) now 0 (l\<lparr>processing_timeouts := True\<rparr>) js ri lm"
    "r = Ok () \<Longrightarrow> for_each (run_callback (user X)) (map (\<lambda>m. to_callback (timeouts l ! m)) js)
       (l\<lparr>processing_timeouts := True\<rparr>, s1) = (Ok (), (lm, s'))"
    "lg (world s') = lg (world s) @ map (\<lambda>m. to_callback (timeouts l ! m)) js"
    "(\<exists>n. ri = Ok n \<and> r = Ok () \<and> l' = lm\<lparr>timeouts := drop n (timeouts lm), processing_timeouts := False\<rparr>)
     \<or> (\<exists>e. ri = Throw e \<and> r = Throw e \<and> l' = lm\<lparr>processing_timeouts := False\<rparr>)"
proof -
  let ?l = "l\<lparr>processing_timeouts := True\<rparr>" and ?n = "length (timeouts l)"
  obtain now s1 where now: "sys_steady_now (kern X) s = (now, s1)" by (metis prod.exhaust)
  obtain ri lm s2 where loop: "timeouts_loop X now ?n ?n 0 (?l, s1) = (ri, (lm, s2))" by (metis prod.exhaust)
  have fr: "frozen (timeouts l) ?l" by (simp add: frozen_def)
  with timeouts_loop_frozen [OF env(1) _ _ loop] have lm: "frozen (timeouts l) lm" "ri \<noteq> Undefined" "ri \<noteq> Terminated" by auto
  from timeouts_loop_calls [OF env _ _ loop] fr obtain js where
    step: "(api_step X ok)\<^sup>*\<^sup>* (?l, s1) (lm, s2)" and js: "calls_of (timeouts l) now 0 ?l js ri lm"
      "lg (world s2) = lg (world s1) @ map (\<lambda>m. to_callback (timeouts l ! m)) js"
    and calls: "for_each (run_callback (user X)) (map (\<lambda>m. to_callback (timeouts l ! m)) js) (?l, s1)
      = (void_res ri, (lm, s2))" by auto
  have "lg (world s1) = lg (world s)" using call_logD(3) [OF env(2), of s] now by simp
  moreover have "s' = s2" "(\<exists>n. ri = Ok n \<and> r = Ok () \<and> l' = lm\<lparr>timeouts := drop n (timeouts lm), processing_timeouts := False\<rparr>)
     \<or> (\<exists>e. ri = Throw e \<and> r = Throw e \<and> l' = lm\<lparr>processing_timeouts := False\<rparr>)"
    using assms(3-5) now loop lm by (cases ri; simp add: expire_timeouts_def with_sentry_def cmd_simps)+
  ultimately show thesis using that [OF now lm(1) _ js(1)] step js(2) calls by (auto split: res.splits)
qed

lemma process_timeouts_log:
  assumes env: "api_code X ok" "call_log X lg" and l: "sen X False = False" "\<not> processing_timeouts l"
    and run: "process_timeouts X (l, s) = (Ok (), (l', s'))"
  obtains v s1 now s2 lm sm js n where
    "timerfd_read (kern X) (host_le X) (raw8 X) (timeout_timerfd l) s = (Ok v, s1)" "sys_steady_now (kern X) s1 = (now, s2)"
    "for_each (run_callback (user X)) (map (\<lambda>m. to_callback (timeouts l ! m)) js)
       (l\<lparr>processing_timeouts := True\<rparr>, s2) = (Ok (), (lm, sm))"
    "(api_step X ok)\<^sup>*\<^sup>* (l\<lparr>processing_timeouts := True\<rparr>, s2) (lm, sm)"
    "calls_of (timeouts l) now 0 (l\<lparr>processing_timeouts := True\<rparr>) js (Ok n) lm"
    "lg (world s') = lg (world s) @ map (\<lambda>m. to_callback (timeouts l ! m)) js"
    "timeouts l' = fold put_timeout (pending_timeout_additions lm) (filter (\<lambda>t. \<not> to_remove t) (drop n (timeouts lm)))"
proof -
  let ?l = "l\<lparr>processing_timeouts := True\<rparr>"
  obtain rr s1 where rd: "timerfd_read (kern X) (host_le X) (raw8 X) (timeout_timerfd l) s = (rr, s1)"
    by (metis prod.exhaust)
  obtain re l2 s3 where ex: "expire_timeouts X (l, s1) = (re, (l2, s3))" by (metis prod.exhaust)
  from run rd ex obtain v where fin: "re = Ok ()" "finish_timeouts X (l2, s3) = (Ok (), (l', s'))" and v: "rr = Ok v"
    by (cases rr; cases re; simp add: process_timeouts_split cmd_simps)
  obtain now s2 lm js n where now: "sys_steady_now (kern X) s1 = (now, s2)" and step: "(api_step X ok)\<^sup>*\<^sup>* (?l, s2) (lm, s3)"
    and js: "calls_of (timeouts l) now 0 ?l js (Ok n) lm" "lg (world s3) = lg (world s1) @ map (\<lambda>m. to_callback (timeouts l ! m)) js"
    and l2: "l2 = lm\<lparr>timeouts := drop n (timeouts lm), processing_timeouts := False\<rparr>"
    and calls: "for_each (run_callback (user X)) (map (\<lambda>m. to_callback (timeouts l ! m)) js) (?l, s2) = (Ok (), (lm, s3))"
    by (rule expire_timeouts_calls [OF env l ex]) (use fin(1) in auto)
  have "lg (world s1) = lg (world s)" using timerfd_read_log [OF env(2) rd] .
  moreover have "lg (world s') = lg (world s3)"
    using fin(2) arm_timeouts_log [OF env(2)] by (auto simp: finish_timeouts_run Let_def split: if_splits)
  moreover have "timeouts l' = fold put_timeout (pending_timeout_additions lm) (filter (\<lambda>t. \<not> to_remove t) (drop n (timeouts lm)))"
    using finish_timeouts_defined [OF fin(2)] l2 by (simp add: finished_timeouts_def)
  ultimately show thesis using that [OF _ now calls step js(1)] js(2) rd v by simp
qed

lemma marked_start: "marked (timeouts l) m (l\<lparr>processing_timeouts := True\<rparr>) \<longleftrightarrow> m < length (timeouts l) \<and> to_remove (timeouts l ! m)"
  by (simp add: marked_def frozen_def)

lemma change_first_marks:
  "distinct (map to_handle ts) \<Longrightarrow> m < length ts \<Longrightarrow>
     to_remove (change_first (\<lambda>t. to_handle t = to_handle (ts ! m)) (\<lambda>t. t\<lparr>to_remove := True\<rparr>) ts ! m)"
proof (induction ts arbitrary: m)
  case (Cons t ts)
  then have "to_handle t \<noteq> to_handle (ts ! i)" if "i < length ts" for i
    using nth_mem [OF that] by auto
  with Cons show ?case by (cases m) auto
qed simp

lemma remove_timeout_marks:
  assumes "processing_timeouts l" "distinct (map to_handle (timeouts l))" "m < length (timeouts l)"
    and "remove_timeout (to_handle (timeouts l ! m)) (l, s) = (r, y)"
  shows "marked (timeouts l) m (fst y)"
  using assms change_first_marks [OF assms(2,3)]
  by (auto simp: remove_timeout_def cmd_simps marked_def frozen_def map_change_first unflag_def split: if_splits)

subsection \<open>An environment for examples\<close>

text \<open>Callback 1 removes the timeout with handle 1; callback 3 throws. Every callback is written to the log.\<close>

definition edit_env :: "(nat, nat list \<times> bool) loop_env" where
  "edit_env = log_env\<lparr>user := \<lparr>run_callback = (\<lambda>c (l, s).
       let s' = s\<lparr>world := (fst (world s) @ [c], snd (world s))\<rparr>
       in if c = 1 then remove_timeout 1 (l, s') else if c = 3 then throw_c (Runtime_error ''callback'') (l, s') else (Ok (), (l, s'))),
     run_handler = (\<lambda>_ _ _ x. (Ok (), x))\<rparr>\<rparr>"

lemma edit_env_run:
  "run_handler (user edit_env) h fd ev x = (Ok (), x)"
  "run_callback (user edit_env) c (l, s) =
     (let s' = s\<lparr>world := (fst (world s) @ [c], snd (world s))\<rparr>
      in if c = 1 then remove_timeout 1 (l, s') else if c = 3 then (Throw (Runtime_error ''callback''), (l, s')) else (Ok (), (l, s')))"
  by (simp_all add: edit_env_def Let_def cmd_simps)

lemma remove_timeout_returns: "remove_timeout k x = (r, y) \<Longrightarrow> r = Ok () \<and> snd y = snd x"
  by (cases x) (auto simp: remove_timeout_def cmd_simps)

lemma edit_env_api: "api_code edit_env (\<lambda>_ _. True)"
proof -
  have "r = Ok () \<and> (api_step edit_env (\<lambda>_ _. True))\<^sup>*\<^sup>* (l, s) y" if "remove_timeout k (l, t) = (r, y)" for l y s t r k
    using outside [of "\<lambda>_ _. True" s t edit_env l] call_remove_timeout [OF that, of edit_env "\<lambda>_ _. True"]
      remove_timeout_returns [OF that] by (auto intro: converse_rtranclp_into_rtranclp)
  then show ?thesis
    unfolding api_code_def
    by (auto simp: edit_env_run Let_def intro!: r_into_rtranclp outside split: if_splits) blast+
qed

lemma edit_env_log: "call_log edit_env fst"
  unfolding call_log_def
  by (auto simp: edit_env_run Let_def split: if_splits dest: remove_timeout_returns) (simp_all add: edit_env_def log_env_def)

lemma edit_env_simps:
  "kern edit_env = kern log_env" "sen edit_env False = False" "host_le edit_env = host_le log_env" "raw8 edit_env = raw8 log_env"
  by (simp_all add: edit_env_def log_env_def)

lemma edit_env_arm: "arm_timeouts edit_env t (l, s) = (Ok (), (l, s\<lparr>world := (fst (world s), True)\<rparr>))"
  using oneshot_positive [of "t - 10"] oneshot_positive [of 1]
  by (auto simp: arm_timeouts_def set_oneshot_def set_oneshot_duration_def edit_env_def log_env_def cmd_simps)

subsection \<open>Properties\<close>

text \<open>
  C20. A round of \<^verbatim>\<open>process_timeouts\<close> that returns calls each expired timeout once, in order of time, whatever
  the callbacks do to the loop. The round consists of the callbacks of the entries \<open>js\<close>, run one after the other, and
  \<open>lm\<close> is the loop they leave: the entries called had expired at the time \<open>now\<close> that the clock showed and had not been removed;
  every entry that had expired was called, or a callback of this round removed it. The round erases the first \<open>n\<close> entries, up to and
  with the first that has neither expired nor been removed, or all of them: each erased entry was called, or removed, or is that one. What is left are the
  later entries that were not removed and the entries the callbacks added.
\<close>

theorem process_timeouts_calls:
  assumes env: "api_code X ok" "call_log X lg" and l: "sen X False = False" "\<not> processing_timeouts l"
    and sorted: "sorted (map to_timeout (timeouts l))"
    and run: "process_timeouts X (l, s) = (Ok (), (l', s'))"
  shows "\<exists>v s1 now s2 lm sm js n.
     timerfd_read (kern X) (host_le X) (raw8 X) (timeout_timerfd l) s = (Ok v, s1) \<and> sys_steady_now (kern X) s1 = (now, s2) \<and>
     for_each (run_callback (user X)) (map (\<lambda>m. to_callback (timeouts l ! m)) js)
       (l\<lparr>processing_timeouts := True\<rparr>, s2) = (Ok (), (lm, sm)) \<and>
     lg (world s') = lg (world s) @ map (\<lambda>m. to_callback (timeouts l ! m)) js \<and> sorted_wrt (<) js \<and>
     (\<forall>m\<in>set js. m < n \<and> to_timeout (timeouts l ! m) \<le> now \<and> \<not> to_remove (timeouts l ! m)) \<and> n \<le> length (timeouts l) \<and>
     (\<forall>m<length (timeouts l). to_timeout (timeouts l ! m) \<le> now \<longrightarrow> m \<in> set js \<or> to_remove (timeouts lm ! m)) \<and>
     (n = length (timeouts l) \<or> 0 < n \<and> now < to_timeout (timeouts l ! (n - 1)) \<and> \<not> to_remove (timeouts lm ! (n - 1))) \<and>
     (\<forall>m<n. m \<in> set js \<or> to_remove (timeouts lm ! m) \<or> Suc m = n \<and> now < to_timeout (timeouts l ! m)) \<and>
     timeouts l' = fold put_timeout (pending_timeout_additions lm) (filter (\<lambda>t. \<not> to_remove t) (drop n (timeouts lm)))"
  using env l run
proof (cases rule: process_timeouts_log)
  case (1 v s1 now s2 lm sm js n)
  note c = calls_of_Ok [OF 1(5)]
  have "\<forall>m<length (timeouts l). to_timeout (timeouts l ! m) \<le> now \<longrightarrow> m \<in> set js \<or> to_remove (timeouts lm ! m)"
    using calls_of_complete [OF 1(5) sorted] by blast
  moreover have "\<forall>m\<in>set js. m < n \<and> to_timeout (timeouts l ! m) \<le> now \<and> \<not> to_remove (timeouts l ! m)"
    using c(2,3) marked_start by fastforce
  moreover have "\<forall>m<n. m \<in> set js \<or> to_remove (timeouts lm ! m) \<or> Suc m = n \<and> now < to_timeout (timeouts l ! m)"
    using c(4) by blast
  ultimately show ?thesis using 1(1-3,6,7) c(1,2,5) by blast
qed

definition edit_loop :: "nat ioloop" where
  "edit_loop = log_loop [timeout_callback_ctor 0 8 1, timeout_callback_ctor 1 9 2, timeout_callback_ctor 2 10 4,
     timeout_callback_ctor 3 30 5, timeout_callback_ctor 4 40 6]"

theorem process_timeouts_calls_witness:
  "\<exists>l' s'. process_timeouts edit_env (edit_loop, sys0 ([], True)) = (Ok (), (l', s')) \<and>
     (\<exists>js. fst (world s') = map (\<lambda>m. to_callback (timeouts edit_loop ! m)) js \<and> sorted_wrt (<) js \<and>
       (\<forall>m\<in>set js. to_timeout (timeouts edit_loop ! m) \<le> 10)) \<and> fst (world s') = [1, 4] \<and> map to_callback (timeouts l') = [6]"
proof -
  have "\<exists>l' s'. process_timeouts edit_env (edit_loop, sys0 ([], True)) = (Ok (), (l', s')) \<and>
     fst (world s') = [1, 4] \<and> map to_callback (timeouts l') = [6]"
    by (simp add: process_timeouts_split edit_env_simps log_env_simps expire_timeouts_def finish_timeouts_run with_sentry_def
        cmd_simps edit_env_run edit_loop_def timeout_callback_ctor_def remove_timeout_def finished_timeouts_def Let_def
        eval_nat_numeral edit_env_arm)
  then obtain l' s' where run: "process_timeouts edit_env (edit_loop, sys0 ([], True)) = (Ok (), (l', s'))"
    and out: "fst (world s') = [1, 4]" "map to_callback (timeouts l') = [6]"
    by (elim exE conjE) (rule that)
  have l: "\<not> processing_timeouts edit_loop" "sorted (map to_timeout (timeouts edit_loop))"
    by (simp_all add: edit_loop_def timeout_callback_ctor_def)
  from process_timeouts_calls [OF edit_env_api edit_env_log edit_env_simps(2) l run]
  obtain s1 now s2 js n where w: "sys_steady_now (kern edit_env) s1 = (now, s2)"
    "fst (world s') = fst (world (sys0 ([], True))) @ map (\<lambda>m. to_callback (timeouts edit_loop ! m)) js" "sorted_wrt (<) js"
    "\<forall>m\<in>set js. m < n \<and> to_timeout (timeouts edit_loop ! m) \<le> now \<and> \<not> to_remove (timeouts edit_loop ! m)"
    by (elim exE conjE) (rule that)
  then have "now = 10" by (simp add: edit_env_simps log_env_simps)
  with w have "fst (world s') = map (\<lambda>m. to_callback (timeouts edit_loop ! m)) js \<and> sorted_wrt (<) js \<and>
      (\<forall>m\<in>set js. to_timeout (timeouts edit_loop ! m) \<le> 10)" by simp
  with run out show ?thesis by (elim conjE, intro exI conjI)
qed

text \<open>
  C21. A timeout that is removed is not called any more. While timeouts are processed \<^verbatim>\<open>remove_timeout\<close> marks
  the entry, and whatever user code does afterwards, the rest of the processing, from any entry on, calls only entries
  with other handles.
\<close>

theorem removed_timeout_not_called:
  assumes env: "api_code X ok" "call_log X lg"
    and l: "processing_timeouts l" "distinct (map to_handle (timeouts l))" "i + k = length (timeouts l)"
    and rm: "remove_timeout h (l, s) = (r0, x1)" and later: "(api_step X ok)\<^sup>*\<^sup>* x1 x2"
    and run: "timeouts_loop X now (length (timeouts l)) k i x2 = (r, y)"
  shows "\<exists>js. lg (world (snd y)) = lg (world (snd x2)) @ map (\<lambda>m. to_callback (timeouts l ! m)) js \<and> sorted_wrt (<) js \<and>
     (\<forall>m\<in>set js. i \<le> m \<and> m < length (timeouts l) \<and> to_timeout (timeouts l ! m) \<le> now \<and> to_handle (timeouts l ! m) \<noteq> h)"
proof -
  have "frozen (timeouts l) (fst x1)"
    using rm l(1) by (auto simp: remove_timeout_def cmd_simps frozen_def map_change_first unflag_def)
  then have "frozen (timeouts l) (fst x2)" using frozen_inv.kept_star [OF later] by blast
  from timeouts_loop_calls [OF env this l(3) run] obtain js where
    js: "calls_of (timeouts l) now i (fst x2) js r (fst y)"
      "lg (world (snd y)) = lg (world (snd x2)) @ map (\<lambda>m. to_callback (timeouts l ! m)) js" by blast
  have "marked (timeouts l) m (fst x2)" if "m < length (timeouts l)" "to_handle (timeouts l ! m) = h" for m
    using marked_inv.kept_star [OF later] remove_timeout_marks [OF l(1,2) that(1)] rm that(2) by blast
  with js show ?thesis by (intro exI [of _ js]) (auto simp: calls_of_def)
qed

theorem removed_timeout_not_called_witness:
  "\<exists>r y. timeouts_loop edit_env 50 5 4 1 (snd (remove_timeout 2 (edit_loop\<lparr>processing_timeouts := True\<rparr>, sys0 ([], True)))) = (r, y) \<and>
     (\<exists>js. fst (world (snd y)) = map (\<lambda>m. to_callback (timeouts edit_loop ! m)) js \<and>
        (\<forall>m\<in>set js. to_handle (timeouts edit_loop ! m) \<noteq> 2))"
proof -
  let ?l = "edit_loop\<lparr>processing_timeouts := True\<rparr>" and ?s = "sys0 ([] :: nat list, True)"
  obtain r0 x1 where rm: "remove_timeout 2 (?l, ?s) = (r0, x1)" by (metis prod.exhaust)
  obtain r y where run: "timeouts_loop edit_env 50 (length (timeouts ?l)) 4 1 x1 = (r, y)" by (metis prod.exhaust)
  have d: "processing_timeouts ?l" "distinct (map to_handle (timeouts ?l))" "1 + 4 = length (timeouts ?l)"
    by (simp_all add: edit_loop_def timeout_callback_ctor_def)
  have "snd x1 = ?s" using remove_timeout_returns [OF rm] by simp
  with removed_timeout_not_called [OF edit_env_api edit_env_log d rm rtranclp.rtrancl_refl run] rm run d(3) show ?thesis
    by auto
qed

text \<open>
  When a callback throws, \<^verbatim>\<open>process_timeouts\<close> throws and every entry stays in the vector, the ones that
  were called included: when the timeouts are processed again they are called again. (The timer has been read and is not
  armed for them.)
\<close>

theorem process_timeouts_throw_keeps:
  assumes env: "api_code X ok" "call_log X lg" and l: "sen X False = False" "\<not> processing_timeouts l"
    and rd: "timerfd_read (kern X) (host_le X) (raw8 X) (timeout_timerfd l) s = (Ok v, s1)"
    and arm: "\<forall>fd fl spec t. fst (fst (sys_timerfd_settime (kern X) fd fl spec t)) \<noteq> - 1"
    and run: "process_timeouts X (l, s) = (Throw e, (l', s'))"
  shows "map unflag (timeouts l') = map unflag (timeouts l) \<and> \<not> processing_timeouts l' \<and>
     (\<exists>js. js \<noteq> [] \<and> lg (world s') = lg (world s) @ map (\<lambda>m. to_callback (timeouts l ! m)) js \<and> sorted_wrt (<) js)"
proof -
  obtain re l2 s3 where ex: "expire_timeouts X (l, s1) = (re, (l2, s3))" by (metis prod.exhaust)
  have armed: "r = Ok ()" if "arm_timeouts X t (a, b) = (r, z)" for t a b r z
    using arm that
    by (auto simp: arm_timeouts_def set_oneshot_def set_oneshot_duration_def cmd_simps split: prod.splits if_splits res.splits;
        metis fst_conv)
  have "fst (finish_timeouts X (l2, s3)) = Ok ()"
    using armed by (auto simp: finish_timeouts_run Let_def) (metis prod.collapse)
  with run rd ex have re: "re = Throw e" "l' = l2" "s' = s3"
    by (cases re; cases "finish_timeouts X (l2, s3)"; simp add: process_timeouts_split cmd_simps)+
  obtain now lm js where "frozen (timeouts l) lm" "calls_of (timeouts l) now 0 (l\<lparr>processing_timeouts := True\<rparr>) js (Throw e) lm"
      "lg (world s3) = lg (world s1) @ map (\<lambda>m. to_callback (timeouts l ! m)) js" "l2 = lm\<lparr>processing_timeouts := False\<rparr>"
    by (rule expire_timeouts_calls [OF env l ex]) (use re(1) in auto)
  with re(2,3) timerfd_read_log [OF env(2) rd] show ?thesis
    by (auto simp: frozen_def calls_of_def)
qed

theorem process_timeouts_throw_keeps_witness:
  "\<exists>e l' s'. process_timeouts edit_env (log_loop [timeout_callback_ctor 0 8 2, timeout_callback_ctor 1 9 3], sys0 ([], True))
       = (Throw e, (l', s')) \<and> map to_callback (timeouts l') = [2, 3] \<and> fst (world s') = [2, 3] \<and>
     (\<exists>js. js \<noteq> [] \<and> fst (world s') = map (\<lambda>m. to_callback (timeouts l' ! m)) js) \<and>
     fst (world (snd (snd (process_timeouts edit_env (l', s'))))) = [2, 3, 2, 3]"
proof -
  let ?ts = "[timeout_callback_ctor 0 8 2, timeout_callback_ctor 1 9 3] :: nat timeout_callback list"
  have eval: "process_timeouts edit_env (log_loop ?ts, sys0 (w, b)) =
      (Throw (Runtime_error ''callback''), (log_loop ?ts, sys0 (w @ [2, 3], b)))" for w b
    by (simp add: process_timeouts_split edit_env_simps log_env_simps expire_timeouts_def with_sentry_def
        cmd_simps edit_env_run timeout_callback_ctor_def Let_def eval_nat_numeral log_loop_def empty_loop_def)
  have settime: "\<forall>fd fl spec t. fst (fst (sys_timerfd_settime (kern edit_env) fd fl spec t)) \<noteq> - 1"
    by (simp add: edit_env_def log_env_def)
  have "timerfd_read (kern edit_env) (host_le edit_env) (raw8 edit_env) t s = (Ok 0, s)" for t s
    by (simp add: edit_env_simps log_env_simps(4))
  from process_timeouts_throw_keeps [OF edit_env_api edit_env_log edit_env_simps(2) _ this settime eval [of "[]" True]]
  obtain js where js: "js \<noteq> []" "fst (world (sys0 ([] @ [2, 3], True))) =
      fst (world (sys0 ([], True))) @ map (\<lambda>m. to_callback (timeouts (log_loop ?ts) ! m)) js"
    by (elim meta_impE conjE exE) (simp, rule that)
  then have "\<exists>js. js \<noteq> [] \<and> [2, 3] = map (\<lambda>m. to_callback (?ts ! m)) js" by (intro exI [of _ js]) simp
  with eval show ?thesis by (simp add: timeout_callback_ctor_def)
qed

end
