(* ===== verification/Ioloop_Periodic.thy ===== *)
theory Ioloop_Periodic
  imports Ioloop_Timeouts
begin

text \<open>
  The periodic timeouts of \<^verbatim>\<open>ioloop\<close>: as for the one-shot timeouts, the vector is frozen up
  to its flags while callbacks run; the expired entries are called and come back with the time of their next period. Two operations
  of the interface are undefined behaviour where a caller would expect them to work.
\<close>

subsection \<open>User code and the vector of periodic timeouts\<close>

definition periodic_part ::
  "'c ioloop \<Rightarrow> 'c periodic_timeout_callback list \<times> bool \<times> 'c periodic_timeout_callback list" where
  "periodic_part l = (periodic_timeouts l, processing_periodic_timeouts l, pending_periodic_timeout_additions l)"

lemma leaves_periodic_part:
  "leaves periodic_part (add_handler X fd ev cb)" "leaves periodic_part (remove_handler X fd)"
  "leaves periodic_part (add_callback X c)" "leaves periodic_part (stop X)"
  "leaves periodic_part (add_timeout X t c)" "leaves periodic_part (add_timeout_delay X d c)"
  "leaves periodic_part (remove_timeout h)" "leaves periodic_part timeout_handle"
  "leaves periodic_part periodic_timeout_handle"
  unfolding periodic_timeout_handle_def add_handler_def remove_handler_def erase_handler_def add_callback_def stop_def
    add_timeout_delay_def add_timeout_def insert_timeout_def timeout_handle_def arm_timeouts_def remove_timeout_def
  by (auto intro!: leaves_intros simp: periodic_part_def)

lemmas leaves_periodicD = leaves_periodic_part [THEN leavesD]

text \<open>While it is processed the vector changes only in its flags.\<close>

definition plain :: "'c periodic_timeout_callback \<Rightarrow> 'c periodic_timeout_callback" where
  "plain t = t\<lparr>pt_remove := False, pt_processed := False\<rparr>"

definition pfrozen :: "'c periodic_timeout_callback list \<Rightarrow> 'c ioloop \<Rightarrow> bool" where
  "pfrozen ts l \<longleftrightarrow> processing_periodic_timeouts l \<and> map plain (periodic_timeouts l) = map plain ts"

lemma plain_simps [simp]:
  "plain (t\<lparr>pt_remove := b\<rparr>) = plain t" "plain (t\<lparr>pt_processed := b\<rparr>) = plain t"
  by (simp_all add: plain_def)

lemma plain_times: "map plain ts = map plain us \<Longrightarrow> map pt_timeout ts = map pt_timeout us"
proof -
  have "pt_timeout \<circ> plain = pt_timeout" by (auto simp: plain_def)
  then show "map plain ts = map plain us \<Longrightarrow> map pt_timeout ts = map pt_timeout us" by (metis map_map)
qed

lemma pfrozen_length: "pfrozen ts l \<Longrightarrow> length (periodic_timeouts l) = length ts"
  unfolding pfrozen_def by (metis length_map)

lemma pfrozen_mark:
  "pfrozen ts l \<Longrightarrow> i < length (periodic_timeouts l) \<Longrightarrow>
     pfrozen ts (l\<lparr>periodic_timeouts := (periodic_timeouts l)[i := (periodic_timeouts l ! i)\<lparr>pt_processed := True\<rparr>]\<rparr>)"
  by (simp add: pfrozen_def map_update) (metis length_map list_update_id nth_map)

lemma add_periodic_processing:
  assumes "processing_periodic_timeouts (fst x)" "add_periodic_timeout X p c x = (r, y)"
  shows "\<exists>h. r = Ok h \<and> periodic_timeouts (fst y) = periodic_timeouts (fst x) \<and> processing_periodic_timeouts (fst y)"
  using assms by (cases x) (auto simp: add_periodic_timeout_def periodic_timeout_handle_def cmd_simps call_def split: prod.splits)

lemma api_step_pfrozen: "api_step X ok x y \<Longrightarrow> pfrozen ts (fst x) \<Longrightarrow> pfrozen ts (fst y)"
proof (induction rule: api_step.induct)
  case (call_add_periodic p c x r y)
  then show ?case using add_periodic_processing [of x X p c r y] by (auto simp: pfrozen_def)
next
  case (call_remove_periodic k x r y)
  then show ?case
    by (cases x) (auto simp: remove_periodic_timeout_def pfrozen_def cmd_simps map_change_first split: if_splits)
qed (auto dest!: leaves_periodicD simp: periodic_part_def pfrozen_def)

interpretation pfrozen_inv: api_invariant X ok "\<lambda>x. pfrozen ts (fst x)" for X ok ts
  by unfold_locales (rule api_step_pfrozen)

lemma periodic_loop_frozen:
  assumes "api_code X ok"
  shows "pfrozen ts (fst x) \<Longrightarrow> i + k = length ts \<Longrightarrow> periodic_loop X now (length ts) k i x = (r, y) \<Longrightarrow>
     pfrozen ts (fst y) \<and> defined r"
proof (induction k arbitrary: i x)
  case 0
  then show ?case by (cases x) (auto simp: cmd_simps pfrozen_length defined_def)
next
  case (Suc k)
  obtain l s where x: "x = (l, s)" by (cases x)
  let ?t = "periodic_timeouts l ! i"
  let ?l = "l\<lparr>periodic_timeouts := (periodic_timeouts l)[i := ?t\<lparr>pt_processed := True\<rparr>]\<rparr>"
  have len: "length (periodic_timeouts l) = length ts" using Suc.prems(1) x by (simp add: pfrozen_length)
  show ?case
  proof (cases "pt_remove ?t \<or> now < pt_timeout ?t")
    case True
    with Suc.prems x len Suc.IH [of x "i + 1"] show ?thesis
      by (auto simp: cmd_simps Let_def defined_def split: if_splits)
  next
    case False
    obtain r1 y1 where c: "run_callback (user X) (pt_callback ?t) (?l, s) = (r1, y1)" by (metis prod.exhaust)
    have "pfrozen ts ?l" using Suc.prems x len by (simp add: pfrozen_mark)
    with pfrozen_inv.callback_keeps [OF assms c, of ts] Suc.prems x len False c Suc.IH [of y1 "i + 1"]
    show ?thesis by (cases r1) (auto simp: cmd_simps Let_def defined_def)
  qed
qed

subsection \<open>The phases of processing\<close>

definition expire_periodic :: "('c, 'w) loop_env \<Rightarrow> (('c, 'w) loop_state, unit) cmd" where
  "expire_periodic X =
     with_sentry (sen X) processing_periodic_timeouts (\<lambda>b l. l\<lparr>processing_periodic_timeouts := b\<rparr>)
       (then_c (loop_modify (\<lambda>l. l\<lparr>processing_periodic_timeouts := True\<rparr>))
        (bind_c (beside (call (sys_steady_now (kern X)))) (\<lambda>now.
         bind_c (loop_get (\<lambda>l. length (periodic_timeouts l))) (\<lambda>n.
         periodic_loop X now n n 0))))"

definition finished_periodic :: "('c, 'w) loop_env \<Rightarrow> int \<Rightarrow> 'c ioloop \<Rightarrow> 'c ioloop" where
  "finished_periodic X now l = l\<lparr>periodic_timeouts := fold put_periodic (pending_periodic_timeout_additions l)
       (srt X (reset_processed now (filter (\<lambda>t. \<not> pt_remove t) (periodic_timeouts l)))),
     pending_periodic_timeout_additions := []\<rparr>"

definition finish_periodic :: "('c, 'w) loop_env \<Rightarrow> (('c, 'w) loop_state, unit) cmd" where
  "finish_periodic X =
     bind_c (beside (call (sys_steady_now (kern X)))) (\<lambda>now.
     then_c (loop_modify (finished_periodic X now))
     (bind_c (loop_get periodic_timeouts) (\<lambda>ts. when_c (ts \<noteq> []) (arm_periodic X (pt_timeout (hd ts))))))"

lemma process_periodic_split:
  "process_periodic_timeouts X (l, s) =
     (case timerfd_read (kern X) (host_le X) (raw8 X) (periodic_timeout_timerfd l) s of
        (Ok v, s1) \<Rightarrow> then_c (expire_periodic X) (finish_periodic X) (l, s1)
      | (Throw e, s1) \<Rightarrow> (Throw e, (l, s1))
      | (Undefined, s1) \<Rightarrow> (Undefined, (l, s1))
      | (Terminated, s1) \<Rightarrow> (Terminated, (l, s1)))"
  by (simp add: process_periodic_timeouts_def expire_periodic_def finish_periodic_def finished_periodic_def
      cmd_simps split: prod.splits res.splits)

lemma arm_periodic_defined: "arm_periodic X t (l, s) = (r, y) \<Longrightarrow> defined r \<and> fst y = l"
  by (auto simp: arm_periodic_def set_oneshot_def set_oneshot_duration_def cmd_simps defined_def
      split: prod.splits if_splits res.splits)

lemma finish_periodic_defined:
  assumes "finish_periodic X (l, s) = (r, (l', s'))" "sys_steady_now (kern X) s = (now, s1)"
  shows "defined r \<and> l' = finished_periodic X now l"
  using assms by (auto simp: finish_periodic_def cmd_simps defined_def split: if_splits dest: arm_periodic_defined)

lemma expire_periodic_frozen:
  assumes "api_code X ok" "sen X False = False" "\<not> processing_periodic_timeouts l"
    and "expire_periodic X (l, s) = (r, (l', s'))"
  shows "defined r \<and> \<not> processing_periodic_timeouts l'
    \<and> map plain (periodic_timeouts l') = map plain (periodic_timeouts l)"
proof -
  let ?l = "l\<lparr>processing_periodic_timeouts := True\<rparr>" and ?n = "length (periodic_timeouts l)"
  obtain now s1 where now: "sys_steady_now (kern X) s = (now, s1)" by (metis prod.exhaust)
  obtain rl l1 s2 where loop: "periodic_loop X now ?n ?n 0 (?l, s1) = (rl, (l1, s2))" by (metis prod.exhaust)
  have "pfrozen (periodic_timeouts l) ?l" by (simp add: pfrozen_def)
  with periodic_loop_frozen [OF assms(1) _ _ loop] have "pfrozen (periodic_timeouts l) l1" "defined rl" by auto
  moreover have "r = rl" "l' = l1\<lparr>processing_periodic_timeouts := False\<rparr>"
    using assms(2-4) now loop by (simp_all add: expire_periodic_def with_sentry_def cmd_simps)
  ultimately show ?thesis by (simp add: pfrozen_def)
qed

text \<open>\<^verbatim>\<open>std::sort\<close> with the order of \<^verbatim>\<open>operator <\<close>: a
  permutation in order of time.\<close>

definition sort_law :: "('c, 'w) loop_env \<Rightarrow> bool" where
  "sort_law X \<longleftrightarrow> (\<forall>ts. sorted (map pt_timeout (srt X ts)) \<and> mset (srt X ts) = mset ts)"

lemma finished_periodic_sorted: "sort_law X \<Longrightarrow> sorted (map pt_timeout (periodic_timeouts (finished_periodic X now l)))"
  by (simp add: finished_periodic_def sort_law_def periodic_q.put_all_sorted)

subsection \<open>Which callbacks run\<close>

lemma periodic_loop_quiet:
  assumes "quiet X eff"
  shows "\<forall>t\<in>set todo. \<not> pt_remove t \<Longrightarrow> n = length pre + length todo \<Longrightarrow>
     periodic_loop X now n (length todo) (length pre) (l\<lparr>periodic_timeouts := pre @ todo\<rparr>, s) =
       (Ok (), (l\<lparr>periodic_timeouts := pre @ map (\<lambda>t. t\<lparr>pt_processed := True\<rparr>) (takeWhile (\<lambda>t. pt_timeout t \<le> now) todo)
            @ dropWhile (\<lambda>t. pt_timeout t \<le> now) todo\<rparr>,
          fold (\<lambda>t. eff (pt_callback t)) (takeWhile (\<lambda>t. pt_timeout t \<le> now) todo) s))"
proof (induction todo arbitrary: pre s)
  case Nil
  then show ?case by (simp add: cmd_simps)
next
  case (Cons t todo)
  with Cons.IH [of "pre @ [t\<lparr>pt_processed := True\<rparr>]" "eff (pt_callback t) s"] assms show ?case
    by (simp add: cmd_simps Let_def quiet_def)
qed

lemma reset_processed_prefix:
  "\<forall>t\<in>set done. \<not> pt_processed t \<Longrightarrow> \<forall>t\<in>set rest. \<not> pt_processed t \<Longrightarrow>
     reset_processed now (map (\<lambda>t. t\<lparr>pt_processed := True\<rparr>) done @ rest) = map (periodic_reset now) done @ rest"
proof (induction "done")
  case Nil
  then show ?case by (cases rest) simp_all
next
  case (Cons t ts)
  then show ?case by (simp add: periodic_reset_def)
qed

lemma expire_periodic_quiet:
  assumes "quiet X eff" "sen X False = False" "\<not> processing_periodic_timeouts l"
    and "sys_steady_now (kern X) s = (now, s1)" "periodic_timeouts l = expired @ rest"
    and "\<forall>t\<in>set (periodic_timeouts l). \<not> pt_remove t"
    and "\<forall>t\<in>set expired. pt_timeout t \<le> now" "rest = [] \<or> now < pt_timeout (hd rest)"
  shows "expire_periodic X (l, s) =
     (Ok (), (l\<lparr>periodic_timeouts := map (\<lambda>t. t\<lparr>pt_processed := True\<rparr>) expired @ rest\<rparr>,
        fold (\<lambda>t. eff (pt_callback t)) expired s1))"
proof -
  have tw: "takeWhile (\<lambda>t. pt_timeout t \<le> now) (expired @ rest) = expired"
      "dropWhile (\<lambda>t. pt_timeout t \<le> now) (expired @ rest) = rest"
    using assms(7,8) by (cases rest; simp add: takeWhile_append2 dropWhile_append2)+
  have l: "l\<lparr>processing_periodic_timeouts := True, periodic_timeouts := expired @ rest\<rparr>
      = l\<lparr>processing_periodic_timeouts := True\<rparr>"
    using assms(5) by simp
  have b: "l\<lparr>processing_periodic_timeouts := True, periodic_timeouts := u, processing_periodic_timeouts := False\<rparr>
      = l\<lparr>periodic_timeouts := u\<rparr>" for u
    using assms(3) by simp
  from periodic_loop_quiet [OF assms(1), of "expired @ rest" "length (expired @ rest)" "[]" now
      "l\<lparr>processing_periodic_timeouts := True\<rparr>" s1] assms(2-6)
  show ?thesis by (simp add: expire_periodic_def with_sentry_def cmd_simps tw l b)
qed

lemma log_env_periodic:
  "sort_law log_env" "timerfd_read (kern log_env) (host_le log_env) (raw8 log_env) t s = (Ok 0, s)"
  by (simp_all add: log_env_simps sort_law_def) (simp_all add: log_env_def)

definition log_periodic :: "nat periodic_timeout_callback list \<Rightarrow> nat ioloop" where
  "log_periodic ts = (log_loop [])\<lparr>periodic_timeouts := ts\<rparr>"

lemma log_periodic_simps [simp]:
  "periodic_timeouts (log_periodic ts) = ts" "\<not> processing_periodic_timeouts (log_periodic ts)"
  "pending_periodic_timeout_additions (log_periodic ts) = []"
  by (simp_all add: log_periodic_def log_loop_def empty_loop_def)

lemma log_env_arm_periodic: "\<exists>s'. arm_periodic log_env t (l, s) = (Ok (), (l, s'))"
  by (simp add: arm_periodic_def set_oneshot_def set_oneshot_duration_def log_env_def cmd_simps)

lemma process_periodic_outcome:
  assumes "api_code X ok" "sen X False = False" "sort_law X" "\<not> processing_periodic_timeouts l"
    and "sorted (map pt_timeout (periodic_timeouts l))" "process_periodic_timeouts X (l, s) = (r, (l', s'))"
  shows "r \<noteq> Undefined \<and> r \<noteq> Terminated \<and> \<not> processing_periodic_timeouts l'
     \<and> sorted (map pt_timeout (periodic_timeouts l')) \<and> (r = Ok () \<longrightarrow> pending_periodic_timeout_additions l' = [])"
proof -
  obtain rr s1 where rd: "timerfd_read (kern X) (host_le X) (raw8 X) (periodic_timeout_timerfd l) s = (rr, s1)"
    by (metis prod.exhaust)
  obtain re l1 s2 where ex: "expire_periodic X (l, s1) = (re, (l1, s2))" by (metis prod.exhaust)
  obtain now s3 where now: "sys_steady_now (kern X) s2 = (now, s3)" by (metis prod.exhaust)
  note e = expire_periodic_frozen [OF assms(1,2,4) ex]
  then have so: "sorted (map pt_timeout (periodic_timeouts l1))" using assms(5) by (metis plain_times)
  note d = timerfd_read_defined [OF rd]
  show ?thesis
  proof (cases "(\<exists>v. rr = Ok v) \<and> re = Ok ()")
    case True
    with assms(6) rd ex have "finish_periodic X (l1, s2) = (r, (l', s'))"
      by (auto simp: process_periodic_split cmd_simps)
    from finish_periodic_defined [OF this now] e finished_periodic_sorted [OF assms(3), of now l1] show ?thesis
      by (auto simp: defined_def) (simp_all add: finished_periodic_def)
  next
    case False
    with assms(4-6) rd ex e d so show ?thesis
      by (cases rr; cases re) (auto simp: process_periodic_split cmd_simps defined_def)
  qed
qed

subsection \<open>Properties\<close>

text \<open>
  Processing the periodic timeouts is safe for every user code that acts through the loop's
  methods, also when a callback adds or removes timeouts or throws: no undefined behaviour, the flag
  is reset, the vector stays in order of time, and on return the pending additions have been taken over.
\<close>

theorem process_periodic_safe:
  assumes "api_code X ok" "sen X False = False" "sort_law X" "\<not> processing_periodic_timeouts l"
    and "sorted (map pt_timeout (periodic_timeouts l))" "process_periodic_timeouts X (l, s) = (r, (l', s'))"
  shows "r \<noteq> Undefined \<and> r \<noteq> Terminated \<and> \<not> processing_periodic_timeouts l'
     \<and> sorted (map pt_timeout (periodic_timeouts l')) \<and> (r = Ok () \<longrightarrow> pending_periodic_timeout_additions l' = [])"
  by (rule process_periodic_outcome [OF assms])

theorem process_periodic_safe_witness:
  "fst (process_periodic_timeouts log_env (log_periodic [periodic_timeout_callback_ctor 0 5 9 1], sys0 ([], True)))
     \<noteq> Undefined"
proof -
  let ?x = "(log_periodic [periodic_timeout_callback_ctor 0 5 9 1], sys0 ([], True))"
  obtain r l' s' where run: "process_periodic_timeouts log_env ?x = (r, (l', s'))" by (metis prod.exhaust)
  from process_periodic_safe [OF log_env_api log_env_simps(1) log_env_periodic(1) _ _ run] run show ?thesis by simp
qed

text \<open>
  No periodic timeout is lost: the expired ones are called once each, in order of time, and
  come back with the time of their next period; the others are unchanged; the
  vector is in order and the timer is set to its front.
\<close>

theorem process_periodic_reschedules:
  assumes "quiet X eff" "sort_law X" "sen X False = False" "\<not> processing_periodic_timeouts l"
    and "timerfd_read (kern X) (host_le X) (raw8 X) (periodic_timeout_timerfd l) s = (Ok v, s1)"
    and "sys_steady_now (kern X) s1 = (now, s2)"
    and "sys_steady_now (kern X) (fold (\<lambda>t. eff (pt_callback t)) expired s2) = (now', s3)"
    and "periodic_timeouts l = expired @ rest"
    and "\<forall>t\<in>set expired. pt_timeout t \<le> now" "rest = [] \<or> now < pt_timeout (hd rest)"
    and "\<forall>t\<in>set (periodic_timeouts l). \<not> pt_remove t \<and> \<not> pt_processed t"
    and "pending_periodic_timeout_additions l = []"
  shows "\<exists>ts. process_periodic_timeouts X (l, s) =
       (if ts = [] then (Ok (), (l\<lparr>periodic_timeouts := ts\<rparr>, s3))
        else arm_periodic X (pt_timeout (hd ts)) (l\<lparr>periodic_timeouts := ts\<rparr>, s3))
     \<and> mset ts = mset (map (periodic_reset now') expired) + mset rest
     \<and> sorted (map pt_timeout ts)"
proof -
  let ?marked = "map (\<lambda>t. t\<lparr>pt_processed := True\<rparr>) expired @ rest"
  let ?ts = "srt X (map (periodic_reset now') expired @ rest)"
  have f: "filter (\<lambda>t. \<not> pt_remove t) ?marked = ?marked" using assms(8,11) by (auto simp: filter_id_conv)
  have rs: "reset_processed now' ?marked = map (periodic_reset now') expired @ rest"
    using assms(8,11) by (simp add: reset_processed_prefix)
  have fin: "finished_periodic X now' (l\<lparr>periodic_timeouts := ?marked\<rparr>) = l\<lparr>periodic_timeouts := ?ts\<rparr>"
    unfolding finished_periodic_def using assms(12) by (simp add: f [simplified] rs)
  have "process_periodic_timeouts X (l, s) = finish_periodic X (l\<lparr>periodic_timeouts := ?marked\<rparr>,
      fold (\<lambda>t. eff (pt_callback t)) expired s2)"
    using expire_periodic_quiet [OF assms(1,3,4,6,8) _ assms(9,10)] assms(5,11)
    by (simp add: process_periodic_split cmd_simps)
  with assms(7) fin have "process_periodic_timeouts X (l, s) =
       (if ?ts = [] then (Ok (), (l\<lparr>periodic_timeouts := ?ts\<rparr>, s3))
        else arm_periodic X (pt_timeout (hd ?ts)) (l\<lparr>periodic_timeouts := ?ts\<rparr>, s3))"
    by (simp add: finish_periodic_def cmd_simps)
  with assms(2) show ?thesis unfolding sort_law_def by (metis mset_append)
qed

theorem process_periodic_reschedules_witness:
  "\<exists>l' s'. process_periodic_timeouts log_env
       (log_periodic ([periodic_timeout_callback_ctor 0 5 9 1] @ [periodic_timeout_callback_ctor 1 50 30 2]), sys0 ([], False))
       = (Ok (), (l', s'))
     \<and> mset (periodic_timeouts l') = {#periodic_timeout_callback_ctor 0 5 15 1, periodic_timeout_callback_ctor 1 50 30 2#}"
proof -
  let ?e = "[periodic_timeout_callback_ctor 0 5 9 (1::nat)]" and ?r = "[periodic_timeout_callback_ctor 1 50 30 (2::nat)]"
  define l where "l = log_periodic (?e @ ?r)"
  have l: "\<not> processing_periodic_timeouts l" "periodic_timeouts l = ?e @ ?r" "pending_periodic_timeout_additions l = []"
    by (simp_all add: l_def)
  have "\<forall>t\<in>set ?e. pt_timeout t \<le> 10" "?r = [] \<or> 10 < pt_timeout (hd ?r)"
    "\<forall>t\<in>set (periodic_timeouts l). \<not> pt_remove t \<and> \<not> pt_processed t"
    by (simp_all add: l periodic_timeout_callback_ctor_def)
  from process_periodic_reschedules [OF log_env_simps(3) log_env_periodic(1) log_env_simps(1) l(1) log_env_periodic(2)
      log_env_simps(5) log_env_simps(5) l(2) this l(3), of "sys0 ([], False)"]
  obtain ts s3 where ts: "process_periodic_timeouts log_env (l, sys0 ([], False)) =
       (if ts = [] then (Ok (), (l\<lparr>periodic_timeouts := ts\<rparr>, s3))
        else arm_periodic log_env (pt_timeout (hd ts)) (l\<lparr>periodic_timeouts := ts\<rparr>, s3))"
    "mset ts = mset (map (periodic_reset 10) ?e) + mset ?r"
    by blast
  then have "ts \<noteq> []" by auto
  with ts(1) log_env_arm_periodic obtain s' where
    "process_periodic_timeouts log_env (l, sys0 ([], False)) = (Ok (), (l\<lparr>periodic_timeouts := ts\<rparr>, s'))"
    by metis
  moreover have "map (periodic_reset 10) ?e = [periodic_timeout_callback_ctor 0 5 15 1]"
    by (simp add: periodic_reset_def periodic_timeout_callback_ctor_def)
  ultimately show ?thesis using ts(2) unfolding l_def by auto
qed

text \<open>
  C39. The first periodic timeout of a loop cannot be added: the new entry is in the vector, and then
  its handle is read from the front of the other, empty, vector. No call returns a handle, and every call that can arm
  the timer is undefined behaviour.
\<close>

theorem add_first_periodic_undefined:
  assumes "\<not> processing_periodic_timeouts l" "periodic_timeouts l = []" "pending_periodic_timeout_additions l = []"
    and "sys_steady_now (kern X) s = (now, s1)"
    and "set_oneshot (kern X) (periodic_timeout_timerfd l) (now + period) s1 = (Ok old, s2)"
  shows "fst (add_periodic_timeout X period callback (l, s)) = Undefined"
  using assms by (simp add: add_periodic_timeout_def periodic_timeout_handle_def arm_periodic_def cmd_simps)

theorem add_first_periodic_undefined_witness:
  "fst (add_periodic_timeout log_env 5 1 (log_periodic [], sys0 ([], False))) = Undefined"
proof -
  have "\<exists>old s2. set_oneshot (kern log_env) t 15 s = (Ok old, s2)" for t s
    by (simp add: set_oneshot_def set_oneshot_duration_def log_env_def cmd_simps)
  then obtain old s2 where
    "set_oneshot (kern log_env) (periodic_timeout_timerfd (log_periodic [])) (10 + 5) (sys0 ([], False)) = (Ok old, s2)"
    by fastforce
  with log_env_simps(5) show ?thesis by (rule add_first_periodic_undefined [rotated 3]) simp_all
qed

text \<open>
  A periodic timeout that was added while periodic timeouts are processed cannot be removed
  before the processing ends: its iterator into the pending vector is erased from the other vector,
  which is undefined behaviour.
\<close>

theorem remove_pending_periodic_undefined:
  assumes "processing_periodic_timeouts l" "\<forall>t\<in>set (periodic_timeouts l). pt_handle t \<noteq> next_periodic_id l"
    and "add_periodic_timeout X period callback (l, s) = (r, x)"
  shows "\<exists>h. r = Ok h \<and> fst (remove_periodic_timeout h x) = Undefined"
  using assms
  by (auto simp: add_periodic_timeout_def periodic_timeout_handle_def periodic_timeout_callback_ctor_def
      remove_periodic_timeout_def cmd_simps)

theorem remove_pending_periodic_undefined_witness:
  "\<exists>h x. add_periodic_timeout log_env 5 1 ((log_periodic [])\<lparr>processing_periodic_timeouts := True\<rparr>, sys0 ([], False)) = (Ok h, x)
     \<and> fst (remove_periodic_timeout h x) = Undefined"
proof -
  let ?l = "(log_periodic [])\<lparr>processing_periodic_timeouts := True\<rparr>"
  obtain r x where run: "add_periodic_timeout log_env 5 1 (?l, sys0 ([], False)) = (r, x)" by (metis prod.exhaust)
  from remove_pending_periodic_undefined [OF _ _ run] run show ?thesis by auto
qed

end
