(* ===== verification/Periodic_Calls.thy ===== *)
theory Periodic_Calls
  imports Timeout_Calls Ioloop_Periodic
begin

text \<open>
  Which periodic timeouts \<^verbatim>\<open>process_periodic_timeouts\<close> calls and what becomes of each entry, for callbacks that
  act on the loop in any way its methods allow.
\<close>

subsection \<open>What happens to the vector\<close>

text \<open>While the vector is processed, user code acts on the loop, and the loop marks the entries it invokes.\<close>

inductive periodic_move ::
  "('c, 'w) loop_env \<Rightarrow> ('w sys \<Rightarrow> 'w sys \<Rightarrow> bool) \<Rightarrow> ('c, 'w) loop_state \<Rightarrow> ('c, 'w) loop_state \<Rightarrow> bool" for X ok where
  by_user: "api_step X ok x y \<Longrightarrow> periodic_move X ok x y"
| by_invoke: "i < length (periodic_timeouts l) \<Longrightarrow> periodic_move X ok (l, s)
     (l\<lparr>periodic_timeouts := (periodic_timeouts l)[i := (periodic_timeouts l ! i)\<lparr>pt_processed := True\<rparr>]\<rparr>, s)"

lemma user_moves: "(api_step X ok)\<^sup>*\<^sup>* x y \<Longrightarrow> (periodic_move X ok)\<^sup>*\<^sup>* x y"
  by (induction rule: rtranclp_induct) (auto intro: by_user rtranclp.rtrancl_into_rtrancl)

text \<open>Entry \<open>m\<close> is marked as removed; the entries marked as processed are those in \<open>P\<close>.\<close>

definition pmarked :: "'c periodic_timeout_callback list \<Rightarrow> nat \<Rightarrow> 'c ioloop \<Rightarrow> bool" where
  "pmarked ts m l \<longleftrightarrow> pfrozen ts l \<and> m < length ts \<and> pt_remove (periodic_timeouts l ! m)"

definition invoked :: "'c periodic_timeout_callback list \<Rightarrow> nat set \<Rightarrow> 'c ioloop \<Rightarrow> bool" where
  "invoked ts P l \<longleftrightarrow> pfrozen ts l \<and> (\<forall>m<length ts. pt_processed (periodic_timeouts l ! m) \<longleftrightarrow> m \<in> P)"

lemma change_first_pflags:
  "m < length ts \<Longrightarrow> pt_remove (ts ! m) \<Longrightarrow> pt_remove (change_first p (\<lambda>t. t\<lparr>pt_remove := True\<rparr>) ts ! m)"
  "m < length ts \<Longrightarrow> pt_processed (change_first p (\<lambda>t. t\<lparr>pt_remove := True\<rparr>) ts ! m) = pt_processed (ts ! m)"
  by (induction ts arbitrary: m) (auto simp: nth_Cons split: nat.splits)

lemma api_step_pflags:
  assumes "api_step X ok x y" "pfrozen ts (fst x)" "m < length ts"
  shows "pt_remove (periodic_timeouts (fst x) ! m) \<Longrightarrow> pt_remove (periodic_timeouts (fst y) ! m)"
    and "pt_processed (periodic_timeouts (fst y) ! m) = pt_processed (periodic_timeouts (fst x) ! m)"
proof -
  have "(pt_remove (periodic_timeouts (fst x) ! m) \<longrightarrow> pt_remove (periodic_timeouts (fst y) ! m)) \<and>
     pt_processed (periodic_timeouts (fst y) ! m) = pt_processed (periodic_timeouts (fst x) ! m)"
    using assms
  proof (induction rule: api_step.induct)
    case (call_add_periodic p c x r y)
    then show ?case using add_periodic_processing [of x X p c r y] by (auto simp: pfrozen_def)
  next
    case (call_remove_periodic k x r y)
    then show ?case
      by (cases x) (auto simp: remove_periodic_timeout_def cmd_simps pfrozen_length change_first_pflags dest: pfrozen_def [THEN iffD1]
          split: if_splits)
  qed (auto dest!: leaves_periodicD simp: periodic_part_def)
  then show "pt_remove (periodic_timeouts (fst x) ! m) \<Longrightarrow> pt_remove (periodic_timeouts (fst y) ! m)"
    "pt_processed (periodic_timeouts (fst y) ! m) = pt_processed (periodic_timeouts (fst x) ! m)" by blast+
qed

interpretation invoked_inv: api_invariant X ok "\<lambda>x. invoked ts P (fst x)" for X ok ts P
proof
  fix x y assume "api_step X ok x y" "invoked ts P (fst x)"
  with api_step_pflags(2) [of X ok x y ts] api_step_pfrozen [of X ok x y ts] show "invoked ts P (fst y)"
    by (simp add: invoked_def)
qed

interpretation pmarked_inv: step_invariant "periodic_move X ok" "\<lambda>x. pmarked ts m (fst x)" for X ok ts m
proof
  fix x y assume "periodic_move X ok x y" "pmarked ts m (fst x)"
  then show "pmarked ts m (fst y)"
  proof cases
    case by_user
    with \<open>pmarked ts m (fst x)\<close> show ?thesis by (auto simp: pmarked_def intro: api_step_pfrozen api_step_pflags(1))
  next
    case (by_invoke i l s)
    with \<open>pmarked ts m (fst x)\<close> show ?thesis by (auto simp: pmarked_def pfrozen_mark pfrozen_length nth_list_update)
  qed
qed

lemma pfrozen_entry: "pfrozen ts l \<Longrightarrow> m < length ts \<Longrightarrow> plain (periodic_timeouts l ! m) = plain (ts ! m)"
  unfolding pfrozen_def by (metis length_map nth_map)

lemma plain_eqD:
  assumes "plain t = plain u"
  shows "pt_callback t = pt_callback u" "pt_timeout t = pt_timeout u" "pt_period t = pt_period u" "pt_handle t = pt_handle u"
proof -
  have "pt_callback (plain t) = pt_callback (plain u)" "pt_timeout (plain t) = pt_timeout (plain u)"
    "pt_period (plain t) = pt_period (plain u)" "pt_handle (plain t) = pt_handle (plain u)" using assms by simp_all
  then show "pt_callback t = pt_callback u" "pt_timeout t = pt_timeout u" "pt_period t = pt_period u" "pt_handle t = pt_handle u"
    by (simp_all add: plain_def)
qed

subsection \<open>The loop over the vector\<close>

text \<open>
  The entries \<open>js\<close> that a run of the loop from entry \<open>i\<close> on invokes are expired and were not marked; when it ends it has
  reached some \<open>j\<close>, the end or the first entry that has not expired, and it invoked or found removed every entry before \<open>j\<close>.
\<close>

definition pcalls ::
  "'c periodic_timeout_callback list \<Rightarrow> int \<Rightarrow> nat \<Rightarrow> 'c ioloop \<Rightarrow> nat list \<Rightarrow> unit res \<Rightarrow> 'c ioloop \<Rightarrow> bool" where
  "pcalls ts now i l js r l' \<longleftrightarrow>
     sorted_wrt (<) js \<and> (\<forall>m\<in>set js. i \<le> m \<and> m < length ts \<and> pt_timeout (ts ! m) \<le> now \<and> \<not> pmarked ts m l) \<and>
     (r = Ok () \<longrightarrow> (\<exists>j. i \<le> j \<and> j \<le> length ts \<and> (\<forall>m\<in>set js. m < j) \<and>
        (\<forall>m<j. m < i \<or> m \<in> set js \<or> pt_remove (periodic_timeouts l' ! m)) \<and> (j < length ts \<longrightarrow> now < pt_timeout (ts ! j))))"

lemma pcallsE:
  assumes "pcalls ts now i l js (Ok ()) l'"
  obtains j where "i \<le> j" "j \<le> length ts" "\<And>m. m \<in> set js \<Longrightarrow> m < j" "j < length ts \<Longrightarrow> now < pt_timeout (ts ! j)"
    "\<And>m. m < j \<Longrightarrow> m < i \<or> m \<in> set js \<or> pt_remove (periodic_timeouts l' ! m)"
  using assms unfolding pcalls_def by blast

lemma pcallsI:
  assumes "sorted_wrt (<) js" "\<And>m. m \<in> set js \<Longrightarrow> i \<le> m \<and> m < length ts \<and> pt_timeout (ts ! m) \<le> now \<and> \<not> pmarked ts m l"
    and "r = Ok () \<Longrightarrow> \<exists>j. i \<le> j \<and> j \<le> length ts \<and> (\<forall>m\<in>set js. m < j) \<and>
        (\<forall>m<j. m < i \<or> m \<in> set js \<or> pt_remove (periodic_timeouts l' ! m)) \<and> (j < length ts \<longrightarrow> now < pt_timeout (ts ! j))"
  shows "pcalls ts now i l js r l'"
  using assms unfolding pcalls_def by blast

lemma pcalls_skip:
  assumes "pcalls ts now (Suc i) l js r l'" "pt_remove (periodic_timeouts l' ! i)"
  shows "pcalls ts now i l js r l'"
proof (rule pcallsI)
  assume "r = Ok ()"
  with assms(1) obtain j where "Suc i \<le> j" "j \<le> length ts" "\<And>m. m \<in> set js \<Longrightarrow> m < j" "j < length ts \<Longrightarrow> now < pt_timeout (ts ! j)"
    "\<And>m. m < j \<Longrightarrow> m < Suc i \<or> m \<in> set js \<or> pt_remove (periodic_timeouts l' ! m)" by (auto elim: pcallsE)
  with assms(2) show "\<exists>j. i \<le> j \<and> j \<le> length ts \<and> (\<forall>m\<in>set js. m < j) \<and>
        (\<forall>m<j. m < i \<or> m \<in> set js \<or> pt_remove (periodic_timeouts l' ! m)) \<and> (j < length ts \<longrightarrow> now < pt_timeout (ts ! j))"
    by (intro exI [of _ j]) (auto simp: less_Suc_eq)
qed (use assms(1) in \<open>auto simp: pcalls_def\<close>)

lemma pcalls_call:
  assumes "pcalls ts now (Suc i) l1 js r l'" "i < length ts" "pt_timeout (ts ! i) \<le> now" "\<not> pmarked ts i l"
    and "\<And>m. pmarked ts m l \<Longrightarrow> pmarked ts m l1"
  shows "pcalls ts now i l (i # js) r l'"
proof (rule pcallsI)
  assume "r = Ok ()"
  with assms(1) obtain j where "Suc i \<le> j" "j \<le> length ts" "\<And>m. m \<in> set js \<Longrightarrow> m < j" "j < length ts \<Longrightarrow> now < pt_timeout (ts ! j)"
    "\<And>m. m < j \<Longrightarrow> m < Suc i \<or> m \<in> set js \<or> pt_remove (periodic_timeouts l' ! m)" by (auto elim: pcallsE)
  then show "\<exists>j. i \<le> j \<and> j \<le> length ts \<and> (\<forall>m\<in>set (i # js). m < j) \<and>
        (\<forall>m<j. m < i \<or> m \<in> set (i # js) \<or> pt_remove (periodic_timeouts l' ! m)) \<and> (j < length ts \<longrightarrow> now < pt_timeout (ts ! j))"
    by (intro exI [of _ j]) (auto simp: less_Suc_eq)
qed (use assms in \<open>auto simp: pcalls_def Suc_le_eq\<close>)

lemma periodic_loop_calls:
  assumes env: "api_code X ok" "call_log X lg"
  shows "invoked ts P (fst x) \<Longrightarrow> i + k = length ts \<Longrightarrow> periodic_loop X now (length ts) k i x = (r, y) \<Longrightarrow>
     (periodic_move X ok)\<^sup>*\<^sup>* x y \<and>
     (\<exists>js. pcalls ts now i (fst x) js r (fst y) \<and> invoked ts (P \<union> set js) (fst y) \<and> for_each (periodic_invoke X) js x = (r, y) \<and>
        lg (world (snd y)) = lg (world (snd x)) @ map (\<lambda>m. pt_callback (ts ! m)) js)"
proof (induction k arbitrary: i x P)
  case 0
  then have "r = Ok ()" "y = x" by (cases x; simp add: cmd_simps invoked_def pfrozen_length)+
  moreover have "pcalls ts now i (fst x) [] (Ok ()) (fst x)" using 0 by (intro pcallsI exI [of _ i]) auto
  ultimately show ?case using 0 by (intro conjI exI [of _ "[]"]) (simp_all add: cmd_simps)
next
  case (Suc k)
  obtain l s where x: "x = (l, s)" by (cases x)
  let ?t = "periodic_timeouts l ! i"
  let ?l = "l\<lparr>periodic_timeouts := (periodic_timeouts l)[i := ?t\<lparr>pt_processed := True\<rparr>]\<rparr>"
  have fr: "pfrozen ts l" and i: "i < length ts" using Suc.prems(1,2) x by (simp_all add: invoked_def)
  note len = pfrozen_length [OF fr] and entry = plain_eqD [OF pfrozen_entry [OF fr i]]
  consider (skip) "pt_remove ?t" | (stop) "\<not> pt_remove ?t" "now < pt_timeout ?t" | (run) "\<not> pt_remove ?t" "pt_timeout ?t \<le> now"
    by linarith
  then show ?case
  proof cases
    case skip
    with Suc.prems x len have "periodic_loop X now (length ts) k (i + 1) x = (r, y)" by (simp add: cmd_simps)
    from Suc.IH [OF Suc.prems(1) _ this] Suc.prems(2) obtain js where step: "(periodic_move X ok)\<^sup>*\<^sup>* x y"
      and js: "pcalls ts now (Suc i) (fst x) js r (fst y)" "invoked ts (P \<union> set js) (fst y)" "for_each (periodic_invoke X) js x = (r, y)"
        "lg (world (snd y)) = lg (world (snd x)) @ map (\<lambda>m. pt_callback (ts ! m)) js" by auto
    have "pmarked ts i (fst y)" using pmarked_inv.kept_star [OF step] skip fr i x by (simp add: pmarked_def)
    then have "pcalls ts now i (fst x) js r (fst y)" using js(1) by (simp add: pmarked_def pcalls_skip)
    with step js show ?thesis by blast
  next
    case stop
    with Suc.prems x len have "r = Ok ()" "y = x" by (auto simp: cmd_simps)
    moreover have "pcalls ts now i l [] (Ok ()) l"
      using stop(2) entry(2) i by (intro pcallsI exI [of _ i]) auto
    ultimately show ?thesis using Suc.prems(1) x by (intro conjI exI [of _ "[]"]) (simp_all add: cmd_simps)
  next
    case run
    obtain r1 y1 where c: "run_callback (user X) (pt_callback ?t) (?l, s) = (r1, y1)" by (metis prod.exhaust)
    then have inv_i: "periodic_invoke X i x = (r1, y1)" using i len x by (simp add: cmd_simps)
    have user: "(api_step X ok)\<^sup>*\<^sup>* (?l, s) y1" using env(1) c unfolding api_code_def by blast
    have step: "(periodic_move X ok)\<^sup>*\<^sup>* x y1"
      using by_invoke [of i l X ok s] user_moves [OF user] x i len by (simp add: converse_rtranclp_into_rtranclp)
    have inv: "invoked ts (insert i P) ?l"
      using Suc.prems(1) x i len fr by (auto simp: invoked_def pfrozen_mark nth_list_update)
    then have inv1: "invoked ts (insert i P) (fst y1)" using invoked_inv.kept_star [OF user] by simp
    have lg: "lg (world (snd y1)) = lg (world s) @ [pt_callback (ts ! i)]" using call_logD(1) [OF env(2) c] entry(1) by simp
    have mono: "pmarked ts m l \<Longrightarrow> pmarked ts m (fst y1)" for m using pmarked_inv.kept_star [OF step] x by simp
    have due: "pt_timeout (ts ! i) \<le> now" "\<not> pmarked ts i l" using run entry(2) by (simp_all add: pmarked_def)
    show ?thesis
    proof (cases "\<exists>v. r1 = Ok v")
      case True
      then have "periodic_loop X now (length ts) k (i + 1) y1 = (r, y)"
        using Suc.prems(3) x inv_i run len by (auto simp: cmd_simps Let_def)
      from Suc.IH [OF inv1 _ this] Suc.prems(2) obtain js where rest: "(periodic_move X ok)\<^sup>*\<^sup>* y1 y"
        and js: "pcalls ts now (Suc i) (fst y1) js r (fst y)" "invoked ts (insert i P \<union> set js) (fst y)"
          "lg (world (snd y)) = lg (world (snd y1)) @ map (\<lambda>m. pt_callback (ts ! m)) js" "for_each (periodic_invoke X) js y1 = (r, y)" by auto
      moreover have "for_each (periodic_invoke X) (i # js) x = (r, y)" using True inv_i js(4) by (auto simp: cmd_simps)
      ultimately show ?thesis using pcalls_call [OF js(1) i due mono] lg rtranclp_trans [OF step rest] x
        by (intro conjI exI [of _ "i # js"]) (simp_all del: for_each.simps)
    next
      case False
      then have y: "y = y1" "r \<noteq> Ok ()"
        using Suc.prems(3) x inv_i run len by (cases r1; auto simp: cmd_simps Let_def)+
      have "for_each (periodic_invoke X) [i] x = (r, y)"
        using Suc.prems(3) x inv_i run len False by (cases r1) (auto simp: cmd_simps Let_def)
      moreover have "pcalls ts now i l [i] r (fst y)" using i due y(2) by (intro pcallsI) auto
      ultimately show ?thesis using step lg x y(1) inv1 by (intro conjI exI [of _ "[i]"]) (simp_all del: for_each.simps)
    qed
  qed
qed

subsection \<open>What becomes of the entries\<close>

lemma reset_processed_split:
  "\<forall>t\<in>set xs. pt_processed t \<Longrightarrow> \<forall>t\<in>set ys. \<not> pt_processed t \<Longrightarrow>
     reset_processed now (xs @ ys) = map (periodic_reset now) xs @ ys"
proof (induction xs)
  case Nil
  then show ?case by (cases ys) simp_all
qed simp

lemma plain_eq: "plain t = plain u \<Longrightarrow> pt_remove t = pt_remove u \<Longrightarrow> t = u\<lparr>pt_processed := pt_processed t\<rparr>"
  by (cases t; cases u) (simp add: plain_def)

lemma unprocessed: "\<not> pt_processed t \<Longrightarrow> t\<lparr>pt_processed := False\<rparr> = t"
  by (cases t) simp

lemma reset_same [simp]: "periodic_reset now (t\<lparr>pt_processed := b\<rparr>) = periodic_reset now t"
  by (simp add: periodic_reset_def)

text \<open>The entries that are left when those marked as removed are erased.\<close>

definition kept_entries :: "'c ioloop \<Rightarrow> nat list" where
  "kept_entries l = filter (\<lambda>m. \<not> pt_remove (periodic_timeouts l ! m)) [0..<length (periodic_timeouts l)]"

lemma reset_kept:
  assumes fr: "invoked ts (set js) lm" and calls: "pcalls ts now 0 l js (Ok ()) lm"
    and fresh: "\<forall>t\<in>set ts. \<not> pt_processed t" and old: "\<And>m. m < length ts \<Longrightarrow> pt_remove (ts ! m) \<Longrightarrow> pt_remove (periodic_timeouts lm ! m)"
  shows "reset_processed now' (filter (\<lambda>t. \<not> pt_remove t) (periodic_timeouts lm)) =
     map (\<lambda>m. if m \<in> set js then periodic_reset now' (ts ! m) else ts ! m) (kept_entries lm)"
proof -
  let ?v = "periodic_timeouts lm" and ?kept = "\<lambda>a b. filter (\<lambda>m. \<not> pt_remove (periodic_timeouts lm ! m)) [a..<b]"
  have pf: "pfrozen ts lm" and flag: "\<And>m. m < length ts \<Longrightarrow> pt_processed (?v ! m) \<longleftrightarrow> m \<in> set js"
    using fr by (auto simp: invoked_def)
  note len = pfrozen_length [OF pf]
  from calls obtain j where j: "j \<le> length ts" "\<And>m. m \<in> set js \<Longrightarrow> m < j"
    "\<And>m. m < j \<Longrightarrow> m < 0 \<or> m \<in> set js \<or> pt_remove (?v ! m)" by (rule pcallsE) blast
  have e: "?v ! m = (ts ! m)\<lparr>pt_processed := m \<in> set js\<rparr>" if "m < length ts" "\<not> pt_remove (?v ! m)" for m
    using plain_eq [OF pfrozen_entry [OF pf that(1)]] old [OF that(1)] that(2) flag [OF that(1)] by auto
  have reset_e: "periodic_reset now' (?v ! m) = periodic_reset now' (ts ! m)" if "m < j" "\<not> pt_remove (?v ! m)" for m
    using e [of m] that j(1) by simp
  have kept_e: "?v ! m = ts ! m" if "m < length ts" "\<not> pt_remove (?v ! m)" "m \<notin> set js" for m
    using e [OF that(1,2)] that fresh unprocessed [of "ts ! m"] by simp
  have upt: "[0..<length ?v] = [0..<j] @ [j..<length ts]" using upt_add_eq_append [of 0 j "length ts - j"] j(1) len by simp
  have "filter (\<lambda>t. \<not> pt_remove t) ?v = map ((!) ?v) (kept_entries lm)"
    unfolding kept_entries_def by (subst map_nth [symmetric, of ?v]) (simp only: filter_map comp_def)
  then have "filter (\<lambda>t. \<not> pt_remove t) ?v = map ((!) ?v) (?kept 0 j) @ map ((!) ?v) (?kept j (length ts))"
    by (simp add: kept_entries_def upt)
  moreover have "\<forall>t\<in>set (map ((!) ?v) (?kept 0 j)). pt_processed t" using flag j(1,3) by auto
  moreover have "\<forall>t\<in>set (map ((!) ?v) (?kept j (length ts))). \<not> pt_processed t" using flag j(2) by (auto dest: leD)
  ultimately have "reset_processed now' (filter (\<lambda>t. \<not> pt_remove t) ?v) =
      map (periodic_reset now' \<circ> (!) ?v) (?kept 0 j) @ map ((!) ?v) (?kept j (length ts))"
    by (simp only: reset_processed_split map_map)
  moreover have "map (periodic_reset now' \<circ> (!) ?v) (?kept 0 j) =
      map (\<lambda>m. if m \<in> set js then periodic_reset now' (ts ! m) else ts ! m) (?kept 0 j)"
    using j(1) j(3) reset_e by auto
  moreover have "map ((!) ?v) (?kept j (length ts)) =
      map (\<lambda>m. if m \<in> set js then periodic_reset now' (ts ! m) else ts ! m) (?kept j (length ts))"
    using kept_e by (auto dest!: j(2))
  ultimately show ?thesis by (simp add: kept_entries_def upt)
qed

lemma expire_periodic_calls:
  assumes env: "api_code X ok" "call_log X lg" and "sen X False = False" "\<not> processing_periodic_timeouts l"
    and fresh: "\<forall>t\<in>set (periodic_timeouts l). \<not> pt_processed t"
    and run: "expire_periodic X (l, s) = (r, (l', s'))"
  obtains now s1 lm js where "sys_steady_now (kern X) s = (now, s1)" "l' = lm\<lparr>processing_periodic_timeouts := False\<rparr>"
    "(periodic_move X ok)\<^sup>*\<^sup>* (l\<lparr>processing_periodic_timeouts := True\<rparr>, s1) (lm, s')"
    "pcalls (periodic_timeouts l) now 0 (l\<lparr>processing_periodic_timeouts := True\<rparr>) js r lm"
    "invoked (periodic_timeouts l) (set js) lm"
    "for_each (periodic_invoke X) js (l\<lparr>processing_periodic_timeouts := True\<rparr>, s1) = (r, (lm, s'))"
    "lg (world s') = lg (world s) @ map (\<lambda>m. pt_callback (periodic_timeouts l ! m)) js"
proof -
  let ?l = "l\<lparr>processing_periodic_timeouts := True\<rparr>" and ?n = "length (periodic_timeouts l)"
  obtain now s1 where now: "sys_steady_now (kern X) s = (now, s1)" by (metis prod.exhaust)
  obtain rl lm s2 where loop: "periodic_loop X now ?n ?n 0 (?l, s1) = (rl, (lm, s2))" by (metis prod.exhaust)
  have "invoked (periodic_timeouts l) {} ?l" using fresh by (simp add: invoked_def pfrozen_def)
  from periodic_loop_calls [OF env _ _ loop, of "{}"] this obtain js where
    "(periodic_move X ok)\<^sup>*\<^sup>* (?l, s1) (lm, s2)" "pcalls (periodic_timeouts l) now 0 ?l js rl lm"
    "invoked (periodic_timeouts l) (set js) lm" "for_each (periodic_invoke X) js (?l, s1) = (rl, (lm, s2))" "lg (world s2) = lg (world s1) @ map (\<lambda>m. pt_callback (periodic_timeouts l ! m)) js"
    by auto
  moreover have "r = rl" "l' = lm\<lparr>processing_periodic_timeouts := False\<rparr>" "s' = s2"
    using assms(3,4) run now loop by (simp_all add: expire_periodic_def with_sentry_def cmd_simps)
  moreover have "lg (world s1) = lg (world s)" using call_logD(3) [OF env(2), of s] now by simp
  ultimately show thesis using that [OF now, of lm js] by simp
qed

lemma finish_periodic_log:
  assumes "call_log X lg" "finish_periodic X (l, s) = (r, (l', s'))"
  shows "lg (world s') = lg (world s)"
proof -
  obtain now s1 where now: "sys_steady_now (kern X) s = (now, s1)" by (metis prod.exhaust)
  then have "lg (world s1) = lg (world s)" using call_logD(3) [OF assms(1), of s] by simp
  with assms(2) now show ?thesis
    by (auto simp: finish_periodic_def arm_periodic_def cmd_simps set_oneshot_log [OF assms(1)]
        split: if_splits prod.splits res.splits)
qed

subsection \<open>Properties\<close>

text \<open>
  C24. No periodic timeout is lost or called twice, whatever the callbacks do to the loop. A round of
  \<^verbatim>\<open>process_periodic_timeouts\<close> that returns reads the timer and the clock (\<open>now\<close>) and then invokes the
  entries \<open>js\<close>, one after the other and each once, which leaves the loop \<open>lm\<close>: they had expired and had not been removed, and
  every entry that had expired is among them or was removed by one of these callbacks. Then the clock is read again
  (\<open>now'\<close>) and the vector holds, in order of time, exactly the entries that the callbacks added and those that none of them
  removed: the called ones with the time of their next period, the others as they were.
\<close>

theorem process_periodic_calls:
  assumes env: "api_code X ok" "call_log X lg" "sort_law X" "sen X False = False"
    and l: "\<not> processing_periodic_timeouts l" "sorted (map pt_timeout (periodic_timeouts l))"
      "\<forall>t\<in>set (periodic_timeouts l). \<not> pt_processed t"
    and run: "process_periodic_timeouts X (l, s) = (Ok (), (l', s'))"
  shows "\<exists>v s1 now s2 lm s3 now' s4 js.
     timerfd_read (kern X) (host_le X) (raw8 X) (periodic_timeout_timerfd l) s = (Ok v, s1) \<and>
     sys_steady_now (kern X) s1 = (now, s2) \<and> sys_steady_now (kern X) s3 = (now', s4) \<and>
     for_each (periodic_invoke X) js (l\<lparr>processing_periodic_timeouts := True\<rparr>, s2) = (Ok (), (lm, s3)) \<and>
     lg (world s') = lg (world s) @ map (\<lambda>m. pt_callback (periodic_timeouts l ! m)) js \<and> sorted_wrt (<) js \<and>
     (\<forall>m\<in>set js. m < length (periodic_timeouts l) \<and> pt_timeout (periodic_timeouts l ! m) \<le> now \<and> \<not> pt_remove (periodic_timeouts l ! m)) \<and>
     (\<forall>m<length (periodic_timeouts l). pt_timeout (periodic_timeouts l ! m) \<le> now \<longrightarrow> m \<in> set js \<or> pt_remove (periodic_timeouts lm ! m)) \<and>
     sorted (map pt_timeout (periodic_timeouts l')) \<and>
     mset (periodic_timeouts l') = mset (pending_periodic_timeout_additions lm) +
       mset (map (\<lambda>m. if m \<in> set js then periodic_reset now' (periodic_timeouts l ! m) else periodic_timeouts l ! m) (kept_entries lm))"
proof -
  let ?ts = "periodic_timeouts l" and ?l = "l\<lparr>processing_periodic_timeouts := True\<rparr>"
  obtain rr s1 where rd: "timerfd_read (kern X) (host_le X) (raw8 X) (periodic_timeout_timerfd l) s = (rr, s1)"
    by (metis prod.exhaust)
  obtain re l2 s3 where ex: "expire_periodic X (l, s1) = (re, (l2, s3))" by (metis prod.exhaust)
  from run rd ex have fin: "re = Ok ()" "finish_periodic X (l2, s3) = (Ok (), (l', s'))"
    by (cases rr; cases re; simp add: process_periodic_split cmd_simps)+
  from run rd obtain v where v: "rr = Ok v" by (cases rr) (simp_all add: process_periodic_split)
  from expire_periodic_calls [OF env(1,2,4) l(1,3) ex] fin(1) obtain now s2 lm js where
    now: "sys_steady_now (kern X) s1 = (now, s2)" and l2: "l2 = lm\<lparr>processing_periodic_timeouts := False\<rparr>"
    and step: "(periodic_move X ok)\<^sup>*\<^sup>* (?l, s2) (lm, s3)" and calls: "pcalls ?ts now 0 ?l js (Ok ()) lm"
    and inv: "invoked ?ts (set js) lm" and each: "for_each (periodic_invoke X) js (?l, s2) = (Ok (), (lm, s3))" and lg: "lg (world s3) = lg (world s1) @ map (\<lambda>m. pt_callback (?ts ! m)) js"
    by metis
  obtain now' s4 where now': "sys_steady_now (kern X) s3 = (now', s4)" by (metis prod.exhaust)
  have fin_l: "l' = finished_periodic X now' l2" using finish_periodic_defined [OF fin(2) now'] by simp
  have start: "pmarked ?ts m ?l \<longleftrightarrow> m < length ?ts \<and> pt_remove (?ts ! m)" for m by (simp add: pmarked_def pfrozen_def)
  have old: "m < length ?ts \<Longrightarrow> pt_remove (?ts ! m) \<Longrightarrow> pt_remove (periodic_timeouts lm ! m)" for m
    using pmarked_inv.kept_star [OF step, of ?ts m] start [of m] by (auto simp: pmarked_def [of _ _ lm])
  have "mset (periodic_timeouts l') = mset (pending_periodic_timeout_additions lm) +
      mset (map (\<lambda>m. if m \<in> set js then periodic_reset now' (?ts ! m) else ?ts ! m) (kept_entries lm))"
    using env(3) reset_kept [OF inv calls l(3) old] l2 fin_l
    by (simp add: finished_periodic_def periodic_q.put_all_mset sort_law_def)
  moreover have "sorted (map pt_timeout (periodic_timeouts l'))" using finished_periodic_sorted [OF env(3)] fin_l by simp
  moreover have "lg (world s') = lg (world s) @ map (\<lambda>m. pt_callback (?ts ! m)) js"
    using finish_periodic_log [OF env(2) fin(2)] lg timerfd_read_log [OF env(2) rd] by simp
  moreover have "\<forall>m<length ?ts. pt_timeout (?ts ! m) \<le> now \<longrightarrow> m \<in> set js \<or> pt_remove (periodic_timeouts lm ! m)"
  proof (intro allI impI)
    fix m assume that: "m < length ?ts" "pt_timeout (?ts ! m) \<le> now"
    from calls obtain j where j: "j < length ?ts \<Longrightarrow> now < pt_timeout (?ts ! j)"
      "\<And>m. m < j \<Longrightarrow> m < 0 \<or> m \<in> set js \<or> pt_remove (periodic_timeouts lm ! m)" by (rule pcallsE) blast
    have "\<not> j \<le> m" using j(1) that l(2) sorted_nth_mono [of "map pt_timeout ?ts" j m] by fastforce
    with j(2) [of m] show "m \<in> set js \<or> pt_remove (periodic_timeouts lm ! m)" by simp
  qed
  moreover have "sorted_wrt (<) js" "\<forall>m\<in>set js. m < length ?ts \<and> pt_timeout (?ts ! m) \<le> now \<and> \<not> pt_remove (?ts ! m)"
    using calls start by (auto simp: pcalls_def)
  ultimately show ?thesis using now now' each rd [unfolded v]
    by (intro exI [of _ v] exI [of _ s1] exI [of _ now] exI [of _ s2] exI [of _ lm] exI [of _ s3] exI [of _ now'] exI [of _ s4] exI [of _ js] conjI)
      assumption+
qed

lemma edit_env_periodic:
  "sort_law edit_env" "timerfd_read (kern edit_env) (host_le edit_env) (raw8 edit_env) t s = (Ok 0, s)"
  using log_env_periodic by (simp_all add: edit_env_simps sort_law_def) (simp_all add: edit_env_def)

lemma edit_env_srt: "srt edit_env = sort_key pt_timeout"
  by (simp add: edit_env_def log_env_def)

lemma edit_env_arm_periodic: "arm_periodic edit_env t (l, s) = (Ok (), (l, s\<lparr>world := (fst (world s), True)\<rparr>))"
  using oneshot_positive [of "t - 10"] oneshot_positive [of 1]
  by (auto simp: arm_periodic_def set_oneshot_def set_oneshot_duration_def edit_env_def log_env_def cmd_simps)

theorem process_periodic_calls_witness:
  "\<exists>l' s'. process_periodic_timeouts edit_env
       (log_periodic [periodic_timeout_callback_ctor 0 25 9 2, periodic_timeout_callback_ctor 1 50 30 4], sys0 ([], False)) = (Ok (), (l', s'))
     \<and> periodic_timeouts l' = [periodic_timeout_callback_ctor 1 50 30 4, periodic_timeout_callback_ctor 0 25 35 2]
     \<and> fst (world s') = [2] \<and> (\<exists>js. fst (world s') =
         map (\<lambda>m. pt_callback ([periodic_timeout_callback_ctor 0 25 9 2, periodic_timeout_callback_ctor 1 50 30 4] ! m)) js \<and> sorted_wrt (<) js)"
proof -
  let ?l = "log_periodic [periodic_timeout_callback_ctor 0 25 9 2, periodic_timeout_callback_ctor 1 50 30 4]"
  let ?l' = "log_periodic [periodic_timeout_callback_ctor 1 50 30 4, periodic_timeout_callback_ctor 0 25 35 2]"
  have "expire_periodic edit_env (?l, sys0 ([], False)) =
      (Ok (), (?l\<lparr>periodic_timeouts := [(periodic_timeout_callback_ctor 0 25 9 2)\<lparr>pt_processed := True\<rparr>,
         periodic_timeout_callback_ctor 1 50 30 4]\<rparr>, sys0 ([2], False)))"
    by (simp add: expire_periodic_def with_sentry_def edit_env_simps log_env_simps edit_env_run cmd_simps
        periodic_timeout_callback_ctor_def log_periodic_def log_loop_def empty_loop_def Let_def)
  moreover have "finish_periodic edit_env (?l\<lparr>periodic_timeouts := [(periodic_timeout_callback_ctor 0 25 9 2)\<lparr>pt_processed := True\<rparr>,
         periodic_timeout_callback_ctor 1 50 30 4]\<rparr>, sys0 ([2], False)) = (Ok (), (?l', sys0 ([2], True)))"
    by (simp add: finish_periodic_def finished_periodic_def edit_env_simps edit_env_arm_periodic edit_env_srt log_env_simps cmd_simps
        periodic_timeout_callback_ctor_def log_periodic_def log_loop_def empty_loop_def periodic_reset_def)
  ultimately have run: "process_periodic_timeouts edit_env (?l, sys0 ([], False)) = (Ok (), (?l', sys0 ([2], True)))"
    by (simp add: process_periodic_split edit_env_periodic cmd_simps)
  from process_periodic_calls [OF edit_env_api edit_env_log edit_env_periodic(1) edit_env_simps(2) _ _ _ run]
  obtain js where "[2] = map (\<lambda>m. pt_callback (periodic_timeouts ?l ! m)) js" "sorted_wrt (<) js"
    by (elim meta_impE exE conjE) (simp_all add: periodic_timeout_callback_ctor_def)
  with run show ?thesis by (intro exI conjI) (assumption | simp)+
qed

end
