(* ===== verification/Ioloop_Dispatch.thy ===== *)
theory Ioloop_Dispatch
  imports Ioloop_Periodic
begin

text \<open>
  The loop itself: \<^verbatim>\<open>start\<close> waits for events, follows the pointer each event
  carries to a node of the map of handlers, and prunes the handlers that were removed meanwhile. Nodes are pinned during a
  dispatch, because removal is deferred (\<open>pinned\<close>), and between dispatches every registered descriptor
  carries the address of its own handler's node (\<open>loop_wf\<close>): \<open>loop_invariant\<close> is the contract of
  such a property, interpreted on both. Two theorems show where the code leaves this safe ground.
\<close>

subsection \<open>Commands that keep a property of the loop\<close>

named_theorems keeps_intros \<open>commands that keep a property of the loop\<close>

definition keeps :: "('s \<Rightarrow> bool) \<Rightarrow> ('s, 'a) cmd \<Rightarrow> bool" where
  "keeps I m \<longleftrightarrow> (\<forall>x. I x \<longrightarrow> I (snd (m x)))"

lemma keepsI: "(\<And>x r y. m x = (r, y) \<Longrightarrow> I x \<Longrightarrow> I y) \<Longrightarrow> keeps I m"
  unfolding keeps_def by (metis prod.collapse)

lemma keepsD: "keeps I m \<Longrightarrow> m x = (r, y) \<Longrightarrow> I x \<Longrightarrow> I y"
  unfolding keeps_def by (metis snd_conv)

lemma keeps_basic [keeps_intros]:
  "keeps I (ret_c v)" "keeps I (throw_c e)" "keeps I undefined_c" "keeps I (gets_c h)"
  by (simp_all add: keeps_def cmd_simps)

lemma keeps_get [keeps_intros]: "keeps I (loop_get g)"
  by (simp add: loop_get_def keeps_intros)

lemma keeps_throw_errno [keeps_intros]: "keeps J (throw_errno msg)"
  by (simp add: keeps_def cmd_simps)

lemma keeps_call [keeps_intros]: "(\<And>s. J s \<Longrightarrow> J (snd (f s))) \<Longrightarrow> keeps J (call f)"
  by (simp add: keeps_def cmd_simps)

lemma keeps_modify [keeps_intros]: "(\<And>l s. I (l, s) \<Longrightarrow> I (f l, s)) \<Longrightarrow> keeps I (loop_modify f)"
  by (auto simp: keeps_def cmd_simps)

lemma keeps_modify_c: "(\<And>s. J s \<Longrightarrow> J (f s)) \<Longrightarrow> keeps J (modify_c f)"
  by (simp add: keeps_def cmd_simps)

lemma keeps_bind [keeps_intros]:
  assumes m: "keeps I m" and g: "\<And>v. keeps I (g v)"
  shows "keeps I (bind_c m g)"
  unfolding keeps_def
proof (intro allI impI)
  fix x assume "I x"
  obtain r y where run: "m x = (r, y)" by (metis prod.exhaust)
  with keepsD [OF m this \<open>I x\<close>] g show "I (snd (bind_c m g x))"
    by (cases r) (simp_all add: cmd_simps keeps_def)
qed

lemma keeps_then [keeps_intros]: "keeps I m \<Longrightarrow> keeps I n \<Longrightarrow> keeps I (then_c m n)"
  unfolding then_c_def by (rule keeps_bind)

lemma keeps_when [keeps_intros]: "keeps I m \<Longrightarrow> keeps I (when_c b m)"
  by (simp add: when_c_def keeps_intros)

lemma keeps_if [keeps_intros]: "keeps I m \<Longrightarrow> keeps I n \<Longrightarrow> keeps I (if b then m else n)"
  by simp

lemma keeps_case [keeps_intros]: "(\<And>a b. keeps I (g a b)) \<Longrightarrow> keeps I (case p of (a, b) \<Rightarrow> g a b)"
  by (cases p) simp

lemma keeps_let [keeps_intros]: "keeps I (g v) \<Longrightarrow> keeps I (let w = v in g w)"
  by simp

lemma keeps_for_each [keeps_intros]: "(\<And>x. keeps I (f x)) \<Longrightarrow> keeps I (for_each f xs)"
  by (induction xs) (simp_all add: keeps_intros)

lemma keeps_sentry [keeps_intros]:
  "keeps I m \<Longrightarrow> (\<And>l s b. I (l, s) \<Longrightarrow> I (put b l, s)) \<Longrightarrow> keeps I (with_sentry sn get put m)"
  unfolding keeps_def with_sentry_def by (auto split: prod.splits) (metis snd_conv)

text \<open>Properties that the calls on timers, the clock and event descriptors do not affect.\<close>

definition blind :: "('w, 'x) ev_calls_scheme \<Rightarrow> (('c, 'w) loop_state \<Rightarrow> bool) \<Rightarrow> bool" where
  "blind K I \<longleftrightarrow> (\<forall>l s. I (l, s) \<longrightarrow>
     (\<forall>fd n. I (l, snd (sys_read K fd n s))) \<and> (\<forall>fd a n. I (l, snd (sys_write K fd a n s))) \<and>
     (\<forall>fd f sp. I (l, snd (sys_timerfd_settime K fd f sp s))) \<and> I (l, snd (sys_steady_now K s)) \<and>
     (\<forall>m. I (l, s\<lparr>mem := m\<rparr>)))"

lemma blindD:
  assumes "blind K I" "I (l, s)"
  shows "I (l, snd (sys_read K fd n s))" "I (l, snd (sys_write K fd a n s))"
    "I (l, snd (sys_timerfd_settime K fd f sp s))" "I (l, snd (sys_steady_now K s))" "I (l, s\<lparr>mem := m\<rparr>)"
  using assms unfolding blind_def by blast+

lemma keeps_beside: "(\<And>l. keeps (\<lambda>s. I (l, s)) m) \<Longrightarrow> keeps I (beside m)"
  by (auto simp: keeps_def cmd_simps)

lemma blind_calls [keeps_intros]:
  assumes "blind K I"
  shows "keeps I (beside (call (sys_steady_now K)))" "keeps I (beside (set_oneshot K t d))"
    "keeps I (beside (timerfd_read K le j t))" "keeps I (beside (eventfd_read K le j e))"
    "keeps I (beside (eventfd_write K le stk e))" "keeps I (beside (eventfd_write_nothrow K le stk e))"
  unfolding set_oneshot_def set_oneshot_duration_def timerfd_read_def read_file_def eventfd_read_def
    eventfd_write_def eventfd_write_nothrow_def write_file_def write_file_nothrow_def set_local64_def
  by (intro keeps_beside keeps_intros blindD [OF assms] keeps_modify_c; assumption)+

text \<open>What the loop's own handlers keep, when every callback keeps it.\<close>

lemma keeps_process_callbacks:
  assumes "\<And>c. keeps I (run_callback (user X) c)" "blind (kern X) I"
    and "\<And>l s cs. I (l, s) \<Longrightarrow> I (l\<lparr>new_callbacks := cs\<rparr>, s)"
  shows "keeps I (process_callbacks X)"
  unfolding process_callbacks_def by (intro keeps_intros assms)

lemma keeps_process_stop: "blind (kern X) I \<Longrightarrow> keeps I (process_stop X)"
  unfolding process_stop_def by (intro keeps_intros)

lemma keeps_process_timeouts:
  assumes "\<And>c. keeps I (run_callback (user X) c)" "blind (kern X) I"
    and "\<And>l s b. I (l, s) \<Longrightarrow> I (l\<lparr>processing_timeouts := b\<rparr>, s)"
    and "\<And>l s ts. I (l, s) \<Longrightarrow> I (l\<lparr>timeouts := ts\<rparr>, s)"
    and "\<And>l s ts. I (l, s) \<Longrightarrow> I (l\<lparr>pending_timeout_additions := ts\<rparr>, s)"
  shows "keeps I (process_timeouts X)"
proof -
  have loop: "keeps I (timeouts_loop X now n k i)" for now n k i
    by (induction k arbitrary: i) (simp_all, (intro keeps_intros assms; assumption)+)
  show ?thesis
    unfolding process_timeouts_def arm_timeouts_def
    by (intro keeps_intros loop assms; assumption)
qed

lemma keeps_process_periodic:
  assumes "\<And>c. keeps I (run_callback (user X) c)" "blind (kern X) I"
    and "\<And>l s b. I (l, s) \<Longrightarrow> I (l\<lparr>processing_periodic_timeouts := b\<rparr>, s)"
    and "\<And>l s ts. I (l, s) \<Longrightarrow> I (l\<lparr>periodic_timeouts := ts\<rparr>, s)"
    and "\<And>l s ts. I (l, s) \<Longrightarrow> I (l\<lparr>pending_periodic_timeout_additions := ts\<rparr>, s)"
  shows "keeps I (process_periodic_timeouts X)"
proof -
  have invoke: "keeps I (periodic_invoke X i)" for i
    unfolding periodic_invoke_def by (intro keeps_intros assms; assumption)
  have loop: "keeps I (periodic_loop X now n k i)" for now n k i
    by (induction k arbitrary: i) (simp_all, (intro keeps_intros invoke assms; assumption)+)
  show ?thesis
    unfolding process_periodic_timeouts_def arm_periodic_def
    by (intro keeps_intros loop assms; assumption)
qed

context api_invariant
begin

lemma keeps_callback [keeps_intros]: "api_code X ok \<Longrightarrow> keeps I (run_callback (user X) c)"
  using callback_keeps by (blast intro: keepsI)

end

subsection \<open>Between handlers\<close>

definition calm_timeouts :: "'c ioloop \<Rightarrow> bool" where
  "calm_timeouts l \<longleftrightarrow> \<not> processing_timeouts l \<and> sorted (map to_timeout (timeouts l))"

definition calm_periodic :: "'c ioloop \<Rightarrow> bool" where
  "calm_periodic l \<longleftrightarrow> \<not> processing_periodic_timeouts l \<and> sorted (map pt_timeout (periodic_timeouts l))"

lemma add_timeout_calm:
  assumes "calm_timeouts (fst x)" "add_timeout X t c x = (r, y)"
  shows "calm_timeouts (fst y)"
proof -
  obtain l s where x: "x = (l, s)" by (cases x)
  let ?l = "l\<lparr>next_timeout_id := next_timeout_id l + 1,
      timeouts := put_timeout (timeout_callback_ctor (next_timeout_id l) t c) (timeouts l)\<rparr>"
  have "fst y = ?l"
    using assms x by (auto simp: add_timeout_cases calm_timeouts_def Let_def cmd_simps
        split: if_splits prod.splits res.splits dest: arm_timeouts_defined)
  with assms(1) x timeout_q.put_sorted [of "timeouts l"] show ?thesis by (simp add: calm_timeouts_def)
qed

lemma api_step_calm_timeouts: "api_step X ok x y \<Longrightarrow> calm_timeouts (fst x) \<Longrightarrow> calm_timeouts (fst y)"
proof (induction rule: api_step.induct)
  case (call_add_timeout_delay d c x r y)
  then obtain t x1 where "add_timeout X t c x1 = (r, y)" "fst x1 = fst x"
    by (cases x) (auto simp: add_timeout_delay_def cmd_simps)
  with call_add_timeout_delay show ?case using add_timeout_calm by metis
next
  case (call_remove_timeout k x r y)
  then show ?case
    by (cases x) (auto simp: remove_timeout_def calm_timeouts_def cmd_simps sorted_erase_first split: if_splits)
next
  case (call_add_timeout t c x r y)
  show ?case by (rule add_timeout_calm [OF call_add_timeout(2,1)])
qed (auto dest: leaves_timeoutD
     simp: timeout_part_def calm_timeouts_def)

lemma insert_periodic_calm:
  assumes "calm_periodic l" "insert_periodic_timeout X p c (l, s) = (r, (l', s'))"
  shows "calm_periodic l' \<and> (\<exists>h. r = Ok h)"
proof -
  obtain now s1 where now: "sys_steady_now (kern X) s = (now, s1)" by (metis prod.exhaust)
  let ?e = "periodic_timeout_callback_ctor (next_periodic_id l) p (now + p) c"
  have "periodic_timeouts l' = put_periodic ?e (periodic_timeouts l)" "\<exists>h. r = Ok h"
    "processing_periodic_timeouts l' = processing_periodic_timeouts l"
    using assms(2) now by (auto simp: insert_periodic_timeout_def periodic_timeout_handle_def cmd_simps Let_def
        put_periodic_def put_by_time_def periodic_timeout_callback_ctor_def)
  with assms(1) periodic_q.put_sorted show ?thesis by (auto simp: calm_periodic_def)
qed

lemma add_periodic_calm:
  assumes "calm_periodic (fst x)" "add_periodic_timeout X p c x = (r, y)"
  shows "calm_periodic (fst y)"
proof -
  obtain l s where x: "x = (l, s)" by (cases x)
  show ?thesis
  proof (cases "periodic_timeouts l = []")
    case True
    then show ?thesis using assms x
      by (auto simp: add_periodic_timeout_def periodic_timeout_handle_def arm_periodic_def calm_periodic_def
          cmd_simps split: prod.splits res.splits if_splits)
  next
    case False
    obtain ri l1 s1 where ins: "insert_periodic_timeout X p c (l, s) = (ri, (l1, s1))" by (metis prod.exhaust)
    with insert_periodic_calm [OF _ ins] assms x obtain h where h: "ri = Ok h" "calm_periodic l1" by auto
    with False assms x ins have "fst y = l1"
      by (auto simp: add_periodic_timeout_def calm_periodic_def arm_periodic_def cmd_simps Let_def
          split: prod.splits res.splits if_splits)
    with h show ?thesis by simp
  qed
qed

lemma api_step_calm_periodic: "api_step X ok x y \<Longrightarrow> calm_periodic (fst x) \<Longrightarrow> calm_periodic (fst y)"
proof (induction rule: api_step.induct)
  case (call_remove_periodic k x r y)
  then show ?case
    by (cases x) (auto simp: remove_periodic_timeout_def calm_periodic_def cmd_simps sorted_erase_first
        split: if_splits)
next
  case (call_add_periodic p c x r y)
  show ?case by (rule add_periodic_calm [OF call_add_periodic(3,1)])
qed (auto dest: leaves_periodicD simp: periodic_part_def calm_periodic_def)

interpretation calm_t: api_invariant X ok "\<lambda>x. calm_timeouts (fst x)" for X ok
  by unfold_locales (rule api_step_calm_timeouts)

interpretation calm_p: api_invariant X ok "\<lambda>x. calm_periodic (fst x)" for X ok
  by unfold_locales (rule api_step_calm_periodic)

lemma blind_fst [simp]: "blind K (\<lambda>x. P (fst x))"
  by (simp add: blind_def)

definition calm :: "'c ioloop \<Rightarrow> bool" where
  "calm l \<longleftrightarrow> calm_timeouts l \<and> calm_periodic l"

lemma keeps_calm:
  assumes "keeps (\<lambda>x. calm_timeouts (fst x)) m" "keeps (\<lambda>x. calm_periodic (fst x)) m"
  shows "keeps (\<lambda>x. calm (fst x)) m"
  using assms by (simp add: keeps_def calm_def)

text \<open>Every handler leaves the loop calm, and none of the loop's own is undefined.\<close>

definition kind_env :: "('c, 'w) loop_env \<Rightarrow> ('w sys \<Rightarrow> 'w sys \<Rightarrow> bool) \<Rightarrow> bool" where
  "kind_env X ok \<longleftrightarrow> api_code X ok \<and> sen X False = False \<and> sort_law X"

lemma eventfd_read_defined: "defined (fst (eventfd_read K le j e s))"
  by (simp add: eventfd_read_def cmd_simps defined_def Let_def split: prod.splits)

lemma handler_fn_defined:
  assumes "kind_env X ok" "calm (fst x)" "run_handler_fn X fn fd ev x = (r, y)"
  shows "defined r \<and> calm (fst y)"
proof -
  note env = assms(1) [unfolded kind_env_def]
  obtain l s where x: "x = (l, s)" by (cases x)
  show ?thesis
  proof (cases fn)
    case (User_handler h)
    with assms(2,3) calm_t.handler_keeps [of X ok h fd ev x r y] calm_p.handler_keeps [of X ok h fd ev x r y] env
    show ?thesis by (simp add: run_handler_fn_def calm_def)
  next
    case Process_callbacks
    obtain rr s1 where rd: "eventfd_read (kern X) (host_le X) (raw8 X) (callbacks_eventfd l) s = (rr, s1)"
      by (metis prod.exhaust)
    have "defined rr" using eventfd_read_defined rd by (metis fst_conv)
    moreover have "calm (l\<lparr>new_callbacks := []\<rparr>)"
      using assms(2) x by (simp add: calm_def calm_timeouts_def calm_periodic_def)
    ultimately show ?thesis
      using assms(2,3) x rd Process_callbacks env
        calm_t.callbacks_keep [of X ok "new_callbacks l" "(l\<lparr>new_callbacks := []\<rparr>, s1)" r y]
        calm_p.callbacks_keep [of X ok "new_callbacks l" "(l\<lparr>new_callbacks := []\<rparr>, s1)" r y]
      by (cases rr) (auto simp: run_handler_fn_def process_callbacks_def cmd_simps calm_def defined_def)
  next
    case Process_stop
    obtain rr s1 where rd: "eventfd_read (kern X) (host_le X) (raw8 X) (stop_eventfd l) s = (rr, s1)"
      by (metis prod.exhaust)
    have "defined rr" using eventfd_read_defined rd by (metis fst_conv)
    with assms(2,3) x rd Process_stop show ?thesis
      by (cases rr) (auto simp: run_handler_fn_def process_stop_def cmd_simps defined_def)
  next
    case Process_timeouts
    have "keeps (\<lambda>x. calm_periodic (fst x)) (process_timeouts X)"
      using env by (intro keeps_process_timeouts calm_p.keeps_callback blind_fst) (auto simp: calm_periodic_def)
    with assms(2,3) x Process_timeouts have "calm_periodic (fst y)"
      by (auto simp: run_handler_fn_def calm_def dest: keepsD)
    with process_timeouts_outcome [of X ok l s r "fst y" "snd y"] assms(2,3) x env Process_timeouts show ?thesis
      by (simp add: run_handler_fn_def calm_def calm_timeouts_def defined_def)
  next
    case Process_periodic_timeouts
    have "keeps (\<lambda>x. calm_timeouts (fst x)) (process_periodic_timeouts X)"
      using env by (intro keeps_process_periodic calm_t.keeps_callback blind_fst) (auto simp: calm_timeouts_def)
    with assms(2,3) x Process_periodic_timeouts have "calm_timeouts (fst y)"
      by (auto simp: run_handler_fn_def calm_def dest: keepsD)
    with process_periodic_outcome [of X ok l s r "fst y" "snd y"] assms(2,3) x env Process_periodic_timeouts show ?thesis
      by (simp add: run_handler_fn_def calm_def calm_periodic_def defined_def)
  qed
qed

subsection \<open>Properties of the handlers\<close>

definition handler_part :: "'c ioloop \<Rightarrow> 'c handler_node list \<times> bool \<times> epoll \<times> nat" where
  "handler_part l = (handlers l, processing_handlers l, loop_epoll l, next_node l)"

text \<open>The loop's own handlers change only the other members, apart from what the callbacks do.\<close>

lemma keeps_own_handler:
  assumes cb: "\<And>c. keeps I (run_callback (user X) c)" and blind: "blind (kern X) I"
    and part: "\<And>l l' s. handler_part l' = handler_part l \<Longrightarrow> I (l, s) \<Longrightarrow> I (l', s)"
    and own: "\<nexists>h. fn = User_handler h"
  shows "keeps I (run_handler_fn X fn fd ev)"
proof -
  have "keeps I (process_callbacks X)"
    by (rule keeps_process_callbacks [OF cb blind], erule part [rotated]) (simp add: handler_part_def)
  moreover have "keeps I (process_timeouts X)"
    by (rule keeps_process_timeouts [OF cb blind]; erule part [rotated]) (simp_all add: handler_part_def)
  moreover have "keeps I (process_periodic_timeouts X)"
    by (rule keeps_process_periodic [OF cb blind]; erule part [rotated]) (simp_all add: handler_part_def)
  ultimately show ?thesis
    using own keeps_process_stop [OF blind] by (cases fn) (simp_all add: run_handler_fn_def)
qed

text \<open>
  A property of the handlers that no change elsewhere affects, and that adding and removing a handler
  keep, holds after everything that runs during a dispatch.
\<close>

locale loop_invariant =
  fixes X :: "('c, 'w) loop_env" and ok :: "'w sys \<Rightarrow> 'w sys \<Rightarrow> bool" and I :: "('c, 'w) loop_state \<Rightarrow> bool"
  assumes part: "handler_part l' = handler_part l \<Longrightarrow> I (l, s) \<Longrightarrow> I (l', s)"
    and blind: "blind (kern X) I"
    and outside_keeps: "ok s s' \<Longrightarrow> I (l, s) \<Longrightarrow> I (l, s')"
    and add_handler_keeps: "keeps I (add_handler X fd ev cb)"
    and remove_handler_keeps: "keeps I (remove_handler X fd)"
begin

lemma modify_keeps [keeps_intros]: "(\<And>l. handler_part (f l) = handler_part l) \<Longrightarrow> keeps I (loop_modify f)"
  by (rule keeps_modify) (blast intro: part)

lemma api_calls_keep:
  "keeps I (add_callback X c)" "keeps I (add_timeout X t c)" "keeps I (add_timeout_delay X d c)"
  "keeps I (remove_timeout k)" "keeps I (add_periodic_timeout X p c)" "keeps I (remove_periodic_timeout k)"
  "keeps I (stop X)" "keeps I timeout_handle" "keeps I periodic_timeout_handle"
  unfolding add_callback_def add_timeout_delay_def add_timeout_def insert_timeout_def timeout_handle_def
    arm_timeouts_def remove_timeout_def add_periodic_timeout_def insert_periodic_timeout_def
    periodic_timeout_handle_def arm_periodic_def remove_periodic_timeout_def stop_def
  by (intro keeps_basic keeps_get keeps_bind keeps_then keeps_when keeps_if keeps_case keeps_let
      blind_calls blind modify_keeps; simp add: handler_part_def)+

lemma api_step_keeps: "api_step X ok x y \<Longrightarrow> I x \<Longrightarrow> I y"
proof (induction rule: api_step.induct)
  case (outside s s' l)
  then show ?case by (rule outside_keeps)
qed (erule (1) keepsD [OF add_handler_keeps] keepsD [OF remove_handler_keeps] keepsD [OF api_calls_keep(1)]
      keepsD [OF api_calls_keep(2)] keepsD [OF api_calls_keep(3)] keepsD [OF api_calls_keep(4)]
      keepsD [OF api_calls_keep(5)] keepsD [OF api_calls_keep(6)] keepsD [OF api_calls_keep(7)]
      keepsD [OF api_calls_keep(8)] keepsD [OF api_calls_keep(9)])+

end

sublocale loop_invariant \<subseteq> api_invariant X ok I
  by unfold_locales (rule api_step_keeps)

context loop_invariant
begin

lemma handler_fn_keeps:
  assumes "api_code X ok"
  shows "keeps I (run_handler_fn X fn fd ev)"
proof (cases "\<exists>h. fn = User_handler h")
  case True
  then show ?thesis using handler_keeps [OF assms] by (auto simp: run_handler_fn_def intro: keepsI)
next
  case False
  show ?thesis
  proof (rule keeps_own_handler)
    show "keeps I (run_callback (user X) c)" for c by (rule keeps_callback [OF assms])
    show "handler_part l' = handler_part l \<Longrightarrow> I (l, s) \<Longrightarrow> I (l', s)" for l l' s by (rule part)
  qed (fact blind, fact False)
qed

lemma dispatch_keeps: "api_code X ok \<Longrightarrow> keeps I (dispatch_event X event)"
  by (auto simp: dispatch_event_def split: epoll_data.splits option.splits
      intro!: keeps_intros handler_fn_keeps)

end

text \<open>While handlers are processed, no node of the map is freed.\<close>

definition pinned :: "nat set \<Rightarrow> ('c, 'w) loop_state \<Rightarrow> bool" where
  "pinned N = (\<lambda>(l, s). processing_handlers l \<and> N \<subseteq> hn_node ` set (handlers l))"

lemma find_fd_None: "find (\<lambda>h. hn_fd h = fd) hs = None \<longleftrightarrow> (\<forall>h\<in>set hs. hn_fd h \<noteq> fd)"
  by (auto simp: find_None_iff)

lemma add_handler_appends:
  assumes "add_handler X fd ev cb (l, s) = (r, (l', s'))"
  shows "processing_handlers l' = processing_handlers l \<and> (handlers l' = handlers l \<or> (\<exists>h. handlers l' = handlers l @ [h]))"
proof (cases "find (\<lambda>h. hn_fd h = fd) (handlers l) = None")
  case True
  then have "filter (\<lambda>h. hn_fd h \<noteq> fd) (handlers l) = handlers l" by (simp add: find_fd_None filter_id_conv)
  with True assms show ?thesis
    by (auto simp: add_handler_def erase_handler_def on_epoll_def cmd_simps split: prod.splits res.splits)
qed (use assms in \<open>simp add: add_handler_def cmd_simps\<close>)

lemma add_handler_pinned: "keeps (pinned N) (add_handler X fd ev cb)"
proof (rule keepsI)
  fix x r y assume run: "add_handler X fd ev cb x = (r, y)" and I: "pinned N x"
  with add_handler_appends [of X fd ev cb "fst x" "snd x" r "fst y" "snd y"] show "pinned N y"
    by (auto simp: pinned_def split_beta)
qed

lemma remove_handler_pinned: "keeps (pinned N) (remove_handler X fd)"
  by (rule keepsI) (auto simp: remove_handler_def pinned_def cmd_simps split: if_splits)

interpretation pin: loop_invariant X ok "pinned N" for X ok N
proof unfold_locales
  show "keeps (pinned N) (add_handler X fd ev cb)" for fd ev cb by (rule add_handler_pinned)
  show "keeps (pinned N) (remove_handler X fd)" for fd by (rule remove_handler_pinned)
qed (auto simp: pinned_def handler_part_def blind_def)

text \<open>The events point to nodes that are pinned: the dispatch is safe.\<close>

lemma dispatch_defined:
  assumes "kind_env X ok" "ev_data event = Data_ptr (Some n)" "n \<in> N"
    and "pinned N x" "calm (fst x)" "dispatch_event X event x = (r, y)"
  shows "defined r \<and> pinned N y \<and> calm (fst y)"
proof -
  obtain l s where x: "x = (l, s)" by (cases x)
  with assms(3,4) have "find (\<lambda>h. hn_node h = n) (handlers l) \<noteq> None"
    by (auto simp: pinned_def find_None_iff)
  then obtain h where "find (\<lambda>h. hn_node h = n) (handlers l) = Some h" by auto
  with assms(2,6) x have run: "run_handler_fn X (hc_callback (hn_value h)) (hn_fd h) (hc_events (hn_value h)) x = (r, y)"
    by (simp add: dispatch_event_def cmd_simps)
  from handler_fn_defined [OF assms(1,5) run] keepsD [OF pin.handler_fn_keeps run assms(4)] assms(1)
  show ?thesis unfolding kind_env_def by blast
qed

lemma dispatch_all_defined:
  assumes env: "kind_env X ok"
  shows "\<forall>e\<in>set es. \<exists>n\<in>N. ev_data e = Data_ptr (Some n) \<Longrightarrow> pinned N x \<Longrightarrow> calm (fst x) \<Longrightarrow>
     for_each (dispatch_event X) es x = (r, y) \<Longrightarrow> defined r \<and> pinned N y \<and> calm (fst y)"
proof (induction es arbitrary: x)
  case (Cons e es)
  obtain r1 y1 where e: "dispatch_event X e x = (r1, y1)" by (metis prod.exhaust)
  from Cons.prems obtain n where "ev_data e = Data_ptr (Some n)" "n \<in> N" by auto
  from dispatch_defined [OF env this Cons.prems(2,3) e] Cons.prems(1,4) Cons.IH [of y1] e show ?case
    by (cases r1) (auto simp: cmd_simps defined_def)
qed (auto simp: cmd_simps defined_def)

text \<open>
  The kernel the loop relies on: the laws of the interest list \<open>reg\<close>; deleting a registered descriptor
  succeeds; \<^verbatim>\<open>epoll_wait\<close> fails only when it is interrupted; the other calls do not change
  the list. Code outside the library can only take descriptors off the list, by closing them.
\<close>

definition loop_law :: "('w, 'x) ev_calls_scheme \<Rightarrow> int \<Rightarrow> ('w \<Rightarrow> (int \<rightharpoonup> epoll_event)) \<Rightarrow> bool" where
  "loop_law K ep reg \<longleftrightarrow> epoll_law K ep reg \<and>
     (\<forall>fd s. fd \<in> dom (reg (world s)) \<longrightarrow> fst (sys_epoll_ctl K ep Ctl_del fd None s) = 0) \<and>
     (\<forall>n t s out s'. sys_epoll_wait K ep n t s = ((- 1, out), s') \<longrightarrow> errno s' = EINTR) \<and>
     (\<forall>fd n s. reg (world (snd (sys_read K fd n s))) = reg (world s)) \<and>
     (\<forall>fd a n s. reg (world (snd (sys_write K fd a n s))) = reg (world s)) \<and>
     (\<forall>fd f sp s. reg (world (snd (sys_timerfd_settime K fd f sp s))) = reg (world s)) \<and>
     (\<forall>s. reg (world (snd (sys_steady_now K s))) = reg (world s))"

definition fewer :: "('w \<Rightarrow> (int \<rightharpoonup> epoll_event)) \<Rightarrow> 'w sys \<Rightarrow> 'w sys \<Rightarrow> bool" where
  "fewer reg s s' \<longleftrightarrow> reg (world s') \<subseteq>\<^sub>m reg (world s)"

text \<open>Every registered descriptor carries the address of the node of its own handler.\<close>

definition points_to :: "(int \<rightharpoonup> epoll_event) \<Rightarrow> 'c handler_node list \<Rightarrow> bool" where
  "points_to m hs \<longleftrightarrow> (\<forall>fd ev. m fd = Some ev \<longrightarrow>
     (\<exists>h\<in>set hs. hn_fd h = fd \<and> ev_data ev = Data_ptr (Some (hn_node h))))"

definition loop_wf :: "('w \<Rightarrow> (int \<rightharpoonup> epoll_event)) \<Rightarrow> int \<Rightarrow> ('c, 'w) loop_state \<Rightarrow> bool" where
  "loop_wf reg ep = (\<lambda>(l, s). distinct (map hn_fd (handlers l)) \<and> distinct (map hn_node (handlers l))
     \<and> (\<forall>h\<in>set (handlers l). hn_node h < next_node l) \<and> ufd_get (epoll_fd (loop_epoll l)) = ep
     \<and> points_to (reg (world s)) (handlers l))"

lemma points_to_le: "points_to m hs \<Longrightarrow> m' \<subseteq>\<^sub>m m \<Longrightarrow> points_to m' hs"
  unfolding points_to_def map_le_def dom_def by (metis (mono_tags) mem_Collect_eq option.discI)

lemma points_to_add:
  "points_to m hs \<Longrightarrow> hn_fd h = fd \<Longrightarrow> ev_data ev = Data_ptr (Some (hn_node h)) \<Longrightarrow> points_to (m(fd \<mapsto> ev)) (hs @ [h])"
  unfolding points_to_def by (auto split: if_splits)

lemma points_to_erase: "points_to m hs \<Longrightarrow> points_to (m(fd := None)) (filter (\<lambda>h. hn_fd h \<noteq> fd) hs)"
  unfolding points_to_def by (auto split: if_splits)

lemma loop_wf_reg:
  "loop_wf reg ep (l, s) \<Longrightarrow> reg (world s') \<subseteq>\<^sub>m reg (world s) \<Longrightarrow> loop_wf reg ep (l, s')"
  by (auto simp: loop_wf_def intro: points_to_le)

lemma loop_wf_erase:
  assumes "loop_wf reg ep (l, s)" "reg (world s') = (reg (world s))(fd := None)"
    and "ufd_get (epoll_fd e) = ep"
  shows "loop_wf reg ep ((erase_handler fd l)\<lparr>loop_epoll := e\<rparr>, s')"
  using assms by (auto simp: loop_wf_def erase_handler_def distinct_map inj_on_def points_to_erase)

lemma loop_lawD:
  assumes "loop_law K ep reg"
  shows "epoll_law K ep reg" "fd \<in> dom (reg (world s)) \<Longrightarrow> fst (sys_epoll_ctl K ep Ctl_del fd None s) = 0"
    "sys_epoll_wait K ep n t s = ((- 1, out), s') \<Longrightarrow> errno s' = EINTR"
    "reg (world (snd (sys_read K fd m s))) = reg (world s)" "reg (world (snd (sys_write K fd a m s))) = reg (world s)"
    "reg (world (snd (sys_timerfd_settime K fd f sp s))) = reg (world s)"
    "reg (world (snd (sys_steady_now K s))) = reg (world s)"
  using assms unfolding loop_law_def by (blast, blast, blast, simp_all)

lemma blind_wf: "loop_law K ep reg \<Longrightarrow> blind K (loop_wf reg ep)"
  by (auto simp: blind_def loop_lawD(4-7) intro: loop_wf_reg)

lemma add_handler_wf:
  assumes law: "loop_law (kern X) ep reg"
  shows "keeps (loop_wf reg ep) (add_handler X fd ev cb)"
proof (rule keepsI)
  fix x r y assume run: "add_handler X fd ev cb x = (r, y)" and I: "loop_wf reg ep x"
  obtain l s where x: "x = (l, s)" by (cases x)
  show "loop_wf reg ep y"
  proof (cases "find (\<lambda>h. hn_fd h = fd) (handlers l) = None")
    case True
    let ?e = "make_epoll_event_ptr fd (epoll_events_of ev) (Some (next_node l))"
    from True have new: "fd \<notin> hn_fd ` set (handlers l)" "filter (\<lambda>h. hn_fd h \<noteq> fd) (handlers l) = handlers l"
      by (auto simp: find_fd_None filter_id_conv)
    have ep: "ufd_get (epoll_fd (loop_epoll l)) = ep" using I x by (simp add: loop_wf_def)
    obtain ret s1 where c: "sys_epoll_ctl (kern X) ep Ctl_add fd (Some ?e) s = (ret, s1)" by (metis prod.exhaust)
    from epoll_lawD(1) [OF loop_lawD(1) [OF law] c]
    consider "ret = 0" "reg (world s1) = (reg (world s))(fd \<mapsto> ?e)" | "ret = - 1" "reg (world s1) = reg (world s)"
      by (elim disjE conjE)
    then show ?thesis
    proof cases
      case 1
      let ?h = "\<lparr>hn_fd = fd, hn_node = next_node l, hn_value = \<lparr>hc_events = ev, hc_callback = cb\<rparr>\<rparr>"
      have "points_to (reg (world s1)) (handlers l @ [?h])"
        using I x 1 by (simp add: loop_wf_def points_to_add make_epoll_event_ptr_def)
      moreover have "next_node l \<notin> hn_node ` set (handlers l)" using I x by (auto simp: loop_wf_def)
      ultimately show ?thesis using I x new True run ep c 1
        by (auto simp: add_handler_def on_epoll_def epoll_add_ptr_def epoll_add_event_def cmd_simps loop_wf_def less_SucI)
    next
      case 2
      with I x new True run ep c show ?thesis
        by (auto simp: add_handler_def on_epoll_def epoll_add_ptr_def epoll_add_event_def cmd_simps loop_wf_def
            erase_handler_def less_SucI)
    qed
  qed (use run I x in \<open>auto simp: add_handler_def cmd_simps\<close>)
qed

lemma del_cases:
  assumes law: "loop_law K (ufd_get (epoll_fd e)) reg"
  obtains s' q e' where "epoll_del_nothrow K fd (e, s) = (Ok q, (e', s'))" "epoll_fd e' = epoll_fd e"
    "reg (world s') = (reg (world s))(fd := None)"
  using loop_lawD(1) [OF law]
proof (cases rule: epoll_del_cases [where fd = fd and s = s])
  case (gone s')
  then show thesis using that by simp
next
  case (failed err s')
  then have "fd \<notin> dom (reg (world s))"
    using loop_lawD(2) [OF law, of fd s] by (auto simp: epoll_del_nothrow_def cmd_simps syscall_return_defs split: if_splits)
  then have "reg (world s) = (reg (world s))(fd := None)" by (auto simp: fun_eq_iff)
  with failed that show thesis by simp
qed

lemma remove_handler_wf:
  assumes law: "loop_law (kern X) ep reg"
  shows "keeps (loop_wf reg ep) (remove_handler X fd)"
proof (rule keepsI)
  fix x r y assume run: "remove_handler X fd x = (r, y)" and I: "loop_wf reg ep x"
  obtain l s where x: "x = (l, s)" by (cases x)
  then have ep: "ufd_get (epoll_fd (loop_epoll l)) = ep" using I by (simp add: loop_wf_def)
  obtain q e' s' where del: "epoll_del_nothrow (kern X) fd (loop_epoll l, s) = (Ok q, (e', s'))"
      "epoll_fd e' = epoll_fd (loop_epoll l)" "reg (world s') = (reg (world s))(fd := None)"
    using del_cases [of "kern X" "loop_epoll l" reg] law ep by metis
  have "loop_wf reg ep ((erase_handler fd l)\<lparr>loop_epoll := e'\<rparr>, s')"
    using loop_wf_erase [OF I [unfolded x] del(3)] del(2) ep by simp
  moreover have "loop_wf reg ep (l\<lparr>removed_handlers := removed_handlers l @ [fd]\<rparr>, s)"
    using I x by (simp add: loop_wf_def)
  moreover have "loop_epoll (erase_handler fd l) = loop_epoll l" by (simp add: erase_handler_def)
  ultimately show "loop_wf reg ep y"
    using run x I del(1) by (auto simp: remove_handler_def on_epoll_def cmd_simps split: if_splits)
qed

lemma loop_wf_invariant:
  assumes law: "loop_law (kern X) ep reg"
  shows "loop_invariant X (fewer reg) (loop_wf reg ep)"
proof unfold_locales
  show "keeps (loop_wf reg ep) (add_handler X fd ev cb)" for fd ev cb by (rule add_handler_wf [OF law])
  show "keeps (loop_wf reg ep) (remove_handler X fd)" for fd by (rule remove_handler_wf [OF law])
  show "blind (kern X) (loop_wf reg ep)" by (rule blind_wf [OF law])
  show "fewer reg s s' \<Longrightarrow> loop_wf reg ep (l, s) \<Longrightarrow> loop_wf reg ep (l, s')" for l s s'
    unfolding fewer_def by (erule (1) loop_wf_reg [rotated])
qed (simp add: loop_wf_def handler_part_def)

subsection \<open>One round of the loop\<close>

lemma wait_reports:
  assumes law: "loop_law (kern X) (ufd_get (epoll_fd (loop_epoll l))) reg"
    and w: "sys_epoll_wait (kern X) (ufd_get (epoll_fd (loop_epoll l))) (unat (size_events (loop_epoll l))) (- 1) s = ((q, out), s')"
    and q: "q \<noteq> - 1"
  shows "on_events (epoll_wait_nothrow (kern X) (loop_epoll l)) (l, s) =
      (Ok (syscall_return_value q), (l\<lparr>epoll_events := out\<rparr>, s'))" "reg (world s') = reg (world s)"
    "\<forall>e\<in>set out. \<exists>fd ev. reg (world s) fd = Some ev \<and> ev_data e = ev_data ev"
proof -
  let ?n = "unat (size_events (loop_epoll l))"
  from epoll_lawD(4) [OF loop_lawD(1) [OF law] w] q have out: "length out = nat q" "nat q \<le> ?n"
    "\<forall>e\<in>set out. \<exists>fd ev. reg (world s) fd = Some ev \<and> ev_data e = ev_data ev" "reg (world s') = reg (world s)"
    by (auto simp: nat_le_iff)
  have "vec_resize zero_epoll_event (nat q) (std_copy out 0 (vec_resize zero_epoll_event ?n (epoll_events l))) = out"
    using out(1,2) by (simp add: std_copy_def vec_resize_def [of _ "nat q"])
  with q w show "on_events (epoll_wait_nothrow (kern X) (loop_epoll l)) (l, s) =
      (Ok (syscall_return_value q), (l\<lparr>epoll_events := out\<rparr>, s'))"
    by (simp add: on_events_def epoll_wait_nothrow_def cmd_simps)
  from out show "reg (world s') = reg (world s)" "\<forall>e\<in>set out. \<exists>fd ev. reg (world s) fd = Some ev \<and> ev_data e = ev_data ev"
    by simp_all
qed

lemma wait_cases:
  assumes law: "loop_law (kern X) (ufd_get (epoll_fd (loop_epoll l))) reg"
  obtains (interrupted) evs s' where
      "on_events (epoll_wait_nothrow (kern X) (loop_epoll l)) (l, s) =
         (Ok (syscall_return_pair EINTR (- 1)), (l\<lparr>epoll_events := evs\<rparr>, s'))" "reg (world s') = reg (world s)"
  | (ready) q evs s' where
      "on_events (epoll_wait_nothrow (kern X) (loop_epoll l)) (l, s) =
         (Ok (syscall_return_value q), (l\<lparr>epoll_events := evs\<rparr>, s'))" "reg (world s') = reg (world s)"
      "\<forall>e\<in>set evs. \<exists>fd ev. reg (world s) fd = Some ev \<and> ev_data e = ev_data ev"
proof -
  let ?n = "unat (size_events (loop_epoll l))"
  obtain q out s' where w: "sys_epoll_wait (kern X) (ufd_get (epoll_fd (loop_epoll l))) ?n (- 1) s = ((q, out), s')"
    by (metis prod.exhaust)
  note a = epoll_lawD(4) [OF loop_lawD(1) [OF law] w]
  show thesis
  proof (cases "q = - 1")
    case True
    with loop_lawD(3) [OF law, of ?n "- 1" s out s'] w have "errno s' = EINTR" by simp
    with True w a show thesis
      by (intro interrupted [of "std_copy out 0 (vec_resize zero_epoll_event ?n (epoll_events l))" s'])
        (auto simp: on_events_def epoll_wait_nothrow_def cmd_simps)
  next
    case False
    with wait_reports [OF law w] show thesis by (intro ready [of q out s']) auto
  qed
qed

definition settled :: "('w \<Rightarrow> (int \<rightharpoonup> epoll_event)) \<Rightarrow> int \<Rightarrow> ('c, 'w) loop_state \<Rightarrow> bool" where
  "settled reg ep x \<longleftrightarrow> loop_wf reg ep x \<and> calm (fst x) \<and> \<not> processing_handlers (fst x)"

lemma prune_handler_settled:
  assumes law: "loop_law (kern X) ep reg" and "settled reg ep x" "prune_handler X fd x = (r, y)"
  shows "defined r \<and> settled reg ep y"
proof -
  obtain l s where x: "x = (l, s)" by (cases x)
  then have ep: "ufd_get (epoll_fd (loop_epoll l)) = ep" and wf: "loop_wf reg ep (l, s)"
    using assms(2) by (simp_all add: loop_wf_def settled_def)
  obtain q e' s' where del: "epoll_del_nothrow (kern X) fd (loop_epoll l, s) = (Ok q, (e', s'))"
      "epoll_fd e' = epoll_fd (loop_epoll l)" "reg (world s') = (reg (world s))(fd := None)"
    using del_cases [of "kern X" "loop_epoll l" reg] law ep by metis
  have erased: "loop_wf reg ep ((erase_handler fd l)\<lparr>loop_epoll := e'\<rparr>, s')"
    using loop_wf_erase [OF wf del(3)] del(2) ep by simp
  have "(reg (world s))(fd := None) \<subseteq>\<^sub>m reg (world s)" by (auto simp: map_le_def)
  then have kept: "loop_wf reg ep (l\<lparr>loop_epoll := e'\<rparr>, s')"
    using loop_wf_reg [OF wf, of s'] del(2,3) by (simp add: loop_wf_def)
  have [simp]: "erase_handler fd (l\<lparr>loop_epoll := e'\<rparr>) = (erase_handler fd l)\<lparr>loop_epoll := e'\<rparr>"
    "processing_handlers (erase_handler fd l) = processing_handlers l"
    by (simp_all add: erase_handler_def)
  have "calm (l\<lparr>loop_epoll := e'\<rparr>) \<and> calm ((erase_handler fd l)\<lparr>loop_epoll := e'\<rparr>)"
    using assms(2) x by (simp add: settled_def calm_def calm_timeouts_def calm_periodic_def erase_handler_def)
  with assms(2,3) x del(1) erased kept show ?thesis
    by (auto simp: prune_handler_def on_epoll_def cmd_simps settled_def defined_def split: if_splits)
qed

lemma prune_all_settled:
  assumes law: "loop_law (kern X) ep reg"
  shows "settled reg ep x \<Longrightarrow> for_each (prune_handler X) removed x = (r, y) \<Longrightarrow> defined r \<and> settled reg ep y"
proof (induction removed arbitrary: x)
  case (Cons fd removed)
  obtain r1 y1 where p: "prune_handler X fd x = (r1, y1)" by (metis prod.exhaust)
  from prune_handler_settled [OF law Cons.prems(1) p] Cons.prems(2) Cons.IH [of y1] p show ?case
    by (cases r1) (auto simp: cmd_simps defined_def)
qed (auto simp: cmd_simps defined_def)

text \<open>The dispatch of a batch of events, in the scope of the sentry.\<close>

definition dispatch_batch :: "('c, 'w) loop_env \<Rightarrow> (('c, 'w) loop_state, unit) cmd" where
  "dispatch_batch X = with_sentry (sen X) processing_handlers (\<lambda>b l. l\<lparr>processing_handlers := b\<rparr>)
     (then_c (loop_modify (\<lambda>l. l\<lparr>processing_handlers := True\<rparr>))
       (bind_c (loop_get epoll_events) (for_each (dispatch_event X))))"

lemma dispatch_batch_settled:
  assumes law: "loop_law (kern X) ep reg" and env: "kind_env X (fewer reg)" and "settled reg ep (l, s)"
    and evs: "\<forall>e\<in>set (epoll_events l). \<exists>fd ev. reg (world s) fd = Some ev \<and> ev_data e = ev_data ev"
    and run: "dispatch_batch X (l, s) = (r, (l', s'))"
  shows "defined r \<and> settled reg ep (l', s')"
proof -
  note wf = loop_wf_invariant [OF law]
  let ?l = "l\<lparr>processing_handlers := True\<rparr>" and ?N = "hn_node ` set (handlers l)"
  obtain r1 l1 s1 where all: "for_each (dispatch_event X) (epoll_events l) (?l, s) = (r1, (l1, s1))" by (metis prod.exhaust)
  have ready: "\<forall>e\<in>set (epoll_events l). \<exists>n\<in>?N. ev_data e = Data_ptr (Some n)"
    using evs assms(3) unfolding settled_def loop_wf_def points_to_def by fastforce
  have "pinned ?N (?l, s)" "calm (fst (?l, s))" "loop_wf reg ep (?l, s)"
    using assms(3) by (simp_all add: pinned_def settled_def calm_def calm_timeouts_def calm_periodic_def loop_wf_def)
  moreover have "keeps (loop_wf reg ep) (for_each (dispatch_event X) (epoll_events l))"
    using env by (intro keeps_for_each loop_invariant.dispatch_keeps [OF wf]) (simp add: kind_env_def)
  ultimately have "defined r1" "calm l1" "loop_wf reg ep (l1, s1)"
    using dispatch_all_defined [OF env ready _ _ all] 
      keepsD [of "loop_wf reg ep" "for_each (dispatch_event X) (epoll_events l)" "(?l, s)" r1 "(l1, s1)"] all by auto
  moreover have "r = r1" "l' = l1\<lparr>processing_handlers := False\<rparr>" "s' = s1"
    using run all env assms(3) by (simp_all add: dispatch_batch_def with_sentry_def kind_env_def settled_def cmd_simps)
  ultimately show ?thesis
    by (simp add: settled_def calm_def calm_timeouts_def calm_periodic_def loop_wf_def)
qed

definition prune_removed :: "('c, 'w) loop_env \<Rightarrow> (('c, 'w) loop_state, unit) cmd" where
  "prune_removed X = bind_c (loop_get removed_handlers) (\<lambda>removed.
     if removed = [] then ret_c ()
     else then_c (for_each (prune_handler X) removed) (loop_modify (\<lambda>l. l\<lparr>removed_handlers := []\<rparr>)))"

lemma start_iteration_run:
  "start_iteration X (l, s) =
     (case on_events (epoll_wait_nothrow (kern X) (loop_epoll l)) (l, s) of
        (Ok ret, x) \<Rightarrow> (if \<not> sr_bool ret \<and> errno_value ret = EINTR then (Ok (), x)
          else then_c (dispatch_batch X) (prune_removed X) x)
      | (Throw e, x) \<Rightarrow> (Throw e, x) | (Undefined, x) \<Rightarrow> (Undefined, x) | (Terminated, x) \<Rightarrow> (Terminated, x))"
  by (simp add: start_iteration_def dispatch_batch_def prune_removed_def bind_c_run loop_get_run ret_c_run
      split: prod.splits res.splits)

lemma start_iteration_settled:
  assumes law: "loop_law (kern X) ep reg" and env: "kind_env X (fewer reg)" and st: "settled reg ep (l, s)"
    and run: "start_iteration X (l, s) = (r, y)"
  shows "defined r \<and> settled reg ep y"
proof -
  have ep: "ufd_get (epoll_fd (loop_epoll l)) = ep" using st by (simp add: settled_def loop_wf_def)
  have mv: "settled reg ep (l\<lparr>epoll_events := evs\<rparr>, s1)" if "reg (world s1) = reg (world s)" for evs s1
    using st that by (simp add: settled_def calm_def calm_timeouts_def calm_periodic_def loop_wf_def)
  show ?thesis
    using law [folded ep]
  proof (cases rule: wait_cases [where s = s])
    case (interrupted evs s1)
    with run mv show ?thesis by (auto simp: start_iteration_run defined_def EINTR_def)
  next
    case (ready q evs s1)
    let ?l = "l\<lparr>epoll_events := evs\<rparr>"
    obtain r1 l1 s2 where b: "dispatch_batch X (?l, s1) = (r1, (l1, s2))" by (metis prod.exhaust)
    from dispatch_batch_settled [OF law env mv [OF ready(2)] _ b] ready(2,3)
    have one: "defined r1" "settled reg ep (l1, s2)" by auto
    obtain r2 l2 s3 where p: "for_each (prune_handler X) (removed_handlers l1) (l1, s2) = (r2, (l2, s3))"
      by (metis prod.exhaust)
    from prune_all_settled [OF law one(2) p] have two: "defined r2" "settled reg ep (l2, s3)" by auto
    then have "settled reg ep (l2\<lparr>removed_handlers := []\<rparr>, s3)"
      by (simp add: settled_def calm_def calm_timeouts_def calm_periodic_def loop_wf_def)
    with run ready(1) b p one two show ?thesis
      by (cases r1; cases r2) (auto simp: start_iteration_run prune_removed_def cmd_simps defined_def split: if_splits)
  qed
qed

lemmas start_loop_induct [consumes 1, case_names round] = start_loop.raw_induct [rotated]

lemma start_loop_settled:
  "start_loop X x = Some out \<Longrightarrow> loop_law (kern X) ep reg \<Longrightarrow> kind_env X (fewer reg) \<Longrightarrow> settled reg ep x \<Longrightarrow>
     defined (fst out) \<and> settled reg ep (snd out) \<and> (fst out = Ok () \<longrightarrow> \<not> keep_running (fst (snd out)))"
proof (induction X x out rule: start_loop_induct)
  case (round f X x out)
  obtain r y where it: "start_iteration X x = (r, y)" by (metis prod.exhaust)
  with start_iteration_settled [of X ep reg "fst x" "snd x" r y] round(3-) have one: "defined r" "settled reg ep y" by auto
  show ?case
  proof (cases "keep_running (fst x)")
    case True
    with round(1) [of X y out] round(2-) it one show ?thesis by (cases r) (auto simp: defined_def)
  next
    case False
    with round(2-) show ?thesis by (auto simp: defined_def)
  qed
qed

lemma start_loop_ok_step:
  "keep_running (fst x) \<Longrightarrow> start_iteration X x = (Ok (), y) \<Longrightarrow> start_loop X x = start_loop X y"
  by (subst start_loop.simps) simp

lemma start_loop_rounds:
  assumes "\<forall>i<n. keep_running (fst (xs i)) \<and> start_iteration X (xs i) = (Ok (), xs (Suc i))"
  shows "start_loop X (xs 0) = start_loop X (xs n)"
proof -
  have "i \<le> n \<longrightarrow> start_loop X (xs 0) = start_loop X (xs i)" for i
  proof (induction i)
    case (Suc i)
    have "i < n \<Longrightarrow> start_loop X (xs i) = start_loop X (xs (Suc i))"
      using assms by (intro start_loop_ok_step) auto
    with Suc show ?case by (metis Suc_le_eq less_imp_le)
  qed simp
  then show ?thesis by simp
qed

lemma handler_found:
  assumes "loop_wf reg ep (l, s)" "h \<in> set (handlers l)"
  shows "find (\<lambda>h'. hn_node h' = hn_node h) (handlers l) = Some h"
proof -
  obtain h' where h': "find (\<lambda>h'. hn_node h' = hn_node h) (handlers l) = Some h'"
    using assms(2) by (cases "find (\<lambda>h'. hn_node h' = hn_node h) (handlers l)") (auto simp: find_None_iff)
  then have "h' \<in> set (handlers l)" "hn_node h' = hn_node h" by (auto simp: find_Some_iff)
  with assms h' show ?thesis by (auto simp: loop_wf_def distinct_map inj_on_def)
qed

subsection \<open>An environment for examples\<close>

text \<open>The world is the interest list; only descriptor 9 is ever ready; every handler stops the loop.\<close>

definition list_calls :: "(int \<rightharpoonup> epoll_event) ev_calls" where
  "list_calls = idle_ev_calls
     \<lparr>sys_write := (\<lambda>_ _ _ s. (8, s)),
      sys_epoll_ctl := (\<lambda>_ op fd ev s. case (op, ev) of
         (Ctl_add, Some e) \<Rightarrow> (if world s fd = None then (0, s\<lparr>world := (world s)(fd \<mapsto> e)\<rparr>) else (- 1, s\<lparr>errno := 17\<rparr>))
       | (Ctl_mod, Some e) \<Rightarrow> (if world s fd = None then (- 1, s\<lparr>errno := ENOENT\<rparr>) else (0, s\<lparr>world := (world s)(fd \<mapsto> e)\<rparr>))
       | _ \<Rightarrow> (if world s fd = None then (- 1, s\<lparr>errno := ENOENT\<rparr>) else (0, s\<lparr>world := (world s)(fd := None)\<rparr>))),
      sys_epoll_wait := (\<lambda>_ n _ s. case world s 9 of
         Some e \<Rightarrow> if n = 0 then ((- 1, []), s\<lparr>errno := EINTR\<rparr>) else ((1, [e]), s)
       | None \<Rightarrow> ((- 1, []), s\<lparr>errno := EINTR\<rparr>))\<rparr>"

definition stop_env :: "(nat, int \<rightharpoonup> epoll_event) loop_env" where
  "stop_env =
     (let X = \<lparr>kern = list_calls, user = \<lparr>run_callback = (\<lambda>_ x. (Ok (), x)), run_handler = (\<lambda>_ _ _ x. (Ok (), x))\<rparr>,
               sen = id, srt = sort_key pt_timeout, host_le = True, local_addr = 64, raw8 = replicate 8 0\<rparr>
      in X\<lparr>user := \<lparr>run_callback = (\<lambda>_ x. (Ok (), x)), run_handler = (\<lambda>_ _ _. stop X)\<rparr>\<rparr>)"

definition stop_loop :: "nat ioloop" where
  "stop_loop = (log_loop [])\<lparr>loop_epoll := \<lparr>epoll_fd = unique_fd_of 3 (), size_events = 1\<rparr>,
     handlers := [\<lparr>hn_fd = 9, hn_node = 0, hn_value = \<lparr>hc_events = 1, hc_callback = User_handler 5\<rparr>\<rparr>], next_node := 1\<rparr>"

definition stop_world :: "(int \<rightharpoonup> epoll_event) sys" where
  "stop_world = sys0 [9 \<mapsto> make_epoll_event_ptr 9 1 (Some 0)]"

lemma list_calls_law: "loop_law (kern stop_env) ep id"
  unfolding loop_law_def epoll_law_def stop_env_def list_calls_def
  by (auto simp: idle_ev_calls_def Let_def EINTR_def ENOENT_def fun_eq_iff split: if_splits option.splits)

lemma stop_env_run: "run_handler (user stop_env) h fd ev = stop stop_env" "run_callback (user stop_env) c x = (Ok (), x)"
  by (simp_all add: stop_env_def Let_def stop_def)

lemma stop_defined: "stop X x = (r, y) \<Longrightarrow> r \<noteq> Undefined \<and> r \<noteq> Terminated"
  by (cases x) (auto simp: stop_def eventfd_write_def write_file_def set_local64_def cmd_simps split: if_splits prod.splits)

lemma stop_env_kind: "kind_env stop_env ok"
  unfolding kind_env_def api_code_def
  by (auto simp: stop_env_run sort_law_def dest: stop_defined intro: r_into_rtranclp call_stop)
    (simp_all add: stop_env_def Let_def)

lemma stop_loop_settled: "settled id 3 (stop_loop\<lparr>keep_running := b\<rparr>, stop_world)"
  by (simp add: settled_def loop_wf_def points_to_def calm_def calm_timeouts_def calm_periodic_def stop_loop_def
      stop_world_def log_loop_def empty_loop_def make_epoll_event_ptr_def unique_fd_defs int_descriptor_defs)

lemma stop_env_calls:
  "sys_epoll_wait (kern stop_env) ep (Suc n) t s =
     (case world s 9 of Some e \<Rightarrow> ((1, [e]), s) | None \<Rightarrow> ((- 1, []), s\<lparr>errno := EINTR\<rparr>))"
  "sen stop_env = id"
  "stop stop_env (l, s) = (Ok (), (l\<lparr>keep_running := False\<rparr>, s\<lparr>mem := mem_write (mem s) 64 (store64 True 1)\<rparr>))"
  by (simp_all add: stop_env_def list_calls_def Let_def stop_def eventfd_write_def set_local64_def write_file_def
      cmd_simps split: option.splits)

lemma stop_loop_round:
  "\<exists>l s. start_iteration stop_env (stop_loop\<lparr>keep_running := True\<rparr>, stop_world) = (Ok (), (l, s)) \<and> \<not> keep_running l"
  by (simp add: start_iteration_def on_events_def epoll_wait_nothrow_def cmd_simps stop_loop_def stop_world_def
      log_loop_def empty_loop_def with_sentry_def stop_env_calls std_copy_def make_epoll_event_ptr_def
      dispatch_event_def run_handler_fn_def stop_env_run)

subsection \<open>Properties\<close>

text \<open>
  The loop never dispatches to a handler that is gone. From a settled state (every registered
  descriptor carries the address of the node of its own handler, nothing is being processed, and the timeouts are in order)
  \<^verbatim>\<open>start\<close> has no undefined behaviour, whatever handlers and callbacks add and remove
  while it runs; if it returns or throws the loop is settled again, and it returns only after
  \<^verbatim>\<open>stop\<close>.
\<close>

theorem start_safe:
  assumes "loop_law (kern X) ep reg" "kind_env X (fewer reg)" "settled reg ep (l, s)"
    and "start X (l, s) = Some (r, y)"
  shows "r \<noteq> Undefined \<and> r \<noteq> Terminated \<and> settled reg ep y \<and> (r = Ok () \<longrightarrow> \<not> keep_running (fst y))"
proof -
  have "settled reg ep (l\<lparr>keep_running := True\<rparr>, s)"
    using assms(3) by (simp add: settled_def loop_wf_def calm_def calm_timeouts_def calm_periodic_def)
  with start_loop_settled [of X "(l\<lparr>keep_running := True\<rparr>, s)" "(r, y)" ep reg] assms show ?thesis
    by (simp add: start_def defined_def)
qed

theorem start_safe_witness:
  "\<exists>y. start stop_env (stop_loop, stop_world) = Some (Ok (), y) \<and> settled id 3 y \<and> \<not> keep_running (fst y)"
proof -
  from stop_loop_round obtain l s where
    "start_iteration stop_env (stop_loop\<lparr>keep_running := True\<rparr>, stop_world) = (Ok (), (l, s))" "\<not> keep_running l"
    by blast
  then have run: "start stop_env (stop_loop, stop_world) = Some (Ok (), (l, s))"
    by (simp add: start_def start_loop_ok_step) (simp add: start_loop.simps)
  have "settled id 3 (stop_loop, stop_world)"
    using stop_loop_settled [of "keep_running stop_loop"] by simp
  from start_safe [OF list_calls_law stop_env_kind this run] run show ?thesis by blast
qed

text \<open>
  C18. A handler that was added receives its events: the descriptor is registered, and a later event
  that carries the registered data runs this handler, with the descriptor and the events
  it was added with, as long as the map holds it.
\<close>

theorem add_handler_dispatches:
  assumes "loop_law (kern X) ep reg" "loop_wf reg ep (l, s)" "add_handler X fd ev cb (l, s) = (Ok (), (l', s'))"
  shows "\<exists>registered. reg (world s') fd = Some registered \<and> ev_events registered = epoll_events_of ev \<and>
     (\<forall>event t. ev_data event = ev_data registered \<longrightarrow>
        dispatch_event X event (l', t) = run_handler_fn X cb fd ev (l', t))"
proof -
  let ?e = "make_epoll_event_ptr fd (epoll_events_of ev) (Some (next_node l))"
  let ?h = "\<lparr>hn_fd = fd, hn_node = next_node l, hn_value = \<lparr>hc_events = ev, hc_callback = cb\<rparr>\<rparr>"
  have ep: "ufd_get (epoll_fd (loop_epoll l)) = ep" using assms(2) by (simp add: loop_wf_def)
  obtain ret s1 where c: "sys_epoll_ctl (kern X) ep Ctl_add fd (Some ?e) s = (ret, s1)" by (metis prod.exhaust)
  from assms(3) c ep have "find (\<lambda>h. hn_fd h = fd) (handlers l) = None \<and> ret \<noteq> - 1 \<and> s' = s1 \<and> ?h \<in> set (handlers l')"
    by (auto simp: add_handler_def on_epoll_def epoll_add_ptr_def epoll_add_event_def cmd_simps split: if_splits)
  with epoll_lawD(1) [OF loop_lawD(1) [OF assms(1)] c]
  have new: "reg (world s') fd = Some ?e" "?h \<in> set (handlers l')" by auto
  have "loop_wf reg ep (l', s')" using keepsD [OF add_handler_wf [OF assms(1)] assms(3,2)] .
  from handler_found [OF this new(2)] new(1) show ?thesis
    by (auto simp: dispatch_event_def make_epoll_event_ptr_def cmd_simps)
qed

theorem add_handler_dispatches_witness:
  "\<exists>l' s'. add_handler stop_env 12 2 (User_handler 6) (stop_loop, stop_world) = (Ok (), (l', s'))
     \<and> world s' 12 = Some (make_epoll_event_ptr 12 4 (Some 1))
     \<and> dispatch_event stop_env (make_epoll_event_ptr 12 4 (Some 1)) (l', s') = stop stop_env (l', s')"
proof -
  have "\<exists>l' s'. add_handler stop_env 12 2 (User_handler 6) (stop_loop, stop_world) = (Ok (), (l', s'))
      \<and> world s' 12 = Some (make_epoll_event_ptr 12 4 (Some 1))"
    by (simp add: add_handler_def on_epoll_def epoll_add_ptr_def epoll_add_event_def cmd_simps stop_loop_def
        stop_world_def stop_env_def list_calls_def log_loop_def empty_loop_def epoll_events_of_def event_read_def
        event_write_def event_error_def Let_def)
  then obtain l' s' where run: "add_handler stop_env 12 2 (User_handler 6) (stop_loop, stop_world) = (Ok (), (l', s'))"
    and w: "world s' 12 = Some (make_epoll_event_ptr 12 4 (Some 1))" by blast
  have "loop_wf id 3 (stop_loop, stop_world)"
    using stop_loop_settled [of "keep_running stop_loop"] by (simp add: settled_def)
  from add_handler_dispatches [OF list_calls_law this run] run w show ?thesis
    by (auto simp: run_handler_fn_def stop_env_run)
qed

text \<open>
  C40. Outside of a dispatch, \<^verbatim>\<open>remove_handler\<close> frees the node before it takes the
  descriptor off the interest list. When that fails for another reason than \<^verbatim>\<open>ENOENT\<close>
  (as \<^verbatim>\<open>EBADF\<close> for a descriptor closed while a duplicate of it is open) it throws, and the next
  event of the descriptor that is still registered is dispatched through a dangling pointer.
\<close>

theorem remove_handler_dangles:
  assumes "loop_wf reg ep (l, s)" "\<not> processing_handlers l" "h \<in> set (handlers l)"
    and "sys_epoll_ctl (kern X) ep Ctl_del (hn_fd h) None s = (- 1, s1)" "errno s1 \<noteq> 0" "errno s1 \<noteq> ENOENT"
    and "ev_data event = Data_ptr (Some (hn_node h))"
  shows "\<exists>e l'. remove_handler X (hn_fd h) (l, s) = (Throw e, (l', s1)) \<and> fst (dispatch_event X event (l', s1)) = Undefined"
proof -
  have f: "find (\<lambda>h'. hn_fd h' = hn_fd h) (handlers l) \<noteq> None" using assms(3) by (auto simp: find_None_iff)
  have ep: "ufd_get (epoll_fd (loop_epoll l)) = ep" using assms(1) by (simp add: loop_wf_def)
  have "find (\<lambda>h'. hn_node h' = hn_node h) (filter (\<lambda>h'. hn_fd h' \<noteq> hn_fd h) (handlers l)) = None"
    using assms(1,3) by (auto simp: find_None_iff loop_wf_def distinct_map inj_on_def)
  with f ep assms(2-) show ?thesis
    by (auto simp: remove_handler_def on_epoll_def epoll_del_nothrow_def erase_handler_def dispatch_event_def cmd_simps)
qed

theorem remove_handler_dangles_witness:
  "\<exists>e l' s'. remove_handler (stop_env\<lparr>kern := (kern stop_env)\<lparr>sys_epoll_ctl := (\<lambda>_ _ _ _ s. (- 1, s\<lparr>errno := EBADF\<rparr>))\<rparr>\<rparr>)
       9 (stop_loop, stop_world) = (Throw e, (l', s'))
     \<and> fst (dispatch_event (stop_env\<lparr>kern := (kern stop_env)\<lparr>sys_epoll_ctl := (\<lambda>_ _ _ _ s. (- 1, s\<lparr>errno := EBADF\<rparr>))\<rparr>\<rparr>)
         (make_epoll_event_ptr 9 1 (Some 0)) (l', s')) = Undefined"
proof -
  let ?X = "stop_env\<lparr>kern := (kern stop_env)\<lparr>sys_epoll_ctl := (\<lambda>_ _ _ _ s. (- 1, s\<lparr>errno := EBADF\<rparr>))\<rparr>\<rparr>"
  let ?h = "\<lparr>hn_fd = 9, hn_node = 0, hn_value = \<lparr>hc_events = 1, hc_callback = User_handler 5\<rparr>\<rparr> :: nat handler_node"
  have wf: "loop_wf id 3 (stop_loop, stop_world)" "\<not> processing_handlers stop_loop"
    using stop_loop_settled [of "keep_running stop_loop"] by (simp_all add: settled_def)
  have h: "?h \<in> set (handlers stop_loop)" by (simp add: stop_loop_def)
  have c: "sys_epoll_ctl (kern ?X) 3 Ctl_del (hn_fd ?h) None stop_world = (- 1, stop_world\<lparr>errno := EBADF\<rparr>)" by simp
  from remove_handler_dangles [OF wf h c, of "make_epoll_event_ptr 9 1 (Some 0)"] show ?thesis
    by (auto simp: EBADF_def ENOENT_def make_epoll_event_ptr_def)
qed

text \<open>
  A failure of \<^verbatim>\<open>epoll_wait\<close> other than \<^verbatim>\<open>EINTR\<close> is not handled: the round goes on with
  the vector of events that was resized for the call, and in the first round the null pointers in it are followed.
\<close>

theorem wait_failure_undefined:
  assumes "epoll_events l = []" "size_events (loop_epoll l) \<noteq> 0"
    and "sys_epoll_wait (kern X) (ufd_get (epoll_fd (loop_epoll l))) (unat (size_events (loop_epoll l))) (- 1) s = ((- 1, []), s1)"
    and "errno s1 \<noteq> EINTR"
  shows "fst (start_iteration X (l, s)) = Undefined"
proof -
  obtain k where k: "unat (size_events (loop_epoll l)) = Suc k"
    using assms(2) by (metis not0_implies_Suc unat_eq_zero)
  with assms show ?thesis
    by (simp add: start_iteration_def on_events_def epoll_wait_nothrow_def with_sentry_def std_copy_def vec_resize_def
        dispatch_event_def zero_epoll_event_def cmd_simps)
qed

theorem wait_failure_undefined_witness:
  "fst (start_iteration (stop_env\<lparr>kern := (kern stop_env)\<lparr>sys_epoll_wait := (\<lambda>_ _ _ s. ((- 1, []), s\<lparr>errno := EBADF\<rparr>))\<rparr>\<rparr>)
     (stop_loop, stop_world)) = Undefined"
  by (rule wait_failure_undefined [where ?s1.0 = "stop_world\<lparr>errno := EBADF\<rparr>"])
    (simp_all add: stop_loop_def log_loop_def empty_loop_def EBADF_def EINTR_def)

end
