(* ===== verification/Ioloop_Build.thy ===== *)
theory Ioloop_Build
  imports Ioloop_Dispatch
begin

text \<open>
  The life of a loop as a whole: the constructor establishes what \<open>start\<close> relies on, the methods called before
  \<open>start\<close> keep it, and the constructor opens five descriptors or none.
\<close>

subsection \<open>The body of the constructor\<close>

text \<open>What adding a handler leaves alone.\<close>

definition loop_fds :: "'c ioloop \<Rightarrow> unit unique_fd list" where
  "loop_fds l = [efd (stop_eventfd l), tfd (timeout_timerfd l), tfd (periodic_timeout_timerfd l),
     efd (callbacks_eventfd l), epoll_fd (loop_epoll l)]"

definition quiet_part :: "'c ioloop \<Rightarrow> bool" where
  "quiet_part l \<longleftrightarrow> calm l \<and> \<not> processing_handlers l"

lemma add_handler_leaves:
  assumes "add_handler X fd ev cb (l, s) = (r, (l', s'))"
  shows "loop_fds l' = loop_fds l \<and> defined r \<and> (quiet_part l \<longrightarrow> quiet_part l')"
  using assms
  by (auto simp: add_handler_def on_epoll_def epoll_add_ptr_def epoll_add_event_def erase_handler_def cmd_simps
      loop_fds_def quiet_part_def calm_def calm_timeouts_def calm_periodic_def defined_def split: if_splits)

text \<open>A sequence of such calls, of which the first that throws is the last.\<close>

definition mild :: "(('c, 'w) loop_state, unit) cmd \<Rightarrow> bool" where
  "mild m \<longleftrightarrow> (\<forall>l s r l' s'. m (l, s) = (r, (l', s')) \<longrightarrow>
     loop_fds l' = loop_fds l \<and> defined r \<and> (quiet_part l \<longrightarrow> quiet_part l'))"

lemma mild_then:
  assumes "mild m" "mild n"
  shows "mild (then_c m n)"
  unfolding mild_def
proof (intro allI impI)
  fix l s r l' s' assume run: "then_c m n (l, s) = (r, (l', s'))"
  obtain r1 l1 s1 where 1: "m (l, s) = (r1, (l1, s1))" by (metis prod_cases3)
  have m: "loop_fds l1 = loop_fds l \<and> defined r1 \<and> (quiet_part l \<longrightarrow> quiet_part l1)"
    using assms(1) 1 unfolding mild_def by blast
  show "loop_fds l' = loop_fds l \<and> defined r \<and> (quiet_part l \<longrightarrow> quiet_part l')"
  proof (cases r1)
    case (Ok u)
    with run 1 have "n (l1, s1) = (r, (l', s'))" by (simp add: cmd_simps)
    with assms(2) m show ?thesis unfolding mild_def by metis
  qed (use run 1 m in \<open>auto simp: cmd_simps defined_def\<close>)
qed

lemma add_handler_mild: "mild (add_handler X fd ev cb)"
  unfolding mild_def using add_handler_leaves by blast

definition internal_handlers :: "('c, 'w) loop_env \<Rightarrow> 'c ioloop \<Rightarrow> (('c, 'w) loop_state, unit) cmd" where
  "internal_handlers X l =
     then_c (add_handler X (eventfd_fd (callbacks_eventfd l)) event_read Process_callbacks)
    (then_c (add_handler X (eventfd_fd (stop_eventfd l)) event_read Process_stop)
    (then_c (add_handler X (timerfd_fd (timeout_timerfd l)) event_read Process_timeouts)
            (add_handler X (timerfd_fd (periodic_timeout_timerfd l)) event_read Process_periodic_timeouts)))"

lemma ioloop_body_run: "ioloop_body X (l, s) = internal_handlers X l (l, s)"
  by (simp add: ioloop_body_def internal_handlers_def cmd_simps)

lemma internal_handlers_mild: "mild (internal_handlers X l)"
  unfolding internal_handlers_def by (intro mild_then add_handler_mild)

lemma internal_handlers_wf: "loop_law (kern X) ep reg \<Longrightarrow> keeps (loop_wf reg ep) (internal_handlers X l)"
  unfolding internal_handlers_def by (intro keeps_then add_handler_wf)

subsection \<open>A built loop is settled\<close>

text \<open>A new epoll descriptor has an empty interest list.\<close>

definition create_law :: "('w, 'x) ev_calls_scheme \<Rightarrow> int \<Rightarrow> ('w \<Rightarrow> (int \<rightharpoonup> epoll_event)) \<Rightarrow> bool" where
  "create_law K ep reg \<longleftrightarrow>
     (\<forall>flags s s'. sys_epoll_create1 K flags s = (ep, s') \<longrightarrow> reg (world s') = Map.empty)"

lemma ioloop_ctor_parts:
  assumes "ioloop_ctor X ids s = (Ok l, s')"
  obtains a b c d e l0 s1 s2 where "epoll_ctor (kern X) s1 = (Ok e, s2)" "l0 = empty_loop ids a b c d e"
    "internal_handlers X l0 (l0, s2) = (Ok (), (l, s'))"
  using assms
  by (auto simp: ioloop_ctor_def cmd_simps on_throw_def with_local_def ioloop_body_run split: prod.splits res.splits)

lemma ioloop_ctor_settled:
  assumes law: "loop_law (kern X) ep reg" "create_law (kern X) ep reg" and ctor: "ioloop_ctor X ids s = (Ok l, s')"
    and ep: "ufd_get (epoll_fd (loop_epoll l)) = ep"
  shows "settled reg ep (l, s')"
proof -
  from ctor obtain a b c d e l0 s1 s2 where e: "epoll_ctor (kern X) s1 = (Ok e, s2)" and l0: "l0 = empty_loop ids a b c d e"
    and body: "internal_handlers X l0 (l0, s2) = (Ok (), (l, s'))"
    by (rule ioloop_ctor_parts)
  have m: "loop_fds l = loop_fds l0 \<and> (quiet_part l0 \<longrightarrow> quiet_part l)"
    using internal_handlers_mild body unfolding mild_def by blast
  then have "ufd_get (epoll_fd e) = ep" using ep by (simp add: loop_fds_def l0 empty_loop_def)
  moreover obtain fd s3 where c: "sys_epoll_create1 (kern X) EPOLL_CLOEXEC s1 = (fd, s3)" by fastforce
  moreover have "s3 = s2" "e = \<lparr>epoll_fd = unique_fd_of fd (), size_events = 0\<rparr>"
    using e c by (auto simp: epoll_ctor_def cmd_simps Let_def split: if_splits)
  ultimately have "sys_epoll_create1 (kern X) EPOLL_CLOEXEC s1 = (ep, s2)" "ufd_get (epoll_fd e) = ep"
    by (simp_all add: unique_fd_defs int_descriptor_defs)
  with law(2) have "loop_wf reg ep (l0, s2)"
    by (simp add: create_law_def loop_wf_def points_to_def l0 empty_loop_def)
  with internal_handlers_wf [OF law(1)] body have "loop_wf reg ep (l, s')" by (blast dest: keepsD)
  moreover have "quiet_part l0"
    by (simp add: quiet_part_def calm_def calm_timeouts_def calm_periodic_def l0 empty_loop_def)
  ultimately show ?thesis using m by (simp add: settled_def quiet_part_def)
qed

text \<open>The methods called outside of a dispatch keep the loop settled.\<close>

interpretation idle: loop_invariant X ok "\<lambda>x. \<not> processing_handlers (fst x)" for X ok
proof unfold_locales
  show "keeps (\<lambda>x. \<not> processing_handlers (fst x)) (add_handler X fd ev cb)" for fd ev cb
    by (rule keepsI) (auto simp: add_handler_def on_epoll_def epoll_add_ptr_def epoll_add_event_def erase_handler_def
        cmd_simps split: if_splits)
  show "keeps (\<lambda>x. \<not> processing_handlers (fst x)) (remove_handler X fd)" for fd
    by (rule keepsI) (auto simp: remove_handler_def on_epoll_def erase_handler_def cmd_simps split: if_splits prod.splits res.splits)
qed (auto simp: handler_part_def blind_def)

lemma api_settled:
  assumes law: "loop_law (kern X) ep reg" and run: "(api_step X (fewer reg))\<^sup>*\<^sup>* x y" and "settled reg ep x"
  shows "settled reg ep y"
proof -
  have "loop_wf reg ep x" using assms(3) by (simp add: settled_def)
  with run have "loop_wf reg ep y"
    by (induction rule: rtranclp_induct) (blast intro: loop_invariant.api_step_keeps [OF loop_wf_invariant [OF law]])+
  moreover have "calm (fst y)"
    using calm_t.kept_star [OF run] calm_p.kept_star [OF run] assms(3) by (simp add: calm_def settled_def)
  moreover have "\<not> processing_handlers (fst y)"
    using idle.kept_star [OF run] assms(3) by (simp add: settled_def)
  ultimately show ?thesis by (simp add: settled_def)
qed

subsection \<open>The descriptors of a loop\<close>

text \<open>
  The effect on the descriptors \<open>opn\<close> the process has open: \<^verbatim>\<open>eventfd\<close>,
  \<^verbatim>\<open>timerfd_create\<close> and \<^verbatim>\<open>epoll_create1\<close> open one when they succeed.
\<close>

definition opens :: "('w \<Rightarrow> int multiset) \<Rightarrow> ('w, int) syscall \<Rightarrow> bool" where
  "opens opn f \<longleftrightarrow> (\<forall>s. opn (world (snd (f s))) =
     (if fst (f s) = - 1 then opn (world s) else add_mset (fst (f s)) (opn (world s))))"

definition ev_fd_law :: "('w, 'x) ev_calls_scheme \<Rightarrow> ('w \<Rightarrow> int multiset) \<Rightarrow> bool" where
  "ev_fd_law K opn \<longleftrightarrow>
     (\<forall>n fl. opens opn (sys_eventfd K n fl)) \<and> (\<forall>clk fl. opens opn (sys_timerfd_create K clk fl)) \<and>
     (\<forall>fl. opens opn (sys_epoll_create1 K fl)) \<and>
     (\<forall>fd s. opn (world (snd (sys_close K fd s))) = opn (world s) - {#fd#}) \<and>
     (\<forall>ep op fd ev s. opn (world (snd (sys_epoll_ctl K ep op fd ev s))) = opn (world s))"

text \<open>A command that returns with the descriptors \<open>R\<close> allows more open than before, or throws with none.\<close>

definition gains :: "('w \<Rightarrow> int multiset) \<Rightarrow> ('a \<Rightarrow> int multiset \<Rightarrow> bool) \<Rightarrow> ('w sys, 'a) cmd \<Rightarrow> bool" where
  "gains opn R m \<longleftrightarrow> (\<forall>s r s'. m s = (r, s') \<longrightarrow>
     (case r of Ok x \<Rightarrow> \<exists>M. opn (world s') = opn (world s) + M \<and> R x M
      | Throw e \<Rightarrow> opn (world s') = opn (world s) | _ \<Rightarrow> False))"

lemma gainsD: "gains opn R m \<Longrightarrow> m s = (r, s') \<Longrightarrow>
    (case r of Ok x \<Rightarrow> \<exists>M. opn (world s') = opn (world s) + M \<and> R x M
     | Throw e \<Rightarrow> opn (world s') = opn (world s) | _ \<Rightarrow> False)"
  by (simp add: gains_def)

definition one_fd :: "('a \<Rightarrow> unit unique_fd) \<Rightarrow> 'a \<Rightarrow> int multiset \<Rightarrow> bool" where
  "one_fd u x M \<longleftrightarrow> ufd_bool (u x) \<and> M = {#ufd_get (u x)#}"

lemma member_gains:
  assumes "ev_fd_law K opn"
  shows "gains opn (one_fd efd) (eventfd_ctor K n fl)" "gains opn (one_fd tfd) (monotonic_timerfd_ctor K fl)"
    "gains opn (one_fd epoll_fd) (epoll_ctor K)"
  using assms
  by (auto simp: gains_def ev_fd_law_def opens_def eventfd_ctor_def monotonic_timerfd_ctor_def epoll_ctor_def cmd_simps
      one_fd_def Let_def ufd_bool_def closed_fd_def unique_fd_defs int_descriptor_defs split: if_splits)

lemma close_fd_releases:
  "ev_fd_law (kern X) opn \<Longrightarrow> ufd_bool u \<Longrightarrow> opn (world (snd (close_fd X u s))) = opn (world s) - {#ufd_get u#}"
  by (simp add: close_fd_def ev_fd_law_def unique_fd_defs int_descriptor_defs default_close_def Let_def ufd_bool_def)

text \<open>A member whose construction is followed by others is destroyed when one of them throws.\<close>

lemma gains_member:
  assumes law: "ev_fd_law (kern X) opn" and m: "gains opn (one_fd u) m" and n: "\<And>x. gains opn (R x) (n x)"
  shows "gains opn (\<lambda>y M. \<exists>x M'. R x y M' \<and> ufd_bool (u x) \<and> M = add_mset (ufd_get (u x)) M')
    (bind_c m (\<lambda>x. on_throw (close_fd X (u x)) (n x)))"
  unfolding gains_def
proof (intro allI impI)
  fix s r s' assume run: "bind_c m (\<lambda>x. on_throw (close_fd X (u x)) (n x)) s = (r, s')"
  obtain r1 s1 where 1: "m s = (r1, s1)" by fastforce
  note g1 = gainsD [OF m 1]
  let ?goal = "case r of Ok y \<Rightarrow> \<exists>M. opn (world s') = opn (world s) + M \<and>
        (\<exists>x M'. R x y M' \<and> ufd_bool (u x) \<and> M = add_mset (ufd_get (u x)) M')
      | Throw e \<Rightarrow> opn (world s') = opn (world s) | _ \<Rightarrow> False"
  show ?goal
  proof (cases r1)
    case (Ok x)
    with g1 have x: "ufd_bool (u x)" "opn (world s1) = add_mset (ufd_get (u x)) (opn (world s))"
      by (auto simp: one_fd_def)
    obtain r2 s2 where 2: "n x s1 = (r2, s2)" by fastforce
    note g2 = gainsD [OF n 2]
    show ?thesis
    proof (cases r2)
      case (Ok y)
      with g2 obtain M where M: "opn (world s2) = opn (world s1) + M" "R x y M" by auto
      have "r = Ok y" "s' = s2" using run 1 2 Ok \<open>r1 = Ok x\<close> by (simp_all add: cmd_simps on_throw_def)
      moreover have "\<exists>x' M'. R x' y M' \<and> ufd_bool (u x') \<and> add_mset (ufd_get (u x)) M = add_mset (ufd_get (u x')) M'"
        using M x by blast
      ultimately show ?thesis using M x by (auto intro!: exI [of _ "add_mset (ufd_get (u x)) M"])
    qed (use run 1 2 Ok g2 x close_fd_releases [OF law x(1)] in \<open>auto simp: cmd_simps on_throw_def\<close>)
  qed (use run 1 g1 in \<open>auto simp: cmd_simps\<close>)
qed

lemma gains_mono: "gains opn R m \<Longrightarrow> (\<And>x M. R x M \<Longrightarrow> Q x M) \<Longrightarrow> gains opn Q m"
  unfolding gains_def by (fastforce split: res.splits)

lemma add_handler_opn:
  assumes "ev_fd_law (kern X) opn"
  shows "keeps (\<lambda>x. opn (world (snd x)) = M) (add_handler X fd ev cb)"
  by (rule keepsI) (use assms in \<open>auto simp: add_handler_def on_epoll_def epoll_add_ptr_def epoll_add_event_def
      erase_handler_def cmd_simps ev_fd_law_def split: if_splits prod.splits\<close>)

lemma body_gains:
  assumes "ev_fd_law (kern X) opn"
  shows "gains opn (\<lambda>l M. M = {#} \<and> loop_fds l = loop_fds l0) (with_local l0 (ioloop_body X))"
  unfolding gains_def
proof (intro allI impI)
  fix s r s' assume run: "with_local l0 (ioloop_body X) s = (r, s')"
  obtain r1 l1 s1 where 1: "internal_handlers X l0 (l0, s) = (r1, (l1, s1))" by (metis prod_cases3)
  have "keeps (\<lambda>x. opn (world (snd x)) = opn (world s)) (internal_handlers X l0)"
    unfolding internal_handlers_def by (intro keeps_then add_handler_opn assms)
  from keepsD [OF this 1] have "opn (world s1) = opn (world s)" by simp
  moreover have "loop_fds l1 = loop_fds l0 \<and> defined r1" using internal_handlers_mild 1 unfolding mild_def by blast
  ultimately show "case r of Ok l \<Rightarrow> \<exists>M. opn (world s') = opn (world s) + M \<and> M = {#} \<and> loop_fds l = loop_fds l0
      | Throw e \<Rightarrow> opn (world s') = opn (world s) | _ \<Rightarrow> False"
    using run 1 by (auto simp: with_local_def ioloop_body_run defined_def split: res.splits)
qed

lemma ioloop_ctor_gains:
  assumes law: "ev_fd_law (kern X) opn"
  shows "gains opn (\<lambda>l M. M = mset (map ufd_get (loop_fds l)) \<and> (\<forall>u\<in>set (loop_fds l). ufd_bool u)) (ioloop_ctor X ids)"
  unfolding ioloop_ctor_def eventfd_ctor_default_def eventfd_ctor_flags_def monotonic_timerfd_ctor_default_def
  by (rule gains_mono, (rule gains_member [OF law] member_gains [OF law] body_gains [OF law])+)
    (auto simp: loop_fds_def empty_loop_def)

lemma ioloop_destroy_releases:
  assumes "ev_fd_law (kern X) opn" "\<forall>u\<in>set (loop_fds l). ufd_bool u"
  shows "opn (world (snd (ioloop_destroy X l s))) = opn (world s) - mset (map ufd_get (loop_fds l))"
  using assms(2)
  by (simp add: ioloop_destroy_def Let_def close_fd_releases [OF assms(1)] loop_fds_def)

subsection \<open>An environment that builds a loop\<close>

text \<open>Descriptors are given out in order; descriptor 9 is the one that gets ready, and its handler stops the loop.\<close>

record built_world =
  interest :: "int \<rightharpoonup> epoll_event"
  next_fd :: nat
  open_fds :: "int multiset"

definition give_fd :: "(built_world, int) syscall" where
  "give_fd s = (int (next_fd (world s)),
     s\<lparr>world := (world s)\<lparr>next_fd := Suc (next_fd (world s)), open_fds := add_mset (int (next_fd (world s))) (open_fds (world s))\<rparr>\<rparr>)"

definition set_interest :: "(int \<rightharpoonup> epoll_event) \<Rightarrow> built_world sys \<Rightarrow> built_world sys" where
  "set_interest m s = s\<lparr>world := (world s)\<lparr>interest := m\<rparr>\<rparr>"

definition built_calls :: "built_world ev_calls" where
  "built_calls = idle_ev_calls
     \<lparr>sys_write := (\<lambda>_ _ _ s. (8, s)),
      sys_close := (\<lambda>fd s. (0, s\<lparr>world := (world s)\<lparr>open_fds := open_fds (world s) - {#fd#}\<rparr>\<rparr>)),
      sys_eventfd := (\<lambda>_ _. give_fd), sys_timerfd_create := (\<lambda>_ _. give_fd),
      sys_epoll_create1 := (\<lambda>_ s. give_fd (set_interest Map.empty s)),
      sys_epoll_ctl := (\<lambda>_ op fd ev s. case (op, ev, interest (world s) fd) of
         (Ctl_add, Some e, None) \<Rightarrow> (0, set_interest ((interest (world s))(fd \<mapsto> e)) s)
       | (Ctl_mod, Some e, Some _) \<Rightarrow> (0, set_interest ((interest (world s))(fd \<mapsto> e)) s)
       | (Ctl_del, _, Some _) \<Rightarrow> (0, set_interest ((interest (world s))(fd := None)) s)
       | _ \<Rightarrow> (- 1, s\<lparr>errno := ENOENT\<rparr>)),
      sys_epoll_wait := (\<lambda>_ n _ s. case interest (world s) 9 of
         Some e \<Rightarrow> if n = 0 then ((- 1, []), s\<lparr>errno := EINTR\<rparr>) else ((1, [e]), s)
       | None \<Rightarrow> ((- 1, []), s\<lparr>errno := EINTR\<rparr>))\<rparr>"

definition built_env :: "(nat, built_world) loop_env" where
  "built_env =
     (let X = \<lparr>kern = built_calls, user = \<lparr>run_callback = (\<lambda>_ x. (Ok (), x)), run_handler = (\<lambda>_ _ _ x. (Ok (), x))\<rparr>,
               sen = id, srt = sort_key pt_timeout, host_le = True, local_addr = 64, raw8 = replicate 8 0\<rparr>
      in X\<lparr>user := \<lparr>run_callback = (\<lambda>_ x. (Ok (), x)), run_handler = (\<lambda>_ _ _. stop X)\<rparr>\<rparr>)"

definition built_sys :: "built_world sys" where
  "built_sys = sys0 \<lparr>interest = Map.empty, next_fd = 3, open_fds = {#0, 1, 2#}\<rparr>"

lemma built_calls_law: "loop_law (kern built_env) ep interest"
  unfolding loop_law_def epoll_law_def built_env_def built_calls_def
  by (auto simp: idle_ev_calls_def Let_def EINTR_def ENOENT_def fun_eq_iff set_interest_def
      split: if_splits option.splits epoll_op.splits)

lemma built_create_law: "create_law (kern built_env) ep interest"
  by (auto simp: create_law_def built_env_def built_calls_def give_fd_def set_interest_def Let_def)

lemma built_fd_law: "ev_fd_law (kern built_env) open_fds"
  by (auto simp: ev_fd_law_def opens_def built_env_def built_calls_def give_fd_def set_interest_def Let_def
      split: option.splits epoll_op.splits)

lemma built_env_run: "run_handler (user built_env) h fd ev = stop built_env" "run_callback (user built_env) c x = (Ok (), x)"
  by (simp_all add: built_env_def Let_def stop_def)

lemma built_env_kind: "kind_env built_env ok"
  unfolding kind_env_def api_code_def
  by (auto simp: built_env_run sort_law_def dest: stop_defined intro: r_into_rtranclp call_stop)
    (simp_all add: built_env_def Let_def)

lemma built_env_calls:
  "sys_eventfd (kern built_env) i fl = give_fd" "sys_timerfd_create (kern built_env) clk fl = give_fd"
  "sys_epoll_create1 (kern built_env) fl s = give_fd (set_interest Map.empty s)"
  "sys_epoll_ctl (kern built_env) ep Ctl_add fd (Some e) s =
     (if interest (world s) fd = None then (0, set_interest ((interest (world s))(fd \<mapsto> e)) s) else (- 1, s\<lparr>errno := ENOENT\<rparr>))"
  "0 < n \<Longrightarrow> sys_epoll_wait (kern built_env) ep n t s =
     (case interest (world s) 9 of Some e \<Rightarrow> ((1, [e]), s) | None \<Rightarrow> ((- 1, []), s\<lparr>errno := EINTR\<rparr>))"
  "sen built_env = id"
  "stop built_env (l, s) = (Ok (), (l\<lparr>keep_running := False\<rparr>, s\<lparr>mem := mem_write (mem s) 64 (store64 True 1)\<rparr>))"
  by (simp_all add: built_env_def built_calls_def Let_def stop_def eventfd_write_def set_local64_def write_file_def
      cmd_simps split: option.splits)

lemma built_loop_built:
  "\<exists>l s. ioloop_ctor built_env (0, 0) built_sys = (Ok l, s) \<and> map ufd_get (loop_fds l) = [3, 4, 5, 6, 7] \<and>
     (\<exists>l2 s2. add_handler built_env 9 1 (User_handler 5) (l, s) = (Ok (), (l2, s2)) \<and>
       (\<exists>l3 s3. start_iteration built_env (l2\<lparr>keep_running := True\<rparr>, s2) = (Ok (), (l3, s3)) \<and> \<not> keep_running l3))"
  by (simp add: ioloop_ctor_def eventfd_ctor_default_def eventfd_ctor_flags_def monotonic_timerfd_ctor_default_def
      eventfd_ctor_def monotonic_timerfd_ctor_def epoll_ctor_def cmd_simps on_throw_def with_local_def ioloop_body_def
      built_env_calls give_fd_def set_interest_def built_sys_def empty_loop_def add_handler_def on_epoll_def
      epoll_add_ptr_def epoll_add_event_def eventfd_fd_def timerfd_fd_def unique_fd_defs int_descriptor_defs loop_fds_def
      make_epoll_event_ptr_def zero_epoll_event_def Let_def closed_fd_def
      start_iteration_def on_events_def epoll_wait_nothrow_def with_sentry_def std_copy_def vec_resize_def
      dispatch_event_def run_handler_fn_def built_env_run)

subsection \<open>Properties\<close>

text \<open>
  C10. A loop, from its constructor on, never dispatches to a handler that is gone. Build a loop, call any of its methods,
  then \<^verbatim>\<open>start\<close>: there is no undefined behaviour, whatever handlers, timeouts and callbacks are
  added and removed before and by the callbacks meanwhile, as long as those calls are themselves
  defined (\<open>api_step\<close>); if \<^verbatim>\<open>start\<close> returns or throws, every registered descriptor carries the address of the node of its own handler and nothing is being processed, so that the
  loop can be started again; and it returns only after \<^verbatim>\<open>stop\<close>.
\<close>

theorem built_loop_safe:
  assumes "loop_law (kern X) ep reg" "create_law (kern X) ep reg" "kind_env X (fewer reg)"
    and "ioloop_ctor X ids s = (Ok l, s1)" "ufd_get (epoll_fd (loop_epoll l)) = ep"
    and "(api_step X (fewer reg))\<^sup>*\<^sup>* (l, s1) (l2, s2)" "start X (l2, s2) = Some (r, y)"
  shows "r \<noteq> Undefined \<and> r \<noteq> Terminated \<and> settled reg ep y \<and> (r = Ok () \<longrightarrow> \<not> keep_running (fst y))"
  using assms(6,7) ioloop_ctor_settled [OF assms(1,2,4,5)] api_settled [OF assms(1)] start_safe [OF assms(1,3)] by blast

theorem built_loop_safe_witness:
  "\<exists>l s1 l2 s2 y. ioloop_ctor built_env (0, 0) built_sys = (Ok l, s1) \<and>
     add_handler built_env 9 1 (User_handler 5) (l, s1) = (Ok (), (l2, s2)) \<and>
     start built_env (l2, s2) = Some (Ok (), y) \<and> settled interest 7 y \<and> \<not> keep_running (fst y)"
proof -
  from built_loop_built obtain l s l2 s2 l3 s3 where ctor: "ioloop_ctor built_env (0, 0) built_sys = (Ok l, s)"
      "map ufd_get (loop_fds l) = [3, 4, 5, 6, 7]" and add: "add_handler built_env 9 1 (User_handler 5) (l, s) = (Ok (), (l2, s2))"
    and round: "start_iteration built_env (l2\<lparr>keep_running := True\<rparr>, s2) = (Ok (), (l3, s3))" "\<not> keep_running l3"
    by (elim exE conjE) (rule that)
  from round have run: "start built_env (l2, s2) = Some (Ok (), (l3, s3))"
    by (simp add: start_def start_loop_ok_step) (simp add: start_loop.simps)
  have "(api_step built_env (fewer interest))\<^sup>*\<^sup>* (l, s) (l2, s2)"
    using add by (blast intro: call_add_handler)
  moreover have "ufd_get (epoll_fd (loop_epoll l)) = 7" using ctor(2) by (simp add: loop_fds_def)
  ultimately show ?thesis
    using built_loop_safe [OF built_calls_law built_create_law built_env_kind ctor(1) _ _ run] ctor(1) add run by blast
qed

text \<open>
  C34. A loop that is built owns five descriptors, which its destructor closes; a constructor that
  throws, at whichever of its nine system calls, leaves no descriptor open.
\<close>

theorem ioloop_ctor_owns:
  assumes law: "ev_fd_law (kern X) opn" and run: "ioloop_ctor X ids s = (r, s')"
  shows "(\<exists>l. r = Ok l \<and> opn (world s') = opn (world s) + mset (map ufd_get (loop_fds l)) \<and>
       (\<forall>s2. opn (world (snd (ioloop_destroy X l s2))) = opn (world s2) - mset (map ufd_get (loop_fds l))))
     \<or> (\<exists>e. r = Throw e \<and> opn (world s') = opn (world s))"
  using gainsD [OF ioloop_ctor_gains [OF law] run] ioloop_destroy_releases [OF law] by (auto split: res.splits)

theorem ioloop_ctor_owns_witness:
  "\<exists>l s. ioloop_ctor built_env (0, 0) built_sys = (Ok l, s) \<and> open_fds (world s) = {#0, 1, 2, 3, 4, 5, 6, 7#} \<and>
     open_fds (world (snd (ioloop_destroy built_env l s))) = {#0, 1, 2#}"
proof -
  from built_loop_built obtain l s where "ioloop_ctor built_env (0, 0) built_sys = (Ok l, s)"
      "map ufd_get (loop_fds l) = [3, 4, 5, 6, 7]"
    by (elim exE conjE) (rule that)
  with ioloop_ctor_owns [OF built_fd_law this(1)] show ?thesis by (simp add: built_sys_def del: mset_map)
qed

end
