(* ===== verification/Round_Calls.thy ===== *)
theory Round_Calls
  imports Ioloop_Build Timeout_Calls
begin

text \<open>
  Which handlers a round of \<^verbatim>\<open>start\<close> calls: for each event that \<^verbatim>\<open>epoll_wait\<close>
  reports, in the order of the report, the handler of the descriptor the event is of, whatever the handlers and
  callbacks do to the loop meanwhile. The calls are observed in a log that every handler of the user is written to.
  A handler that calls \<^verbatim>\<open>stop\<close> ends the loop with its round.
\<close>

subsection \<open>The log of handlers\<close>

text \<open>The calls of epoll do not write to the log of callbacks.\<close>

definition wait_log :: "('w, 'x) ev_calls_scheme \<Rightarrow> ('w \<Rightarrow> 'c list) \<Rightarrow> bool" where
  "wait_log K lg \<longleftrightarrow>
     (\<forall>ep n t s. lg (world (snd (sys_epoll_wait K ep n t s))) = lg (world s)) \<and>
     (\<forall>ep op fd ev s. lg (world (snd (sys_epoll_ctl K ep op fd ev s))) = lg (world s))"

lemma prune_handler_log:
  assumes "wait_log (kern X) lg"
  shows "keeps (\<lambda>x. lg (world (snd x)) = L) (prune_handler X fd)"
  by (rule keepsI) (use assms in \<open>auto simp: prune_handler_def on_epoll_def epoll_del_nothrow_def cmd_simps wait_log_def
      split: if_splits prod.splits res.splits\<close>)

lemma prune_removed_log:
  assumes "wait_log (kern X) lg"
  shows "keeps (\<lambda>x. lg (world (snd x)) = L) (prune_removed X)"
  unfolding prune_removed_def by (intro keeps_intros prune_handler_log [OF assms]) simp

definition handler_log :: "('c, 'w) loop_env \<Rightarrow> ('w \<Rightarrow> ('c \<times> int \<times> uint32) list) \<Rightarrow> bool" where
  "handler_log X lg \<longleftrightarrow>
     (\<forall>h fd ev x r y. run_handler (user X) h fd ev x = (r, y) \<longrightarrow> lg (world (snd y)) = lg (world (snd x)) @ [(h, fd, ev)]) \<and>
     (\<forall>c x. lg (world (snd (snd (run_callback (user X) c x)))) = lg (world (snd x))) \<and>
     (\<forall>L. blind (kern X) (\<lambda>x :: ('c, 'w) loop_state. lg (world (snd x)) = L)) \<and> wait_log (kern X) lg"

lemma handler_logD:
  fixes X :: "('c, 'w) loop_env" and x :: "('c, 'w) loop_state"
  assumes "handler_log X lg"
  shows "run_handler (user X) h fd ev x = (r, y) \<Longrightarrow> lg (world (snd y)) = lg (world (snd x)) @ [(h, fd, ev)]"
    "keeps (\<lambda>x. lg (world (snd x)) = L) (run_callback (user X) c)" "blind (kern X) (\<lambda>x :: ('c, 'w) loop_state. lg (world (snd x)) = L)"
    "wait_log (kern X) lg"
proof -
  note log = assms [unfolded handler_log_def]
  show "run_handler (user X) h fd ev x = (r, y) \<Longrightarrow> lg (world (snd y)) = lg (world (snd x)) @ [(h, fd, ev)]"
    using log [THEN conjunct1] by blast
  show "keeps (\<lambda>x. lg (world (snd x)) = L) (run_callback (user X) c)"
    using log [THEN conjunct2, THEN conjunct1] by (simp add: keeps_def)
  show "blind (kern X) (\<lambda>x :: ('c, 'w) loop_state. lg (world (snd x)) = L)" "wait_log (kern X) lg" using log by simp_all
qed

text \<open>What the dispatch to a node writes to the log.\<close>

definition user_calls :: "'c handler_node \<Rightarrow> ('c \<times> int \<times> uint32) list" where
  "user_calls h = (case hc_callback (hn_value h) of User_handler f \<Rightarrow> [(f, hn_fd h, hc_events (hn_value h))] | _ \<Rightarrow> [])"

lemma handler_fn_log:
  assumes "handler_log X lg"
    and run: "run_handler_fn X (hc_callback (hn_value h)) (hn_fd h) (hc_events (hn_value h)) x = (r, y)"
  shows "lg (world (snd y)) = lg (world (snd x)) @ user_calls h"
proof (cases "\<exists>f. hc_callback (hn_value h) = User_handler f")
  case True
  then obtain f where f: "hc_callback (hn_value h) = User_handler f" by blast
  with run have "run_handler (user X) f (hn_fd h) (hc_events (hn_value h)) x = (r, y)" by (simp add: run_handler_fn_def)
  from handler_logD(1) [OF assms(1) this] f show ?thesis by (simp add: user_calls_def)
next
  case False
  have "keeps (\<lambda>x. lg (world (snd x)) = L) (run_handler_fn X (hc_callback (hn_value h)) fd ev)" for L fd ev
    by (rule keeps_own_handler [OF handler_logD(2,3) [OF assms(1)] _ False]) simp
  from keepsD [OF this run, of "lg (world (snd x))"] False show ?thesis
    by (auto simp: user_calls_def split: handler_fn.splits)
qed

subsection \<open>Nodes that stay where they are\<close>

definition held :: "'c handler_node \<Rightarrow> ('c, 'w) loop_state \<Rightarrow> bool" where
  "held h = (\<lambda>(l, s). processing_handlers l \<and> find (\<lambda>h'. hn_node h' = hn_node h) (handlers l) = Some h)"

lemma find_append_Some: "find P xs = Some x \<Longrightarrow> find P (xs @ ys) = Some x"
  by (induction xs) auto

lemma add_handler_held: "keeps (held h) (add_handler X fd ev cb)"
proof (rule keepsI)
  fix x r y assume run: "add_handler X fd ev cb x = (r, y)" and I: "held h x"
  with add_handler_appends [of X fd ev cb "fst x" "snd x" r "fst y" "snd y"] show "held h y"
    by (auto simp: held_def split_beta find_append_Some)
qed

lemma remove_handler_held: "keeps (held h) (remove_handler X fd)"
  by (rule keepsI) (auto simp: remove_handler_def held_def cmd_simps split: if_splits)

interpretation hold: loop_invariant X ok "held h" for X ok h
proof unfold_locales
  show "keeps (held h) (add_handler X fd ev cb)" for fd ev cb by (rule add_handler_held)
  show "keeps (held h) (remove_handler X fd)" for fd by (rule remove_handler_held)
qed (auto simp: held_def handler_part_def blind_def)

subsection \<open>The dispatch of a batch\<close>

lemma dispatch_log:
  assumes "handler_log X lg" "held h x" "ev_data e = Data_ptr (Some (hn_node h))" "dispatch_event X e x = (r, y)"
  shows "lg (world (snd y)) = lg (world (snd x)) @ user_calls h"
proof -
  have "run_handler_fn X (hc_callback (hn_value h)) (hn_fd h) (hc_events (hn_value h)) x = (r, y)"
    using assms(2-4) by (cases x) (simp add: dispatch_event_def held_def cmd_simps)
  with assms(1) show ?thesis by (rule handler_fn_log)
qed

lemma dispatch_all_log:
  assumes env: "api_code X ok" "handler_log X lg"
  shows "list_all2 (\<lambda>e h. held h x \<and> ev_data e = Data_ptr (Some (hn_node h))) es hs \<Longrightarrow>
     for_each (dispatch_event X) es x = (r, y) \<Longrightarrow>
     \<exists>k\<le>length hs. lg (world (snd y)) = lg (world (snd x)) @ concat (map user_calls (take k hs)) \<and> (r = Ok () \<longrightarrow> k = length hs)"
proof (induction es arbitrary: hs x)
  case Nil
  then show ?case by (auto simp: cmd_simps)
next
  case (Cons e es)
  then obtain h hs' where hs: "hs = h # hs'" and h: "held h x" "ev_data e = Data_ptr (Some (hn_node h))"
    and rest: "list_all2 (\<lambda>e h. held h x \<and> ev_data e = Data_ptr (Some (hn_node h))) es hs'"
    by (auto simp: list_all2_Cons1)
  obtain r1 y1 where d: "dispatch_event X e x = (r1, y1)" by (metis prod.exhaust)
  note lg = dispatch_log [OF env(2) h d]
  show ?case
  proof (cases "r1 = Ok ()")
    case True
    with Cons.prems(2) d have run: "for_each (dispatch_event X) es y1 = (r, y)" by (simp add: cmd_simps)
    have "list_all2 (\<lambda>e h. held h y1 \<and> ev_data e = Data_ptr (Some (hn_node h))) es hs'"
      using rest by (rule list_all2_mono) (use keepsD [OF hold.dispatch_keeps [OF env(1)] d] in blast)
    from Cons.IH [OF this run] obtain k where
      "k \<le> length hs'" "lg (world (snd y)) = lg (world (snd y1)) @ concat (map user_calls (take k hs'))" "r = Ok () \<longrightarrow> k = length hs'"
      by blast
    with lg hs show ?thesis by (intro exI [of _ "Suc k"]) simp
  next
    case False
    with Cons.prems(2) d have "y = y1" "r \<noteq> Ok ()" by (cases r1; auto simp: cmd_simps)+
    with lg hs show ?thesis by (intro exI [of _ 1]) simp
  qed
qed

lemma batch_log:
  assumes env: "api_code X ok" "handler_log X lg"
    and hs: "list_all2 (\<lambda>e h. h \<in> set (handlers l) \<and> ev_data e = Data_ptr (Some (hn_node h))) (epoll_events l) hs"
    and wf: "loop_wf reg ep (l, s)" and run: "dispatch_batch X (l, s) = (r, (l', s'))"
  shows "\<exists>k\<le>length hs. lg (world s') = lg (world s) @ concat (map user_calls (take k hs)) \<and> (r = Ok () \<longrightarrow> k = length hs)"
proof -
  let ?l = "l\<lparr>processing_handlers := True\<rparr>"
  obtain r1 l1 s1 where all: "for_each (dispatch_event X) (epoll_events l) (?l, s) = (r1, (l1, s1))" by (metis prod.exhaust)
  have "list_all2 (\<lambda>e h. held h (?l, s) \<and> ev_data e = Data_ptr (Some (hn_node h))) (epoll_events l) hs"
    using hs by (rule list_all2_mono) (simp add: held_def handler_found [OF wf])
  from dispatch_all_log [OF env this all] obtain k where
    "k \<le> length hs" "lg (world s1) = lg (world s) @ concat (map user_calls (take k hs))" "r1 = Ok () \<longrightarrow> k = length hs" by auto
  moreover have "r = r1" "s' = s1"
    using run all by (simp_all add: dispatch_batch_def with_sentry_def cmd_simps)
  ultimately show ?thesis by blast
qed

lemma then_c_OkE:
  assumes "then_c m n x = (Ok v, y)"
  obtains u z where "m x = (Ok u, z)" "n z = (Ok v, y)"
  using assms by (cases "m x"; cases "fst (m x)") (auto simp: cmd_simps)

text \<open>A round that returns, split at one of its events.\<close>

lemma round_splits:
  assumes law: "loop_law (kern X) ep reg" and env: "kind_env X (fewer reg)" and st: "settled reg ep (l, s)"
    and wait: "sys_epoll_wait (kern X) ep (unat (size_events (loop_epoll l))) (- 1) s = ((q, out), s1)" "q \<noteq> - 1"
    and out: "out = es1 @ e # es2" and h: "h \<in> set (handlers l)" "ev_data e = Data_ptr (Some (hn_node h))"
    and run: "start_iteration X (l, s) = (Ok (), (l', s'))"
  obtains x1 x2 l3 s3 where
    "for_each (dispatch_event X) es1 (l\<lparr>epoll_events := out, processing_handlers := True\<rparr>, s1) = (Ok (), x1)" "calm (fst x1)"
    "run_handler_fn X (hc_callback (hn_value h)) (hn_fd h) (hc_events (hn_value h)) x1 = (Ok (), x2)"
    "for_each (dispatch_event X) es2 x2 = (Ok (), (l3, s3))"
    "prune_removed X (l3\<lparr>processing_handlers := False\<rparr>, s3) = (Ok (), (l', s'))"
proof -
  let ?x = "(l\<lparr>epoll_events := out, processing_handlers := True\<rparr>, s1)" and ?N = "hn_node ` set (handlers l)"
  have wf: "loop_wf reg ep (l, s)" and ep: "ufd_get (epoll_fd (loop_epoll l)) = ep" and ph: "\<not> processing_handlers l"
    and calm: "calm (fst ?x)" using st
    by (simp_all add: settled_def loop_wf_def calm_def calm_timeouts_def calm_periodic_def)
  from wait_reports [of X l reg s q out s1] law wait ep have
    w: "on_events (epoll_wait_nothrow (kern X) (loop_epoll l)) (l, s) = (Ok (syscall_return_value q), (l\<lparr>epoll_events := out\<rparr>, s1))"
    and reg: "\<forall>e\<in>set out. \<exists>fd ev. reg (world s) fd = Some ev \<and> ev_data e = ev_data ev" by simp_all
  have nodes: "\<forall>e\<in>set es1. \<exists>n\<in>?N. ev_data e = Data_ptr (Some n)"
  proof
    fix d assume "d \<in> set es1"
    with reg out obtain fd ev where "reg (world s) fd = Some ev" "ev_data d = ev_data ev" by fastforce
    with wf show "\<exists>n\<in>?N. ev_data d = Data_ptr (Some n)" unfolding loop_wf_def points_to_def by fastforce
  qed
  have api: "api_code X (fewer reg)" and sen: "sen X False = False" using env by (simp_all add: kind_env_def)
  from run w have b: "then_c (dispatch_batch X) (prune_removed X) (l\<lparr>epoll_events := out\<rparr>, s1) = (Ok (), (l', s'))"
    by (simp add: start_iteration_run)
  obtain r3 l3 s3 where all: "for_each (dispatch_event X) out ?x = (r3, (l3, s3))" by (metis prod_cases3)
  have p: "r3 = Ok ()" "prune_removed X (l3\<lparr>processing_handlers := False\<rparr>, s3) = (Ok (), (l', s'))"
    using b all ph sen by (cases r3; simp add: dispatch_batch_def with_sentry_def cmd_simps)+
  from all p(1) obtain x1 where d1: "for_each (dispatch_event X) es1 ?x = (Ok (), x1)"
    and rest: "for_each (dispatch_event X) (e # es2) x1 = (Ok (), (l3, s3))"
    unfolding out for_each_append by (auto elim: then_c_OkE)
  from rest obtain x2 where d2: "dispatch_event X e x1 = (Ok (), x2)"
    and d3: "for_each (dispatch_event X) es2 x2 = (Ok (), (l3, s3))"
    by (auto elim: then_c_OkE)
  have "pinned ?N ?x" by (simp add: pinned_def)
  from dispatch_all_defined [OF env nodes this calm d1] have c1: "calm (fst x1)" by simp
  have "held h ?x" by (simp add: held_def handler_found [OF wf h(1)])
  with keepsD [OF keeps_for_each [OF hold.dispatch_keeps [OF api]] d1] have "held h x1" by blast
  then have "run_handler_fn X (hc_callback (hn_value h)) (hn_fd h) (hc_events (hn_value h)) x1 = (Ok (), x2)"
    using d2 h(2) by (cases x1) (simp add: dispatch_event_def held_def cmd_simps)
  with d1 c1 d3 p(2) that show thesis by blast
qed

subsection \<open>A stop is not undone\<close>

lemma leaves_running:
  "leaves keep_running (add_handler X fd ev cb)" "leaves keep_running (remove_handler X fd)"
  "leaves keep_running (add_callback X c)" "leaves keep_running (add_timeout X t c)"
  "leaves keep_running (add_timeout_delay X d c)" "leaves keep_running (remove_timeout k)"
  "leaves keep_running (add_periodic_timeout X p c)" "leaves keep_running (remove_periodic_timeout k)"
  "leaves keep_running timeout_handle" "leaves keep_running periodic_timeout_handle"
  unfolding add_handler_def remove_handler_def erase_handler_def add_callback_def add_timeout_delay_def add_timeout_def
    insert_timeout_def arm_timeouts_def remove_timeout_def add_periodic_timeout_def insert_periodic_timeout_def
    timeout_handle_def periodic_timeout_handle_def arm_periodic_def remove_periodic_timeout_def
  by (auto intro!: leaves_intros split: if_splits)

lemma stop_clears: "stop X x = (r, y) \<Longrightarrow> \<not> keep_running (fst y)"
  by (cases x) (auto simp: stop_def cmd_simps)

interpretation stopped: api_invariant X ok "\<lambda>x. \<not> keep_running (fst x)" for X ok
proof
  fix x y assume "api_step X ok x y" "\<not> keep_running (fst x)"
  then show "\<not> keep_running (fst y)"
    by (induction rule: api_step.induct) (auto dest: leaves_running [THEN leavesD] stop_clears)
qed

lemma stopped_dispatch: "api_code X ok \<Longrightarrow> keeps (\<lambda>x. \<not> keep_running (fst x)) (dispatch_event X e)"
proof -
  assume api: "api_code X ok"
  note cb = stopped.keeps_callback [OF api]
  have "keeps (\<lambda>x. \<not> keep_running (fst x)) (run_handler_fn X fn fd ev)" for fn fd ev
  proof (cases fn)
    case (User_handler c)
    then show ?thesis using stopped.handler_keeps [OF api] by (auto simp: run_handler_fn_def intro: keepsI)
  qed (auto simp: run_handler_fn_def intro!: keeps_process_callbacks keeps_process_stop keeps_process_timeouts
      keeps_process_periodic cb blind_fst)
  then show ?thesis
    by (auto simp: dispatch_event_def split: epoll_data.splits option.splits intro!: keeps_intros)
qed

lemma stopped_prune: "keeps (\<lambda>x. \<not> keep_running (fst x)) (prune_removed X)"
proof -
  have "leaves keep_running (prune_handler X fd)" for fd
    unfolding prune_handler_def erase_handler_def by (auto intro!: leaves_intros)
  then have "keeps (\<lambda>x. \<not> keep_running (fst x)) (prune_handler X fd)" for fd
    by (blast intro: keepsI dest: leavesD)
  then show ?thesis unfolding prune_removed_def by (intro keeps_intros; simp)
qed

text \<open>A handler that, whatever it does before and after, calls \<^verbatim>\<open>stop\<close>.\<close>

definition calls_stop :: "('c, 'w) loop_env \<Rightarrow> ('w sys \<Rightarrow> 'w sys \<Rightarrow> bool) \<Rightarrow> 'c \<Rightarrow> bool" where
  "calls_stop X ok c \<longleftrightarrow> (\<forall>fd ev x r y. run_handler (user X) c fd ev x = (r, y) \<longrightarrow>
     (\<exists>x1 rs x2. (api_step X ok)\<^sup>*\<^sup>* x x1 \<and> stop X x1 = (rs, x2) \<and> (api_step X ok)\<^sup>*\<^sup>* x2 y))"

lemma calls_stop_clears:
  "calls_stop X ok c \<Longrightarrow> run_handler (user X) c fd ev x = (r, y) \<Longrightarrow> \<not> keep_running (fst y)"
  unfolding calls_stop_def by (metis stopped.kept_star stop_clears)

text \<open>The handler of each event that is reported: the one registered for the descriptor the event is of.\<close>

definition event_of :: "('w \<Rightarrow> (int \<rightharpoonup> epoll_event)) \<Rightarrow> ('c, 'w) loop_state \<Rightarrow> epoll_event \<Rightarrow> 'c handler_node \<Rightarrow> bool" where
  "event_of reg x e h \<longleftrightarrow> h \<in> set (handlers (fst x)) \<and> ev_data e = Data_ptr (Some (hn_node h)) \<and>
     (\<exists>ev. reg (world (snd x)) (hn_fd h) = Some ev \<and> ev_data ev = ev_data e)"

lemma events_have_handlers:
  assumes wf: "loop_wf reg ep (l, s)"
    and out: "\<forall>e\<in>set out. \<exists>fd ev. reg (world s) fd = Some ev \<and> ev_data e = ev_data ev"
  shows "\<exists>hs. list_all2 (event_of reg (l, s)) out hs"
  using out
proof (induction out)
  case Nil
  show ?case by (intro exI [of _ "[]"]) simp
next
  case (Cons e out)
  then obtain fd ev where ev: "reg (world s) fd = Some ev" "ev_data e = ev_data ev" by auto
  with wf obtain h where "h \<in> set (handlers l)" "hn_fd h = fd" "ev_data ev = Data_ptr (Some (hn_node h))"
    unfolding loop_wf_def points_to_def by blast
  with ev have "event_of reg (l, s) e h" by (auto simp: event_of_def)
  moreover obtain hs where "list_all2 (event_of reg (l, s)) out hs" using Cons by auto
  ultimately show ?case by (intro exI [of _ "h # hs"]) simp
qed

subsection \<open>An environment for examples\<close>

text \<open>
  The world is the interest list and the log. Descriptors 5 and 6 are ready whenever both are registered. Every handler
  writes to the log, and handler 1 removes the handler of descriptor 6.
\<close>

definition twin_calls :: "((int \<rightharpoonup> epoll_event) \<times> (nat \<times> int \<times> uint32) list) ev_calls" where
  "twin_calls = idle_ev_calls
     \<lparr>sys_epoll_ctl := (\<lambda>_ op fd ev s. let put = (\<lambda>e. s\<lparr>world := ((fst (world s))(fd := e), snd (world s))\<rparr>) in
        case (op, ev) of
         (Ctl_add, Some e) \<Rightarrow> (if fst (world s) fd = None then (0, put (Some e)) else (- 1, s\<lparr>errno := 17\<rparr>))
       | (Ctl_mod, Some e) \<Rightarrow> (if fst (world s) fd = None then (- 1, s\<lparr>errno := ENOENT\<rparr>) else (0, put (Some e)))
       | _ \<Rightarrow> (if fst (world s) fd = None then (- 1, s\<lparr>errno := ENOENT\<rparr>) else (0, put None))),
      sys_epoll_wait := (\<lambda>_ n _ s. case (fst (world s) 5, fst (world s) 6) of
         (Some e, Some e') \<Rightarrow> if n < 2 then ((- 1, []), s\<lparr>errno := EINTR\<rparr>) else ((2, [e, e']), s)
       | _ \<Rightarrow> ((- 1, []), s\<lparr>errno := EINTR\<rparr>))\<rparr>"

definition logged :: "'c \<times> int \<times> uint32 \<Rightarrow> ('d ioloop \<times> ('a \<times> ('c \<times> int \<times> uint32) list) sys)
    \<Rightarrow> 'd ioloop \<times> ('a \<times> ('c \<times> int \<times> uint32) list) sys" where
  "logged c = (\<lambda>(l, s). (l, s\<lparr>world := (fst (world s), snd (world s) @ [c])\<rparr>))"

definition twin_env :: "(nat, (int \<rightharpoonup> epoll_event) \<times> (nat \<times> int \<times> uint32) list) loop_env" where
  "twin_env =
     (let X = \<lparr>kern = twin_calls, user = \<lparr>run_callback = (\<lambda>_ x. (Ok (), x)), run_handler = (\<lambda>_ _ _ x. (Ok (), x))\<rparr>,
               sen = id, srt = sort_key pt_timeout, host_le = True, local_addr = 64, raw8 = replicate 8 0\<rparr>
      in X\<lparr>user := \<lparr>run_callback = (\<lambda>_ x. (Ok (), x)),
                 run_handler = (\<lambda>h fd ev x. if h = 1 then remove_handler X 6 (logged (h, fd, ev) x) else (Ok (), logged (h, fd, ev) x))\<rparr>\<rparr>)"

definition twin_loop :: "nat ioloop" where
  "twin_loop = (log_loop [])\<lparr>loop_epoll := \<lparr>epoll_fd = unique_fd_of 3 (), size_events = 2\<rparr>,
     handlers := [\<lparr>hn_fd = 5, hn_node = 0, hn_value = \<lparr>hc_events = 1, hc_callback = User_handler 1\<rparr>\<rparr>,
                  \<lparr>hn_fd = 6, hn_node = 1, hn_value = \<lparr>hc_events = 4, hc_callback = User_handler 2\<rparr>\<rparr>], next_node := 2\<rparr>"

definition twin_sys :: "((int \<rightharpoonup> epoll_event) \<times> (nat \<times> int \<times> uint32) list) sys" where
  "twin_sys = sys0 ([5 \<mapsto> make_epoll_event_ptr 5 1 (Some 0), 6 \<mapsto> make_epoll_event_ptr 6 8 (Some 1)], [])"

lemma remove_handler_kern: "kern X = kern Y \<Longrightarrow> remove_handler X fd = remove_handler Y fd"
  by (simp only: remove_handler_def)

lemma twin_env_run:
  "run_handler (user twin_env) h fd ev x =
     (if h = 1 then remove_handler twin_env 6 (logged (h, fd, ev) x) else (Ok (), logged (h, fd, ev) x))"
  "run_callback (user twin_env) c x = (Ok (), x)" "kern twin_env = twin_calls" "sen twin_env = id"
proof -
  let ?X = "\<lparr>kern = twin_calls, user = \<lparr>run_callback = (\<lambda>_ x. (Ok (), x)), run_handler = (\<lambda>_ _ _ x. (Ok (), x))\<rparr>,
      sen = id, srt = sort_key pt_timeout, host_le = True, local_addr = 64, raw8 = replicate 8 0\<rparr>
      :: (nat, (int \<rightharpoonup> epoll_event) \<times> (nat \<times> int \<times> uint32) list) loop_env"
  show k: "kern twin_env = twin_calls" and "sen twin_env = id" "run_callback (user twin_env) c x = (Ok (), x)"
    by (simp_all add: twin_env_def Let_def)
  have "remove_handler ?X 6 = remove_handler twin_env 6" by (rule remove_handler_kern) (simp add: k)
  then show "run_handler (user twin_env) h fd ev x =
     (if h = 1 then remove_handler twin_env 6 (logged (h, fd, ev) x) else (Ok (), logged (h, fd, ev) x))"
    by (simp add: twin_env_def [THEN arg_cong, of user] Let_def)
qed

lemma twin_law: "loop_law twin_calls ep fst"
  unfolding loop_law_def epoll_law_def twin_calls_def
  by (auto simp: idle_ev_calls_def Let_def EINTR_def ENOENT_def fun_eq_iff split: if_splits option.splits)

lemma remove_handler_returns:
  "remove_handler X fd x = (r, y) \<Longrightarrow> r \<noteq> Undefined \<and> r \<noteq> Terminated"
  by (cases x) (auto simp: remove_handler_def on_epoll_def epoll_del_nothrow_def cmd_simps split: if_splits prod.splits)

lemma twin_log: "handler_log twin_env snd"
proof -
  have ctl: "wait_log twin_calls snd" by (auto simp: wait_log_def twin_calls_def Let_def split: option.splits epoll_op.splits)
  then have "keeps (\<lambda>x. snd (world (snd x)) = L) (remove_handler twin_env 6)" for L
    by (intro keepsI) (auto simp: remove_handler_def on_epoll_def epoll_del_nothrow_def cmd_simps wait_log_def twin_env_run(3)
        split: if_splits prod.splits res.splits)
  from keepsD [OF this] have "remove_handler twin_env 6 x = (r, y) \<Longrightarrow> snd (world (snd y)) = snd (world (snd x))" for x r y
    by blast
  then have "run_handler (user twin_env) h fd ev x = (r, y) \<Longrightarrow> snd (world (snd y)) = snd (world (snd x)) @ [(h, fd, ev)]" for h fd ev x r y
    by (cases x) (auto simp: twin_env_run logged_def split: if_splits)
  moreover have "blind twin_calls (\<lambda>x :: (nat, _) loop_state. snd (world (snd x)) = L)" for L
    by (auto simp: blind_def twin_calls_def idle_ev_calls_def)
  ultimately show ?thesis using ctl unfolding handler_log_def by (simp add: twin_env_run)
qed

lemma twin_kind: "kind_env twin_env (fewer fst)"
proof -
  have log: "api_step twin_env (fewer fst) x (logged c x)" for x c
    by (cases x) (auto simp: logged_def fewer_def intro: outside)
  have "run_handler (user twin_env) h fd ev x = (r, y) \<Longrightarrow>
      r \<noteq> Undefined \<and> r \<noteq> Terminated \<and> (api_step twin_env (fewer fst))\<^sup>*\<^sup>* x y" for h fd ev x r y
    using log [of x "(h, fd, ev)"] remove_handler_returns [of twin_env 6 "logged (h, fd, ev) x" r y]
      call_remove_handler [of twin_env 6 "logged (h, fd, ev) x" r y]
    by (auto simp: twin_env_run split: if_splits intro: converse_rtranclp_into_rtranclp r_into_rtranclp)
  then have "api_code twin_env (fewer fst)" by (simp add: api_code_def twin_env_run)
  moreover have "sen twin_env False = False" "sort_law twin_env" by (simp_all add: twin_env_def Let_def sort_law_def)
  ultimately show ?thesis by (simp add: kind_env_def)
qed

lemma twin_settled: "settled fst 3 (twin_loop, twin_sys)"
  by (simp add: settled_def loop_wf_def points_to_def calm_def calm_timeouts_def calm_periodic_def twin_loop_def
      twin_sys_def log_loop_def empty_loop_def make_epoll_event_ptr_def unique_fd_defs int_descriptor_defs)

lemma twin_wait:
  "sys_epoll_wait twin_calls 3 (unat (size_events (loop_epoll twin_loop))) (- 1) twin_sys
     = ((2, [make_epoll_event_ptr 5 1 (Some 0), make_epoll_event_ptr 6 8 (Some 1)]), twin_sys)"
  by (simp add: twin_calls_def twin_loop_def twin_sys_def)

subsection \<open>Properties\<close>

text \<open>
  C12. A round of \<^verbatim>\<open>start\<close> dispatches what \<^verbatim>\<open>epoll_wait\<close> reports: each event has a handler, the one of
  the descriptor it was reported for, and the handlers are called once for each event, in the order of the report,
  with their descriptor and the events they were added with. A round that throws has called the first \<open>k\<close> of them. The handlers
  are those of the begin of the round: one that is removed by an earlier handler of the same round is called all the same.
\<close>

theorem round_calls_handlers:
  assumes law: "loop_law (kern X) ep reg" and env: "kind_env X (fewer reg)" "handler_log X lg" and st: "settled reg ep (l, s)"
    and wait: "sys_epoll_wait (kern X) ep (unat (size_events (loop_epoll l))) (- 1) s = ((q, out), s1)" "q \<noteq> - 1"
    and run: "start_iteration X (l, s) = (r, (l', s'))"
  shows "\<exists>hs k. list_all2 (event_of reg (l, s)) out hs \<and> k \<le> length hs \<and> (r = Ok () \<longrightarrow> k = length hs) \<and>
     lg (world s') = lg (world s) @ concat (map user_calls (take k hs))"
proof -
  have wf: "loop_wf reg ep (l, s)" and ep: "ufd_get (epoll_fd (loop_epoll l)) = ep" using st by (simp_all add: settled_def loop_wf_def)
  let ?l = "l\<lparr>epoll_events := out\<rparr>"
  from wait_reports [of X l reg s q out s1] law wait ep have
    w: "on_events (epoll_wait_nothrow (kern X) (loop_epoll l)) (l, s) = (Ok (syscall_return_value q), (?l, s1))"
    and reg: "reg (world s1) = reg (world s)" and out: "\<forall>e\<in>set out. \<exists>fd ev. reg (world s) fd = Some ev \<and> ev_data e = ev_data ev"
    by simp_all
  obtain hs where hs: "list_all2 (event_of reg (l, s)) out hs" using events_have_handlers [OF wf out] ..
  obtain rb l2 s2 where b: "dispatch_batch X (?l, s1) = (rb, (l2, s2))" by (metis prod.exhaust)
  have "loop_wf reg ep (?l, s1)" using wf reg by (simp add: loop_wf_def)
  moreover have "list_all2 (\<lambda>e h. h \<in> set (handlers ?l) \<and> ev_data e = Data_ptr (Some (hn_node h))) (epoll_events ?l) hs"
    using hs by (simp, elim list_all2_mono) (simp add: event_of_def)
  ultimately obtain k where k: "k \<le> length hs" "rb = Ok () \<longrightarrow> k = length hs"
    "lg (world s2) = lg (world s1) @ concat (map user_calls (take k hs))"
    using batch_log [OF _ env(2) _ _ b] env(1) unfolding kind_env_def by blast
  have "lg (world s1) = lg (world s)" using handler_logD(4) [OF env(2)] wait(1) unfolding wait_log_def by (metis snd_conv)
  moreover have "lg (world s') = lg (world s2)" "r = Ok () \<longrightarrow> rb = Ok ()"
    using run w b keepsD [OF prune_removed_log [OF handler_logD(4) [OF env(2)]], of "(l2, s2)" r "(l', s')" "lg (world s2)"]
    by (cases rb; simp add: start_iteration_run cmd_simps)+
  ultimately show ?thesis using hs k by auto
qed

theorem round_calls_handlers_witness:
  "\<exists>r l' s'. start_iteration twin_env (twin_loop, twin_sys) = (r, (l', s')) \<and>
     (\<exists>k. snd (world s') = take k [(1, 5, 1), (2, 6, 4)] \<and> (r = Ok () \<longrightarrow> k = 2))"
proof -
  obtain r l' s' where run: "start_iteration twin_env (twin_loop, twin_sys) = (r, (l', s'))" by (metis prod.exhaust)
  from round_calls_handlers [of twin_env 3 fst snd, unfolded twin_env_run(3), OF twin_law twin_kind twin_log twin_settled twin_wait _ run]
  obtain hs k where hs: "list_all2 (event_of fst (twin_loop, twin_sys))
      [make_epoll_event_ptr 5 1 (Some 0), make_epoll_event_ptr 6 8 (Some 1)] hs" "k \<le> length hs" "r = Ok () \<longrightarrow> k = length hs"
    "snd (world s') = concat (map user_calls (take k hs))" by (auto simp: twin_sys_def)
  from hs(1) have "hs = handlers twin_loop"
    by (auto simp: list_all2_Cons1 event_of_def make_epoll_event_ptr_def twin_loop_def)
  with hs have "snd (world s') = take k [(1, 5, 1), (2, 6, 4)]" "r = Ok () \<longrightarrow> k = 2"
    by (auto simp: twin_loop_def user_calls_def le_Suc_eq numeral_2_eq_2)
  with run show ?thesis by blast
qed



text \<open>The example in full: handler 1 removes handler 2, which is called after that, and then freed.\<close>

theorem removed_handler_called:
  "\<exists>l' s'. start_iteration twin_env (twin_loop, twin_sys) = (Ok (), (l', s')) \<and>
     snd (world s') = [(1, 5, 1), (2, 6, 4)] \<and> map hn_fd (handlers l') = [5] \<and> fst (world s') 6 = None"
proof -
  have ep: "ufd_get (epoll_fd (loop_epoll twin_loop)) = 3" by (simp add: twin_loop_def unique_fd_defs int_descriptor_defs)
  let ?out = "[make_epoll_event_ptr 5 1 (Some 0), make_epoll_event_ptr 6 8 (Some 1)]"
  let ?l = "twin_loop\<lparr>epoll_events := ?out\<rparr>" and ?s = "snd (logged (2, 6, 4) (logged (1, 5, 1) (twin_loop, twin_sys)))"
  have "on_events (epoll_wait_nothrow (kern twin_env) (loop_epoll twin_loop)) (twin_loop, twin_sys) =
      (Ok (syscall_return_value 2), (?l, twin_sys))"
    by (rule wait_reports [where reg = fst]) (simp_all add: twin_env_run(3) ep twin_law twin_wait)
  then have "start_iteration twin_env (twin_loop, twin_sys) = then_c (dispatch_batch twin_env) (prune_removed twin_env) (?l, twin_sys)"
    by (simp add: start_iteration_run)
  moreover have "dispatch_batch twin_env (?l, twin_sys) = (Ok (), (?l\<lparr>removed_handlers := [6]\<rparr>, ?s))"
    by (simp add: dispatch_batch_def with_sentry_def dispatch_event_def run_handler_fn_def twin_env_run cmd_simps
        make_epoll_event_ptr_def twin_loop_def log_loop_def empty_loop_def logged_def remove_handler_def)
  moreover have "\<exists>l' s'. prune_removed twin_env (?l\<lparr>removed_handlers := [6]\<rparr>, ?s) = (Ok (), (l', s')) \<and>
     snd (world s') = [(1, 5, 1), (2, 6, 4)] \<and> map hn_fd (handlers l') = [5] \<and> fst (world s') 6 = None"
    by (simp add: prune_removed_def prune_handler_def on_epoll_def epoll_del_nothrow_def twin_env_run cmd_simps
        twin_calls_def logged_def twin_sys_def twin_loop_def erase_handler_def syscall_return_defs)
  ultimately show ?thesis by (simp add: cmd_simps)
qed

end
