(* ===== verification/Ioloop_Fires.thy ===== *)
theory Ioloop_Fires
  imports Round_Calls
begin

text \<open>
  The loop, epoll, the timer and the vector of timeouts together: a round of \<^verbatim>\<open>start\<close> in which
  \<^verbatim>\<open>epoll_wait\<close> reports the timer of the timeouts calls the timeouts that have expired.
\<close>

subsection \<open>The clock\<close>

text \<open>The monotonic clock \<open>clk\<close>: a reading is not before it, and reading a descriptor does not set it back.\<close>

definition clock_law :: "('w, 'x) ev_calls_scheme \<Rightarrow> ('w \<Rightarrow> int) \<Rightarrow> bool" where
  "clock_law K clk \<longleftrightarrow> (\<forall>s now s'. sys_steady_now K s = (now, s') \<longrightarrow> clk (world s) \<le> now \<and> now \<le> clk (world s')) \<and>
     (\<forall>fd n s. clk (world s) \<le> clk (world (snd (sys_read K fd n s))))"

lemma clock_lawD: "clock_law K clk \<Longrightarrow> sys_steady_now K s = (now, s') \<Longrightarrow> clk (world s) \<le> now"
  unfolding clock_law_def by blast

lemma clock_law_read:
  assumes "clock_law K clk" "timerfd_read K le j t s = (r, s')"
  shows "clk (world s) \<le> clk (world s')"
proof -
  have "clk (world s) \<le> clk (world (snd (sys_read K (timerfd_fd t) 8 s)))"
    using assms(1) unfolding clock_law_def by blast
  with assms(2) show ?thesis
    by (auto simp: timerfd_read_def read_file_def cmd_simps split: prod.splits if_splits res.splits)
qed

lemma calls_of_first:
  "calls_of ts now 0 l js r l' \<Longrightarrow> ts \<noteq> [] \<Longrightarrow> \<not> marked ts 0 l \<Longrightarrow> to_timeout (ts ! 0) \<le> now \<Longrightarrow> 0 \<in> set js"
  unfolding calls_of_def by blast

subsection \<open>An environment for examples\<close>

text \<open>
  The world is the interest list, the log and the clock, which moves with every reading and whenever a callback runs; the timer, descriptor 5,
  is always ready.
\<close>

type_synonym fire_world = "(int \<rightharpoonup> epoll_event) \<times> nat list \<times> int"

abbreviation fire_log :: "fire_world \<Rightarrow> nat list" where
  "fire_log w \<equiv> fst (snd w)"

abbreviation fire_clock :: "fire_world \<Rightarrow> int" where
  "fire_clock w \<equiv> snd (snd w)"

definition fire_calls :: "fire_world ev_calls" where
  "fire_calls = idle_ev_calls
        \<lparr>sys_read := (\<lambda>_ _ s. ((8, replicate 8 0), s)),
         sys_steady_now := (\<lambda>s. (fire_clock (world s) + 1, s\<lparr>world := (fst (world s), fire_log (world s), fire_clock (world s) + 1)\<rparr>)),
         sys_timerfd_settime := (\<lambda>_ _ spec s. ((0, spec), s)),
         sys_epoll_ctl := (\<lambda>_ op fd ev s. let put = (\<lambda>e. s\<lparr>world := ((fst (world s))(fd := e), snd (world s))\<rparr>) in
           case (op, ev) of
             (Ctl_add, Some e) \<Rightarrow> (if fst (world s) fd = None then (0, put (Some e)) else (- 1, s\<lparr>errno := 17\<rparr>))
           | (Ctl_mod, Some e) \<Rightarrow> (if fst (world s) fd = None then (- 1, s\<lparr>errno := ENOENT\<rparr>) else (0, put (Some e)))
           | _ \<Rightarrow> (if fst (world s) fd = None then (- 1, s\<lparr>errno := ENOENT\<rparr>) else (0, put None))),
         sys_epoll_wait := (\<lambda>_ n _ s. case fst (world s) 5 of
             Some e \<Rightarrow> if n = 0 then ((- 1, []), s\<lparr>errno := EINTR\<rparr>) else ((1, [e]), s)
           | None \<Rightarrow> ((- 1, []), s\<lparr>errno := EINTR\<rparr>))\<rparr>"

definition fire_env :: "(nat, fire_world) loop_env" where
  "fire_env =
     \<lparr>kern = fire_calls,
      user = \<lparr>run_callback = (\<lambda>c (l, s). (Ok (), (l, s\<lparr>world := (fst (world s), fire_log (world s) @ [c], fire_clock (world s) + 2)\<rparr>))),
              run_handler = (\<lambda>_ _ _ x. (Ok (), x))\<rparr>,
      sen = id, srt = sort_key pt_timeout, host_le = True, local_addr = 64, raw8 = replicate 8 0\<rparr>"

definition fire_loop :: "nat ioloop" where
  "fire_loop = (log_loop [timeout_callback_ctor 0 20 7, timeout_callback_ctor 1 30 8, timeout_callback_ctor 2 90 9])
     \<lparr>loop_epoll := \<lparr>epoll_fd = unique_fd_of 3 (), size_events = 1\<rparr>,
      handlers := [\<lparr>hn_fd = 5, hn_node = 0, hn_value = \<lparr>hc_events = 1, hc_callback = Process_timeouts\<rparr>\<rparr>], next_node := 1\<rparr>"

definition fire_sys :: "fire_world sys" where
  "fire_sys = sys0 ([5 \<mapsto> make_epoll_event_ptr 5 1 (Some 0)], [], 50)"

lemma fire_env_laws:
  "kind_env fire_env (fewer fst)" "call_log fire_env fire_log" "loop_law (kern fire_env) ep fst" "clock_law (kern fire_env) fire_clock"
proof -
  have "api_code fire_env (fewer fst)"
    by (auto simp: api_code_def fire_env_def fewer_def intro!: r_into_rtranclp outside)
  then show "kind_env fire_env (fewer fst)" by (simp add: kind_env_def fire_env_def sort_law_def)
  show "call_log fire_env fire_log" by (auto simp: call_log_def fire_env_def fire_calls_def)
  show "clock_law (kern fire_env) fire_clock" by (simp add: clock_law_def fire_env_def fire_calls_def)
  show "loop_law (kern fire_env) ep fst"
    unfolding loop_law_def epoll_law_def fire_env_def fire_calls_def
    by (auto simp: idle_ev_calls_def Let_def EINTR_def ENOENT_def fun_eq_iff split: if_splits option.splits)
qed

lemma fire_env_calls:
  "sys_epoll_wait (kern fire_env) ep (Suc n) t s =
     (case fst (world s) 5 of Some e \<Rightarrow> ((1, [e]), s) | None \<Rightarrow> ((- 1, []), s\<lparr>errno := EINTR\<rparr>))"
  "sys_steady_now (kern fire_env) s =
     (fire_clock (world s) + 1, s\<lparr>world := (fst (world s), fire_log (world s), fire_clock (world s) + 1)\<rparr>)"
  "sen fire_env = id"
  "run_callback (user fire_env) c (l, s) =
     (Ok (), (l, s\<lparr>world := (fst (world s), fire_log (world s) @ [c], fire_clock (world s) + 2)\<rparr>))"
  "timerfd_read (kern fire_env) (host_le fire_env) (raw8 fire_env) tf s = (Ok 0, s)"
  by (simp_all add: fire_env_def fire_calls_def timerfd_read_def read_file_def cmd_simps load64_def std_copy_def eval_nat_numeral
      split: option.splits)

lemma fire_settled: "settled fst 3 (fire_loop, fire_sys)"
  by (simp add: settled_def loop_wf_def points_to_def calm_def calm_timeouts_def calm_periodic_def fire_loop_def fire_sys_def
      log_loop_def empty_loop_def make_epoll_event_ptr_def unique_fd_defs int_descriptor_defs timeout_callback_ctor_def)

lemma fire_round: "\<exists>l' s'. start_iteration fire_env (fire_loop, fire_sys) = (Ok (), (l', s')) \<and> fire_log (world s') = [7, 8]"
  by (simp add: start_iteration_def on_events_def epoll_wait_nothrow_def cmd_simps fire_loop_def fire_sys_def
      log_loop_def empty_loop_def with_sentry_def fire_env_calls std_copy_def make_epoll_event_ptr_def
      dispatch_event_def run_handler_fn_def process_timeouts_split expire_timeouts_def finish_timeouts_run Let_def
      finished_timeouts_def timeout_callback_ctor_def eval_nat_numeral)

subsection \<open>Properties\<close>

text \<open>
  C19. Expired timeouts are called: in every round of \<^verbatim>\<open>start\<close> that returns and in which \<^verbatim>\<open>epoll_wait\<close>
  reports the timer of the timeouts, among other events or alone, the events before it are dispatched, then the timeouts are
  processed, then the events after it are dispatched. The timeouts that are processed are those the loop holds at that
  point (\<open>l1\<close>): every one that has expired by the clock is called, once and in order of time, unless a callback called
  before it in this run removed it, and the first one, if it was not removed before, is called in any case. No
  timeout is called before its time.
\<close>

theorem timeout_fires:
  assumes law: "loop_law (kern X) ep reg" "clock_law (kern X) clk" and env: "kind_env X (fewer reg)" "call_log X lg"
    and st: "settled reg ep (l, s)" and h: "h \<in> set (handlers l)" "hc_callback (hn_value h) = Process_timeouts"
    and wait: "sys_epoll_wait (kern X) ep (unat (size_events (loop_epoll l))) (- 1) s = ((q, out), s1)" "q \<noteq> - 1"
      "out = es1 @ e # es2" "ev_data e = Data_ptr (Some (hn_node h))"
    and run: "start_iteration X (l, s) = (Ok (), (l', s'))"
  shows "\<exists>l1 s2 x2 x3 now lm sm sm' js.
     for_each (dispatch_event X) es1 (l\<lparr>epoll_events := out, processing_handlers := True\<rparr>, s1) = (Ok (), (l1, s2)) \<and>
     process_timeouts X (l1, s2) = (Ok (), x2) \<and> for_each (dispatch_event X) es2 x2 = (Ok (), x3) \<and>
     clk (world s2) \<le> now \<and>
     for_each (run_callback (user X)) (map (\<lambda>m. to_callback (timeouts l1 ! m)) js)
       (l1\<lparr>processing_timeouts := True\<rparr>, sm) = (Ok (), (lm, sm')) \<and>
     lg (world (snd x2)) = lg (world s2) @ map (\<lambda>m. to_callback (timeouts l1 ! m)) js \<and> sorted_wrt (<) js \<and>
     (\<forall>m\<in>set js. m < length (timeouts l1) \<and> to_timeout (timeouts l1 ! m) \<le> now) \<and>
     (\<forall>m<length (timeouts l1). to_timeout (timeouts l1 ! m) \<le> clk (world s2) \<longrightarrow> m \<in> set js \<or> to_remove (timeouts lm ! m)) \<and>
     (timeouts l1 \<noteq> [] \<and> \<not> to_remove (hd (timeouts l1)) \<and> to_timeout (hd (timeouts l1)) \<le> clk (world s2) \<longrightarrow> 0 \<in> set js)"
  using law(1) env(1) st wait(1-3) h(1) wait(4) run
proof (cases rule: round_splits)
  case (1 x1 x2 l3 s3)
  obtain l1 s2 where x1: "x1 = (l1, s2)" by (cases x1)
  have api: "api_code X (fewer reg)" and sen: "sen X False = False" using env(1) by (simp_all add: kind_env_def)
  have np: "\<not> processing_timeouts l1" and so: "sorted (map to_timeout (timeouts l1))"
    using 1(2) x1 by (simp_all add: calm_def calm_timeouts_def)
  obtain l2 s4 where x2: "x2 = (l2, s4)" by (cases x2)
  have pt: "process_timeouts X (l1, s2) = (Ok (), (l2, s4))" using 1(3) h(2) x1 x2 by (simp add: run_handler_fn_def)
  from api env(2) sen np pt show ?thesis
  proof (cases rule: process_timeouts_log)
    case p: (1 v t1 now t2 lm tm js n)
    have now: "clk (world s2) \<le> now"
      using clock_law_read [OF law(2) p(1)] clock_lawD [OF law(2) p(2)] by simp
    note c = calls_of_Ok [OF p(5)]
    have "\<forall>m<length (timeouts l1). to_timeout (timeouts l1 ! m) \<le> clk (world s2) \<longrightarrow> m \<in> set js \<or> to_remove (timeouts lm ! m)"
      using calls_of_complete [OF p(5) so] now by (meson order_trans)
    moreover have "\<forall>m\<in>set js. m < length (timeouts l1) \<and> to_timeout (timeouts l1 ! m) \<le> now"
      using c(2,3) by fastforce
    moreover have "timeouts l1 \<noteq> [] \<and> \<not> to_remove (hd (timeouts l1)) \<and> to_timeout (hd (timeouts l1)) \<le> clk (world s2) \<longrightarrow> 0 \<in> set js"
      using calls_of_first [OF p(5)] now by (auto simp: hd_conv_nth marked_start)
    ultimately show ?thesis using 1(1,4) x1 x2 pt now p(3,6) c(1) by (metis snd_conv)
  qed
qed

theorem timeout_fires_witness:
  "\<exists>l' s'. start_iteration fire_env (fire_loop, fire_sys) = (Ok (), (l', s')) \<and>
     (\<exists>x2 js. process_timeouts fire_env (fire_loop\<lparr>epoll_events := [make_epoll_event_ptr 5 1 (Some 0)], processing_handlers := True\<rparr>,
          fire_sys) = (Ok (), x2) \<and>
        fire_log (world (snd x2)) = map (\<lambda>m. to_callback (timeouts fire_loop ! m)) js \<and> sorted_wrt (<) js \<and> 0 \<in> set js)"
proof -
  let ?h = "\<lparr>hn_fd = 5, hn_node = 0, hn_value = \<lparr>hc_events = 1, hc_callback = Process_timeouts\<rparr>\<rparr> :: nat handler_node"
  let ?e = "make_epoll_event_ptr 5 1 (Some 0)"
  from fire_round obtain l' s' where run: "start_iteration fire_env (fire_loop, fire_sys) = (Ok (), (l', s'))"
    by blast
  have h: "?h \<in> set (handlers fire_loop)" "hc_callback (hn_value ?h) = Process_timeouts" by (simp_all add: fire_loop_def)
  have wait: "sys_epoll_wait (kern fire_env) 3 (unat (size_events (loop_epoll fire_loop))) (- 1) fire_sys = ((1, [?e]), fire_sys)"
    "(1 :: int) \<noteq> - 1" "[?e] = [] @ ?e # []" "ev_data ?e = Data_ptr (Some (hn_node ?h))"
    by (simp_all add: fire_env_calls fire_sys_def fire_loop_def make_epoll_event_ptr_def)
  from timeout_fires [OF fire_env_laws(3,4,1,2) fire_settled h wait run]
  obtain l1 s2 x2 js where x: "for_each (dispatch_event fire_env) [] (fire_loop\<lparr>epoll_events := [?e], processing_handlers := True\<rparr>, fire_sys)
      = (Ok (), (l1, s2))" and pt: "process_timeouts fire_env (l1, s2) = (Ok (), x2)"
    and js: "fire_log (world (snd x2)) = fire_log (world s2) @ map (\<lambda>m. to_callback (timeouts l1 ! m)) js" "sorted_wrt (<) js"
      "timeouts l1 \<noteq> [] \<and> \<not> to_remove (hd (timeouts l1)) \<and> to_timeout (hd (timeouts l1)) \<le> fire_clock (world s2) \<longrightarrow> 0 \<in> set js"
    by (elim exE conjE) (rule that)
  from x have l1: "l1 = fire_loop\<lparr>epoll_events := [?e], processing_handlers := True\<rparr>" "s2 = fire_sys" by (simp_all add: cmd_simps)
  have "timeouts l1 \<noteq> []" "\<not> to_remove (hd (timeouts l1))" "to_timeout (hd (timeouts l1)) \<le> fire_clock (world s2)"
    "fire_log (world s2) = []" "timeouts l1 = timeouts fire_loop"
    by (simp_all add: l1 fire_loop_def fire_sys_def timeout_callback_ctor_def)
  with js pt run l1 show ?thesis by (intro exI [of _ l'] exI [of _ s'] exI [of _ x2] exI [of _ js] conjI) simp_all
qed

end
