(* ===== verification/Callback_Queue.thy ===== *)
theory Callback_Queue
  imports Timeout_Calls Ioloop_Dispatch
begin

text \<open>
  \<^verbatim>\<open>ioloop::add_callback\<close> may be called from any thread. \<open>cb_step\<close> is the
  interleaving of its two effects, the push under the mutex and the write to the event descriptor that ends with the
  release of the mutex, with the effects of \<^verbatim>\<open>process_callbacks\<close> on the loop's thread: the read of the
  counter, the move of the queue under the mutex, and the calls. A callback that throws ends
  \<^verbatim>\<open>process_callbacks\<close>, and the callbacks behind it in the local vector are destroyed with it. Invariants give
  the order of calls, which callbacks are lost this way, and that no wakeup is lost; the sequential definitions of the methods
  refine the steps.
\<close>

subsection \<open>The threads\<close>

text \<open>
  Who holds the mutex, and where the loop's thread is: waiting for an event, between the read of the
  event counter and the lock, or running the callbacks it took. The last two fields record the history: what was added,
  and what became of the callbacks that the loop took and is done with.
\<close>

datatype fate = Called | Threw | Dropped

datatype 'c loop_pc = Waiting | Counter_read | Running "'c list"

record 'c cb_state =
  cb_queue :: "'c list"
  cb_counter :: nat
  cb_holder :: "nat option"
  cb_loop :: "'c loop_pc"
  cb_added :: "'c list"
  cb_past :: "('c \<times> fate) list"

definition with_fate :: "fate \<Rightarrow> 'c list \<Rightarrow> ('c \<times> fate) list" where
  "with_fate f cs = map (\<lambda>c. (c, f)) cs"

definition counter_max :: nat where
  "counter_max = 18446744073709551614"

inductive cb_step :: "'c cb_state \<Rightarrow> 'c cb_state \<Rightarrow> bool" where
  push: "cb_holder q = None \<Longrightarrow>
     cb_step q (q\<lparr>cb_queue := cb_queue q @ [c], cb_holder := Some p, cb_added := cb_added q @ [c]\<rparr>)"
| signal: "cb_holder q = Some p \<Longrightarrow>
     cb_step q (q\<lparr>cb_counter := (if cb_counter q < counter_max then cb_counter q + 1 else cb_counter q),
       cb_holder := None\<rparr>)"
| read_counter: "cb_loop q = Waiting \<Longrightarrow> 0 < cb_counter q \<Longrightarrow>
     cb_step q (q\<lparr>cb_counter := 0, cb_loop := Counter_read\<rparr>)"
| take_all: "cb_loop q = Counter_read \<Longrightarrow> cb_holder q = None \<Longrightarrow>
     cb_step q (q\<lparr>cb_queue := [], cb_loop := Running (cb_queue q)\<rparr>)"
| run_one: "cb_loop q = Running (c # cs) \<Longrightarrow>
     cb_step q (q\<lparr>cb_loop := Running cs, cb_past := cb_past q @ [(c, Called)]\<rparr>)"
| run_throws: "cb_loop q = Running (c # cs) \<Longrightarrow>
     cb_step q (q\<lparr>cb_loop := Waiting, cb_past := cb_past q @ (c, Threw) # with_fate Dropped cs\<rparr>)"
| finish: "cb_loop q = Running [] \<Longrightarrow> cb_step q (q\<lparr>cb_loop := Waiting\<rparr>)"

definition cb_init :: "'c cb_state" where
  "cb_init = \<lparr>cb_queue = [], cb_counter = 0, cb_holder = None, cb_loop = Waiting, cb_added = [], cb_past = []\<rparr>"

definition in_flight :: "'c loop_pc \<Rightarrow> 'c list" where
  "in_flight pc = (case pc of Running cs \<Rightarrow> cs | _ \<Rightarrow> [])"

text \<open>
  The order of the callbacks; that a callback is dropped only behind one that threw; and that a waiting callback always has
  someone who will look for it.
\<close>

definition cb_fifo :: "'c cb_state \<Rightarrow> bool" where
  "cb_fifo q \<longleftrightarrow> cb_added q = map fst (cb_past q) @ in_flight (cb_loop q) @ cb_queue q"

definition drops_behind :: "('c \<times> fate) list \<Rightarrow> bool" where
  "drops_behind past \<longleftrightarrow> (\<forall>i<length past. snd (past ! i) = Dropped \<longrightarrow> 0 < i \<and> snd (past ! (i - 1)) \<noteq> Called)"

definition cb_awake :: "'c cb_state \<Rightarrow> bool" where
  "cb_awake q \<longleftrightarrow> cb_queue q = [] \<or> 0 < cb_counter q \<or> cb_holder q \<noteq> None \<or> cb_loop q = Counter_read"

lemma with_fate_simps [simp]:
  "with_fate f [] = []" "with_fate f (c # cs) = (c, f) # with_fate f cs" "length (with_fate f cs) = length cs"
  "map fst (with_fate f cs) = cs" "snd ` set (with_fate f cs) \<subseteq> {f}"
  by (auto simp: with_fate_def comp_def)

lemma drops_behind_snoc: "drops_behind past \<Longrightarrow> f = Dropped \<Longrightarrow> past \<noteq> [] \<Longrightarrow> snd (last past) \<noteq> Called \<Longrightarrow> drops_behind (past @ [(c, f)])"
  "drops_behind past \<Longrightarrow> f \<noteq> Dropped \<Longrightarrow> drops_behind (past @ [(c, f)])"
  by (auto simp: drops_behind_def nth_append last_conv_nth less_Suc_eq)

lemma drops_behind_dropped:
  "drops_behind past \<Longrightarrow> past \<noteq> [] \<Longrightarrow> snd (last past) \<noteq> Called \<Longrightarrow> drops_behind (past @ with_fate Dropped cs)"
proof (induction cs arbitrary: past)
  case (Cons c cs)
  from Cons.IH [OF drops_behind_snoc(1) [OF Cons.prems(1) refl Cons.prems(2,3), of c]] show ?case by simp
qed simp

lemma drops_behind_throw:
  assumes "drops_behind past"
  shows "drops_behind (past @ (c, Threw) # with_fate Dropped cs)"
  using drops_behind_dropped [OF drops_behind_snoc(2) [OF assms, of Threw c], of cs] by simp

lemma drops_behind_called:
  assumes "drops_behind past" "Threw \<notin> snd ` set past" "p \<in> set past"
  shows "snd p = Called"
proof -
  have no: "snd (past ! i) \<noteq> Threw" if "i < length past" for i using that assms(2) by (metis image_eqI nth_mem)
  have "snd (past ! i) = Called" if "i < length past" for i
    using that
  proof (induction i)
    case 0
    with assms(1) no [of 0] show ?case by (cases "snd (past ! 0)") (auto simp: drops_behind_def)
  next
    case (Suc i)
    with assms(1) no [of "Suc i"] show ?case by (cases "snd (past ! Suc i)") (auto simp: drops_behind_def)
  qed
  with assms(3) show ?thesis by (auto simp: in_set_conv_nth)
qed

interpretation fifo: step_invariant cb_step cb_fifo
proof
  fix x y :: "'c cb_state" assume "cb_step x y" "cb_fifo x"
  then show "cb_fifo y" by cases (auto simp: cb_fifo_def in_flight_def)
qed

interpretation drops: step_invariant cb_step "\<lambda>q. drops_behind (cb_past q)"
proof
  fix x y :: "'c cb_state" assume "cb_step x y" "drops_behind (cb_past x)"
  then show "drops_behind (cb_past y)" by cases (auto intro: drops_behind_snoc(2) drops_behind_throw)
qed

interpretation awake: step_invariant cb_step cb_awake
proof
  fix x y :: "'c cb_state" assume "cb_step x y" "cb_awake x"
  then show "cb_awake y" by cases (auto simp: cb_awake_def counter_max_def)
qed

lemma cb_init_invariants: "cb_fifo cb_init" "cb_awake cb_init" "drops_behind (cb_past cb_init)"
  by (simp_all add: cb_init_def cb_fifo_def cb_awake_def in_flight_def drops_behind_def)

subsection \<open>Draining\<close>

text \<open>A run in which no callback throws calls what was taken and what waits.\<close>

definition pending :: "'c cb_state \<Rightarrow> 'c list" where
  "pending q = in_flight (cb_loop q) @ cb_queue q"

definition drains :: "'c cb_state \<Rightarrow> 'c cb_state \<Rightarrow> bool" where
  "drains q q' \<longleftrightarrow> cb_step\<^sup>*\<^sup>* q q' \<and> cb_added q' = cb_added q \<and>
     cb_past q' @ with_fate Called (pending q') = cb_past q @ with_fate Called (pending q)"

lemma drains_trans: "drains p q \<Longrightarrow> drains q r \<Longrightarrow> drains p r"
  by (auto simp: drains_def)

lemma with_fate_append: "with_fate f (xs @ ys) = with_fate f xs @ with_fate f ys"
  by (simp add: with_fate_def)

lemma run_all: "cb_loop q = Running cs \<Longrightarrow>
   cb_step\<^sup>*\<^sup>* q (q\<lparr>cb_loop := Waiting, cb_past := cb_past q @ with_fate Called cs\<rparr>)"
proof (induction cs arbitrary: q)
  case Nil
  then show ?case using finish [of q] by (auto intro: r_into_rtranclp)
next
  case (Cons c cs)
  from Cons.IH [of "q\<lparr>cb_loop := Running cs, cb_past := cb_past q @ [(c, Called)]\<rparr>"] run_one [OF Cons.prems]
  show ?case by (auto intro: converse_rtranclp_into_rtranclp)
qed

lemma drain_running:
  assumes "cb_loop q = Running cs"
  shows "drains q (q\<lparr>cb_loop := Waiting, cb_past := cb_past q @ with_fate Called cs\<rparr>)"
  using run_all [OF assms] assms by (simp add: drains_def pending_def in_flight_def with_fate_append)

lemma drain_read:
  assumes "cb_loop q = Counter_read" "cb_holder q = None"
  shows "drains q (q\<lparr>cb_queue := [], cb_loop := Waiting, cb_past := cb_past q @ with_fate Called (cb_queue q)\<rparr>)"
proof -
  let ?q = "q\<lparr>cb_queue := [], cb_loop := Running (cb_queue q)\<rparr>"
  have "drains q ?q" using take_all [OF assms] assms by (auto simp: drains_def pending_def in_flight_def)
  from drains_trans [OF this drain_running] show ?thesis by simp
qed

lemma release: "\<exists>q'. drains q q' \<and> cb_holder q' = None"
proof (cases "cb_holder q")
  case None
  then show ?thesis by (intro exI [of _ q]) (simp add: drains_def)
next
  case (Some p)
  let ?q = "q\<lparr>cb_counter := (if cb_counter q < counter_max then cb_counter q + 1 else cb_counter q), cb_holder := None\<rparr>"
  from signal [OF Some] have "drains q ?q" by (simp add: drains_def pending_def r_into_rtranclp)
  then show ?thesis by (intro exI [of _ ?q]) simp
qed

lemma to_waiting:
  assumes "cb_holder q = None"
  shows "\<exists>q'. drains q q' \<and> cb_holder q' = None \<and> cb_loop q' = Waiting"
proof (cases "cb_loop q")
  case Waiting
  with assms show ?thesis by (intro exI [of _ q]) (simp add: drains_def)
next
  case Counter_read
  from drain_read [OF this assms] assms show ?thesis by (intro exI conjI) (assumption | simp)+
next
  case (Running cs)
  from drain_running [OF this] assms show ?thesis by (intro exI conjI) (assumption | simp)+
qed

lemma drain_waiting:
  assumes "cb_holder q = None" "cb_loop q = Waiting" "cb_awake q"
  shows "\<exists>q'. drains q q' \<and> pending q' = []"
proof (cases "cb_queue q = []")
  case True
  with assms show ?thesis by (intro exI [of _ q]) (simp add: drains_def pending_def in_flight_def)
next
  case False
  with assms have "0 < cb_counter q" by (simp add: cb_awake_def)
  let ?q = "q\<lparr>cb_counter := 0, cb_loop := Counter_read\<rparr>"
  have "drains q ?q" using read_counter [of q] assms \<open>0 < cb_counter q\<close> by (auto simp: drains_def pending_def in_flight_def)
  from drains_trans [OF this drain_read] assms(1) show ?thesis
    by (intro exI conjI) (assumption | simp add: pending_def in_flight_def)+
qed

lemma drain_all:
  assumes "cb_awake q"
  shows "\<exists>q'. drains q q' \<and> pending q' = []"
proof -
  obtain q1 where q1: "drains q q1" "cb_holder q1 = None" using release by blast
  obtain q2 where q2: "drains q1 q2" "cb_holder q2 = None" "cb_loop q2 = Waiting" using to_waiting [OF q1(2)] by blast
  have "cb_awake q2" using assms q1(1) q2(1) awake.kept_star unfolding drains_def by blast
  from drain_waiting [OF q2(2,3) this] drains_trans [OF drains_trans [OF q1(1) q2(1)]] show ?thesis by blast
qed

subsection \<open>The methods and the steps\<close>

text \<open>
  The documented behaviour of an event descriptor with counter \<open>cnt\<close>: writing the eight bytes of 1 adds 1,
  or fails with \<^verbatim>\<open>EAGAIN\<close> when the counter is at its maximum; a read resets a counter that is not zero.
\<close>

definition counter_law :: "('w, 'x) ev_calls_scheme \<Rightarrow> bool \<Rightarrow> int \<Rightarrow> ('w \<Rightarrow> nat) \<Rightarrow> bool" where
  "counter_law K le fd cnt \<longleftrightarrow>
     (\<forall>stk s r s'. mem_read (mem s) stk 8 = store64 le 1 \<longrightarrow> sys_write K fd stk 8 s = (r, s') \<longrightarrow>
        (if cnt (world s) < counter_max then r = 8 \<and> cnt (world s') = cnt (world s) + 1
         else r = - 1 \<and> errno s' = EAGAIN \<and> cnt (world s') = cnt (world s))) \<and>
     (\<forall>s r out s'. 0 < cnt (world s) \<longrightarrow> sys_read K fd 8 s = ((r, out), s') \<longrightarrow>
        r = 8 \<and> length out = 8 \<and> cnt (world s') = 0)"

lemma counter_lawD:
  assumes "counter_law K le fd cnt"
  shows "mem_read (mem s) stk 8 = store64 le 1 \<Longrightarrow> sys_write K fd stk 8 s = (r, s') \<Longrightarrow>
        if cnt (world s) < counter_max then r = 8 \<and> cnt (world s') = cnt (world s) + 1
        else r = - 1 \<and> errno s' = EAGAIN \<and> cnt (world s') = cnt (world s)"
    and "0 < cnt (world s) \<Longrightarrow> sys_read K fd 8 s = ((q, out), s') \<Longrightarrow> q = 8 \<and> length out = 8 \<and> cnt (world s') = 0"
proof -
  note law = assms [unfolded counter_law_def]
  show "mem_read (mem s) stk 8 = store64 le 1 \<Longrightarrow> sys_write K fd stk 8 s = (r, s') \<Longrightarrow>
        if cnt (world s) < counter_max then r = 8 \<and> cnt (world s') = cnt (world s) + 1
        else r = - 1 \<and> errno s' = EAGAIN \<and> cnt (world s') = cnt (world s)"
    by (rule law [THEN conjunct1, rule_format])
  show "0 < cnt (world s) \<Longrightarrow> sys_read K fd 8 s = ((q, out), s') \<Longrightarrow> q = 8 \<and> length out = 8 \<and> cnt (world s') = 0"
    by (rule law [THEN conjunct2, rule_format])
qed

definition cb_of ::
  "('w \<Rightarrow> nat) \<Rightarrow> 'c list \<Rightarrow> ('c \<times> fate) list \<Rightarrow> ('c, 'w) loop_state \<Rightarrow> 'c cb_state" where
  "cb_of cnt added past = (\<lambda>(l, s).
     \<lparr>cb_queue = new_callbacks l, cb_counter = cnt (world s), cb_holder = None, cb_loop = Waiting,
      cb_added = added, cb_past = past\<rparr>)"

lemma length_store64 [simp]: "length (store64 le v) = 8"
  by (simp add: store64_def Let_def)

lemma eventfd_write_counts:
  assumes "counter_law K le (eventfd_fd e) cnt"
  shows "\<exists>ret s'. eventfd_write_nothrow K le stk e s = (Ok ret, s') \<and> (sr_bool ret \<or> errno_value ret = EAGAIN)
     \<and> cnt (world s') = (if cnt (world s) < counter_max then cnt (world s) + 1 else cnt (world s))"
proof -
  let ?s = "s\<lparr>mem := mem_write (mem s) stk (store64 le 1)\<rparr>"
  have m: "mem_read (mem ?s) stk 8 = store64 le 1"
    using mem_read_write [of "store64 le 1" "mem s" stk] by simp
  obtain r s' where w: "sys_write K (eventfd_fd e) stk 8 ?s = (r, s')" by (metis prod.exhaust)
  from counter_lawD(1) [OF assms m w] have "if cnt (world s) < counter_max then r = 8 \<and> cnt (world s') = cnt (world s) + 1
         else r = - 1 \<and> errno s' = EAGAIN \<and> cnt (world s') = cnt (world s)" by simp
  with w show ?thesis
    by (auto simp: eventfd_write_nothrow_def set_local64_def write_file_nothrow_def cmd_simps split: if_splits)
qed

lemma add_callback_run:
  assumes "counter_law (kern X) (host_le X) (eventfd_fd (callbacks_eventfd l)) cnt"
    and "add_callback X c (l, s) = (r, (l', s'))"
  shows "r = Ok () \<and> l' = l\<lparr>new_callbacks := new_callbacks l @ [c]\<rparr> \<and>
     cnt (world s') = (if cnt (world s) < counter_max then cnt (world s) + 1 else cnt (world s))"
proof -
  obtain ret s1 where w: "eventfd_write_nothrow (kern X) (host_le X) (local_addr X) (callbacks_eventfd l) s = (Ok ret, s1)"
    "sr_bool ret \<or> errno_value ret = EAGAIN"
    "cnt (world s1) = (if cnt (world s) < counter_max then cnt (world s) + 1 else cnt (world s))"
    using eventfd_write_counts [OF assms(1)] by metis
  with assms(2) show ?thesis by (auto simp: add_callback_def cmd_simps)
qed

lemma counter_law_read:
  assumes "counter_law K le (eventfd_fd e) cnt" "0 < cnt (world s)"
  shows "\<exists>v s'. eventfd_read K le junk e s = (Ok v, s') \<and> cnt (world s') = 0"
proof -
  obtain q out s' where rd: "sys_read K (eventfd_fd e) 8 s = ((q, out), s')" by (metis prod.exhaust)
  with counter_lawD(2) [OF assms this] show ?thesis by (simp add: eventfd_read_def cmd_simps Let_def)
qed

lemma for_each_quiet:
  "quiet X eff \<Longrightarrow> for_each (run_callback (user X)) cs (l, s) = (Ok (), (l, fold eff cs s))"
  by (induction cs arbitrary: s) (simp_all add: quiet_def cmd_simps)

subsection \<open>What callbacks do to the queue\<close>

text \<open>
  The counter of an event descriptor changes with reads and writes of that descriptor only; none of the other calls of the
  loop's methods, and no write to another descriptor, does.
\<close>

definition counter_frame :: "('w, 'x) ev_calls_scheme \<Rightarrow> int \<Rightarrow> ('w \<Rightarrow> nat) \<Rightarrow> bool" where
  "counter_frame K fd cnt \<longleftrightarrow>
     (\<forall>other stk n s. other \<noteq> fd \<longrightarrow> cnt (world (snd (sys_write K other stk n s))) = cnt (world s)) \<and>
     (\<forall>tf fl spec s. cnt (world (snd (sys_timerfd_settime K tf fl spec s))) = cnt (world s)) \<and>
     (\<forall>s. cnt (world (snd (sys_steady_now K s))) = cnt (world s)) \<and>
     (\<forall>ep op tf ev s. cnt (world (snd (sys_epoll_ctl K ep op tf ev s))) = cnt (world s))"

lemma counter_frameD:
  assumes "counter_frame K fd cnt"
  shows "other \<noteq> fd \<Longrightarrow> cnt (world (snd (sys_write K other stk n s))) = cnt (world s)"
    "cnt (world (snd (sys_timerfd_settime K tf fl spec s))) = cnt (world s)"
    "cnt (world (snd (sys_steady_now K s))) = cnt (world s)"
    "cnt (world (snd (sys_epoll_ctl K ep op tf ev s))) = cnt (world s)"
  using assms unfolding counter_frame_def by blast+

text \<open>The methods other than \<^verbatim>\<open>add_callback\<close> leave the queue and its counter alone.\<close>

lemma counter_calls:
  assumes "counter_frame (kern X) fd cnt"
  shows "keeps (\<lambda>x. cnt (world (snd x)) = n) (beside (call (sys_steady_now (kern X))))"
    "keeps (\<lambda>x. cnt (world (snd x)) = n) (arm_timeouts X t)" "keeps (\<lambda>x. cnt (world (snd x)) = n) (arm_periodic X t)"
  unfolding arm_timeouts_def arm_periodic_def set_oneshot_def set_oneshot_duration_def
  by (intro keeps_intros keeps_beside; simp add: counter_frameD [OF assms] keeps_intros)+

lemma counter_quiet:
  assumes law: "counter_frame (kern X) fd cnt"
  shows "keeps (\<lambda>x. cnt (world (snd x)) = n) (add_timeout X t c)" "keeps (\<lambda>x. cnt (world (snd x)) = n) (add_timeout_delay X t c)"
    "keeps (\<lambda>x. cnt (world (snd x)) = n) (remove_timeout h)" "keeps (\<lambda>x. cnt (world (snd x)) = n) (add_periodic_timeout X p c)"
    "keeps (\<lambda>x. cnt (world (snd x)) = n) (remove_periodic_timeout h)"
    "keeps (\<lambda>x. cnt (world (snd x)) = n) timeout_handle" "keeps (\<lambda>x. cnt (world (snd x)) = n) periodic_timeout_handle"
  unfolding add_timeout_def add_timeout_delay_def remove_timeout_def add_periodic_timeout_def insert_timeout_def
    remove_periodic_timeout_def timeout_handle_def periodic_timeout_handle_def insert_periodic_timeout_def
  by (intro keeps_intros counter_calls [OF law]; simp)+

lemma counter_epoll:
  assumes "counter_frame (kern X) fd cnt"
  shows "add_handler X f ev h x = (r, y) \<Longrightarrow> cnt (world (snd y)) = cnt (world (snd x))"
    "remove_handler X f x = (r, y) \<Longrightarrow> cnt (world (snd y)) = cnt (world (snd x))"
proof -
  note ctl = counter_frameD(4) [OF assms]
  show "add_handler X f ev h x = (r, y) \<Longrightarrow> cnt (world (snd y)) = cnt (world (snd x))"
    by (cases x) (auto simp: add_handler_def on_epoll_def epoll_add_ptr_def epoll_add_event_def cmd_simps ctl
        split: prod.splits res.splits if_splits)
  show "remove_handler X f x = (r, y) \<Longrightarrow> cnt (world (snd y)) = cnt (world (snd x))"
    by (cases x) (auto simp: remove_handler_def on_epoll_def epoll_del_nothrow_def cmd_simps ctl
        split: prod.splits res.splits if_splits)
qed

lemma counter_stop:
  assumes "counter_frame (kern X) fd cnt" "eventfd_fd (stop_eventfd (fst x)) \<noteq> fd" "stop X x = (r, y)"
  shows "cnt (world (snd y)) = cnt (world (snd x))"
  using assms(3) counter_frameD(1) [OF assms(1,2)]
  by (cases x) (auto simp: stop_def eventfd_write_def write_file_def set_local64_def cmd_simps
      split: prod.splits res.splits if_splits)

definition queue_part :: "'c ioloop \<Rightarrow> 'c list \<times> eventfd \<times> eventfd" where
  "queue_part l = (new_callbacks l, callbacks_eventfd l, stop_eventfd l)"

lemma leaves_queue:
  "leaves queue_part (add_handler X fd ev cb)" "leaves queue_part (remove_handler X fd)" "leaves queue_part (stop X)"
  "leaves queue_part (add_timeout X t c)" "leaves queue_part (add_timeout_delay X t c)" "leaves queue_part (remove_timeout h)"
  "leaves queue_part (add_periodic_timeout X p c)" "leaves queue_part (remove_periodic_timeout h)"
  "leaves queue_part timeout_handle" "leaves queue_part periodic_timeout_handle"
  unfolding add_handler_def remove_handler_def erase_handler_def stop_def add_timeout_def add_timeout_delay_def
    remove_timeout_def add_periodic_timeout_def insert_periodic_timeout_def insert_timeout_def timeout_handle_def
    periodic_timeout_handle_def arm_timeouts_def arm_periodic_def remove_periodic_timeout_def
  by (auto intro!: leaves_intros simp: queue_part_def)

lemmas leaves_queueD = leaves_queue [THEN leavesD]

text \<open>
  A part of a run that adds the callbacks \<open>ds\<close> to the queue and takes none, wherever the loop's thread is.
\<close>

definition adds :: "('w \<Rightarrow> nat) \<Rightarrow> ('c, 'w) loop_state \<Rightarrow> 'c list \<Rightarrow> ('c, 'w) loop_state \<Rightarrow> bool" where
  "adds cnt x ds y \<longleftrightarrow> queue_part (fst y) = (new_callbacks (fst x) @ ds, callbacks_eventfd (fst x), stop_eventfd (fst x)) \<and>
     (\<forall>added past pc. cb_step\<^sup>*\<^sup>* ((cb_of cnt added past x)\<lparr>cb_loop := pc\<rparr>) ((cb_of cnt (added @ ds) past y)\<lparr>cb_loop := pc\<rparr>))"

lemma adds_none:
  assumes "queue_part (fst y) = queue_part (fst x)" "cnt (world (snd y)) = cnt (world (snd x))"
  shows "adds cnt x [] y"
  using assms by (cases x; cases y) (simp add: adds_def queue_part_def cb_of_def)

lemma adds_trans: "adds cnt x ds y \<Longrightarrow> adds cnt y es z \<Longrightarrow> adds cnt x (ds @ es) z"
proof -
  assume xy: "adds cnt x ds y" and yz: "adds cnt y es z"
  have "cb_step\<^sup>*\<^sup>* ((cb_of cnt added past x)\<lparr>cb_loop := pc\<rparr>) ((cb_of cnt (added @ ds @ es) past z)\<lparr>cb_loop := pc\<rparr>)" for added past pc
  proof (rule rtranclp_trans)
    show "cb_step\<^sup>*\<^sup>* ((cb_of cnt added past x)\<lparr>cb_loop := pc\<rparr>) ((cb_of cnt (added @ ds) past y)\<lparr>cb_loop := pc\<rparr>)"
      using xy by (simp add: adds_def)
    show "cb_step\<^sup>*\<^sup>* ((cb_of cnt (added @ ds) past y)\<lparr>cb_loop := pc\<rparr>) ((cb_of cnt (added @ ds @ es) past z)\<lparr>cb_loop := pc\<rparr>)"
      using yz by (metis adds_def append_assoc)
  qed
  with xy yz show ?thesis unfolding adds_def queue_part_def by simp
qed

lemma add_callback_adds:
  assumes "counter_law (kern X) (host_le X) (eventfd_fd (callbacks_eventfd (fst x))) cnt" "add_callback X c x = (r, y)"
  shows "adds cnt x [c] y"
proof -
  obtain l s l' s' where xy: "x = (l, s)" "y = (l', s')" by (cases x; cases y)
  note run = add_callback_run [OF assms(1) [unfolded xy fst_conv] assms(2) [unfolded xy]]
  have "cb_step\<^sup>*\<^sup>* ((cb_of cnt added past (l, s))\<lparr>cb_loop := pc\<rparr>) ((cb_of cnt (added @ [c]) past (l', s'))\<lparr>cb_loop := pc\<rparr>)" for added past pc
  proof -
    let ?q = "(cb_of cnt added past (l, s))\<lparr>cb_loop := pc\<rparr>"
    let ?q1 = "?q\<lparr>cb_queue := new_callbacks l @ [c], cb_holder := Some 0, cb_added := added @ [c]\<rparr>"
    have "cb_step ?q ?q1" using push [of ?q c 0] by (simp add: cb_of_def)
    moreover have "cb_step ?q1 ((cb_of cnt (added @ [c]) past (l', s'))\<lparr>cb_loop := pc\<rparr>)"
      using signal [of ?q1 0] run
      by (cases "cnt (world s) < counter_max") (simp_all add: cb_of_def)
    ultimately show ?thesis by (auto intro: converse_rtranclp_into_rtranclp)
  qed
  with run xy show ?thesis by (simp add: adds_def queue_part_def)
qed

text \<open>What the callbacks run in: the laws of the two event descriptors, which are not the same, and user code that leaves
  the counter to the methods.\<close>

definition queue_env ::
  "('c, 'w) loop_env \<Rightarrow> ('w sys \<Rightarrow> 'w sys \<Rightarrow> bool) \<Rightarrow> ('w \<Rightarrow> nat) \<Rightarrow> eventfd \<Rightarrow> eventfd \<Rightarrow> bool" where
  "queue_env X ok cnt ce se \<longleftrightarrow> api_code X ok \<and> counter_law (kern X) (host_le X) (eventfd_fd ce) cnt \<and>
     counter_frame (kern X) (eventfd_fd ce) cnt \<and> eventfd_fd se \<noteq> eventfd_fd ce \<and>
     (\<forall>s s'. ok s s' \<longrightarrow> cnt (world s') = cnt (world s))"

lemma api_step_adds:
  assumes env: "queue_env X ok cnt (callbacks_eventfd (fst x)) (stop_eventfd (fst x))" and step: "api_step X ok x y"
  shows "\<exists>ds. adds cnt x ds y"
proof -
  note law = env [unfolded queue_env_def]
  note frame = law [THEN conjunct2, THEN conjunct2, THEN conjunct1]
  from step show ?thesis
  proof cases
    case (call_add_callback c r)
    from add_callback_adds [OF law [THEN conjunct2, THEN conjunct1] this] show ?thesis by blast
  next
    case (outside s s' l)
    then show ?thesis using law adds_none [of y x cnt] by auto
  next
    case call_stop
    have "eventfd_fd (stop_eventfd (fst x)) \<noteq> eventfd_fd (callbacks_eventfd (fst x))" using law by blast
    from adds_none [OF leaves_queueD(3) [OF call_stop] counter_stop [OF frame this call_stop]] show ?thesis ..
  qed (rule exI, rule adds_none, erule leaves_queueD,
      erule counter_epoll [OF frame] counter_quiet [OF frame, THEN keepsD, OF _ refl])+
qed

lemma adds_ends: "adds cnt x ds y \<Longrightarrow> callbacks_eventfd (fst y) = callbacks_eventfd (fst x) \<and> stop_eventfd (fst y) = stop_eventfd (fst x)"
  by (simp add: adds_def queue_part_def)

lemma api_run_adds:
  assumes "(api_step X ok)\<^sup>*\<^sup>* x y" "queue_env X ok cnt (callbacks_eventfd (fst x)) (stop_eventfd (fst x))"
  shows "\<exists>ds. adds cnt x ds y"
  using assms
proof (induction rule: rtranclp_induct)
  case base
  show ?case using adds_none [of x x cnt] by blast
next
  case (step y z)
  then obtain ds where "adds cnt x ds y" by blast
  moreover from this step obtain es where "adds cnt y es z" using api_step_adds [of X ok cnt y z] adds_ends by metis
  ultimately show ?case using adds_trans by blast
qed

text \<open>The calls: \<open>run_one\<close> or \<open>run_throws\<close> for each, and the pushes of the callback before it.\<close>

lemma batch_steps:
  assumes env: "queue_env X ok cnt (callbacks_eventfd (fst x)) (stop_eventfd (fst x))" "call_log X lg"
    and run: "for_each (run_callback (user X)) cs x = (r, y)"
  shows "\<exists>ds. callbacks_eventfd (fst y) = callbacks_eventfd (fst x) \<and> new_callbacks (fst y) = new_callbacks (fst x) @ ds \<and>
     (r = Ok () \<and> lg (world (snd y)) = lg (world (snd x)) @ cs \<and>
        (\<forall>added past. cb_step\<^sup>*\<^sup>* ((cb_of cnt added past x)\<lparr>cb_loop := Running cs\<rparr>) (cb_of cnt (added @ ds) (past @ with_fate Called cs) y))
      \<or> (\<exists>e xs c ys. r = Throw e \<and> cs = xs @ c # ys \<and> lg (world (snd y)) = lg (world (snd x)) @ xs @ [c] \<and>
        (\<forall>added past. cb_step\<^sup>*\<^sup>* ((cb_of cnt added past x)\<lparr>cb_loop := Running cs\<rparr>)
           (cb_of cnt (added @ ds) (past @ with_fate Called xs @ (c, Threw) # with_fate Dropped ys) y))))"
  using env(1) run
proof (induction cs arbitrary: x)
  case Nil
  then have "r = Ok ()" "y = x" by (simp_all add: cmd_simps)
  moreover have "cb_step\<^sup>*\<^sup>* ((cb_of cnt added past x)\<lparr>cb_loop := Running []\<rparr>) (cb_of cnt added past x)" for added past
    using finish [of "(cb_of cnt added past x)\<lparr>cb_loop := Running []\<rparr>"] by (cases x) (simp add: cb_of_def r_into_rtranclp)
  ultimately show ?case by (intro exI [of _ "[]"]) simp
next
  case (Cons c cs)
  obtain r1 y1 where c: "run_callback (user X) c x = (r1, y1)" by (metis prod.exhaust)
  have "(api_step X ok)\<^sup>*\<^sup>* x y1" and def: "r1 \<noteq> Undefined" "r1 \<noteq> Terminated"
    using Cons.prems(1) c unfolding queue_env_def api_code_def by blast+
  then obtain ds where ds: "adds cnt x ds y1" using api_run_adds Cons.prems(1) by blast
  note ends = adds_ends [OF ds]
  have queue: "new_callbacks (fst y1) = new_callbacks (fst x) @ ds" using ds by (simp add: adds_def queue_part_def)
  have lg: "lg (world (snd y1)) = lg (world (snd x)) @ [c]" by (rule call_logD(1) [OF env(2) c])
  have pushed: "cb_step\<^sup>*\<^sup>* ((cb_of cnt added past x)\<lparr>cb_loop := Running (c # cs)\<rparr>)
      ((cb_of cnt (added @ ds) past y1)\<lparr>cb_loop := Running (c # cs)\<rparr>)" for added past
    using ds by (simp add: adds_def)
  show ?case
  proof (cases r1)
    case (Ok v)
    then have rest: "for_each (run_callback (user X)) cs y1 = (r, y)" using Cons.prems(2) c by (simp add: cmd_simps)
    have one: "cb_step ((cb_of cnt added past y1)\<lparr>cb_loop := Running (c # cs)\<rparr>) ((cb_of cnt added (past @ [(c, Called)]) y1)\<lparr>cb_loop := Running cs\<rparr>)"
      for added past
      using run_one [of "(cb_of cnt added past y1)\<lparr>cb_loop := Running (c # cs)\<rparr>" c cs] by (cases y1) (simp add: cb_of_def)
    note head = rtranclp.rtrancl_into_rtrancl [OF pushed one]
    have "queue_env X ok cnt (callbacks_eventfd (fst y1)) (stop_eventfd (fst y1))" using Cons.prems(1) ends by simp
    from Cons.IH [OF this rest] obtain es where es: "callbacks_eventfd (fst y) = callbacks_eventfd (fst y1)"
      "new_callbacks (fst y) = new_callbacks (fst y1) @ es" and cases:
      "r = Ok () \<and> lg (world (snd y)) = lg (world (snd y1)) @ cs \<and>
        (\<forall>added past. cb_step\<^sup>*\<^sup>* ((cb_of cnt added past y1)\<lparr>cb_loop := Running cs\<rparr>) (cb_of cnt (added @ es) (past @ with_fate Called cs) y))
      \<or> (\<exists>e xs c ys. r = Throw e \<and> cs = xs @ c # ys \<and> lg (world (snd y)) = lg (world (snd y1)) @ xs @ [c] \<and>
        (\<forall>added past. cb_step\<^sup>*\<^sup>* ((cb_of cnt added past y1)\<lparr>cb_loop := Running cs\<rparr>)
           (cb_of cnt (added @ es) (past @ with_fate Called xs @ (c, Threw) # with_fate Dropped ys) y)))" by blast
    from cases show ?thesis
    proof (elim disjE exE conjE)
      assume "r = Ok ()" "lg (world (snd y)) = lg (world (snd y1)) @ cs" and
        steps: "\<forall>added past. cb_step\<^sup>*\<^sup>* ((cb_of cnt added past y1)\<lparr>cb_loop := Running cs\<rparr>) (cb_of cnt (added @ es) (past @ with_fate Called cs) y)"
      then show ?thesis using es queue ends lg rtranclp_trans [OF head steps [rule_format]]
        by (intro exI [of _ "ds @ es"] conjI disjI1) simp_all
    next
      fix e xs d ys
      assume "r = Throw e" "cs = xs @ d # ys" "lg (world (snd y)) = lg (world (snd y1)) @ xs @ [d]" and
        steps: "\<forall>added past. cb_step\<^sup>*\<^sup>* ((cb_of cnt added past y1)\<lparr>cb_loop := Running cs\<rparr>)
           (cb_of cnt (added @ es) (past @ with_fate Called xs @ (d, Threw) # with_fate Dropped ys) y)"
      then show ?thesis using es queue ends lg rtranclp_trans [OF head steps [rule_format]]
        by (intro exI [of _ "ds @ es"] conjI disjI2 exI [of _ e] exI [of _ "c # xs"] exI [of _ d] exI [of _ ys]) simp_all
    qed
  next
    case (Throw e)
    then have y: "r = Throw e" "y = y1" using Cons.prems(2) c by (simp_all add: cmd_simps)
    have "cb_step ((cb_of cnt added past y1)\<lparr>cb_loop := Running (c # cs)\<rparr>) (cb_of cnt added (past @ (c, Threw) # with_fate Dropped cs) y1)"
      for added past
      using run_throws [of "(cb_of cnt added past y1)\<lparr>cb_loop := Running (c # cs)\<rparr>" c cs] by (cases y1) (simp add: cb_of_def)
    note steps = rtranclp.rtrancl_into_rtrancl [OF pushed this]
    show ?thesis using y queue ends lg steps
      by (intro exI [of _ ds] conjI disjI2 exI [of _ e] exI [of _ "[]"] exI [of _ c] exI [of _ cs]) simp_all
  qed (use def in simp_all)
qed

subsection \<open>Properties\<close>



text \<open>
  C16. \<^verbatim>\<open>add_callback\<close> is a push and a signal of the machine: it returns, also when the event counter is full,
  and the callback is at the end of the queue.
\<close>

theorem add_callback_refines:
  assumes "counter_law (kern X) (host_le X) (eventfd_fd (callbacks_eventfd l)) cnt"
    and "add_callback X c (l, s) = (r, (l', s'))"
  shows "r = Ok () \<and> l' = l\<lparr>new_callbacks := new_callbacks l @ [c]\<rparr>
     \<and> cb_step\<^sup>*\<^sup>* (cb_of cnt added past (l, s)) (cb_of cnt (added @ [c]) past (l', s'))"
proof -
  from add_callback_adds [of X "(l, s)" cnt c r "(l', s')"] assms
  have "cb_step\<^sup>*\<^sup>* ((cb_of cnt added past (l, s))\<lparr>cb_loop := Waiting\<rparr>) ((cb_of cnt (added @ [c]) past (l', s'))\<lparr>cb_loop := Waiting\<rparr>)"
    by (simp add: adds_def)
  then show ?thesis using add_callback_run [OF assms] by (simp add: cb_of_def)
qed

definition count_calls :: "nat ev_calls" where
  "count_calls = idle_ev_calls
     \<lparr>sys_write := (\<lambda>_ _ _ s. if world s < counter_max then (8, s\<lparr>world := world s + 1\<rparr>) else (- 1, s\<lparr>errno := EAGAIN\<rparr>)),
      sys_read := (\<lambda>_ _ s. ((8, replicate 8 0), s\<lparr>world := 0\<rparr>))\<rparr>"

definition count_env :: "(nat, nat) loop_env" where
  "count_env = \<lparr>kern = count_calls, user = \<lparr>run_callback = (\<lambda>c (l, s). (Ok (), (l, s\<lparr>errno := int c\<rparr>))), run_handler = (\<lambda>_ _ _ x. (Ok (), x))\<rparr>,
     sen = id, srt = sort_key pt_timeout, host_le = True, local_addr = 64, raw8 = replicate 8 0\<rparr>"

lemma count_env_law: "counter_law (kern count_env) (host_le count_env) fd id" "quiet count_env (\<lambda>c s. s\<lparr>errno := int c\<rparr>)"
  by (auto simp: counter_law_def quiet_def count_env_def count_calls_def idle_ev_calls_def split: if_splits)

theorem add_callback_refines_witness:
  "\<exists>l' s'. add_callback count_env 7 (log_loop [], sys0 0) = (Ok (), (l', s')) \<and> new_callbacks l' = [7]
     \<and> cb_step\<^sup>*\<^sup>* (cb_of id [] [] (log_loop [], sys0 0)) (cb_of id [7] [] (l', s'))"
proof -
  obtain r l' s' where run: "add_callback count_env 7 (log_loop [], sys0 0) = (r, (l', s'))" by (metis prod.exhaust)
  have "new_callbacks (log_loop []) = []" by (simp add: log_loop_def empty_loop_def)
  with add_callback_refines [OF count_env_law(1) run, of "[]" "[]"] run show ?thesis by fastforce
qed

text \<open>
  C17. \<^verbatim>\<open>process_callbacks\<close>, run when the counter is not zero, is a read of the counter, a take of the queue
  and the calls of the machine, whatever the callbacks do to the loop. The calls are the ones in the log. When it returns it has
  called what was queued, once each and in order; when a callback throws it passes the exception on, it has called the ones up to
  that callback, and the ones behind are dropped. The queue then holds the callbacks that these calls added, and no other.
\<close>

theorem process_callbacks_refines:
  assumes "queue_env X ok cnt (callbacks_eventfd l) (stop_eventfd l)" "call_log X lg"
    and "0 < cnt (world s)" "process_callbacks X (l, s) = (r, (l', s'))"
  shows "(r = Ok () \<and> lg (world s') = lg (world s) @ new_callbacks l \<and>
       cb_step\<^sup>*\<^sup>* (cb_of cnt added past (l, s))
         (cb_of cnt (added @ new_callbacks l') (past @ map (\<lambda>c. (c, Called)) (new_callbacks l)) (l', s')))
     \<or> (\<exists>e xs c ys. r = Throw e \<and> new_callbacks l = xs @ c # ys \<and> lg (world s') = lg (world s) @ xs @ [c] \<and>
       cb_step\<^sup>*\<^sup>* (cb_of cnt added past (l, s)) (cb_of cnt (added @ new_callbacks l')
         (past @ map (\<lambda>c. (c, Called)) xs @ (c, Threw) # map (\<lambda>c. (c, Dropped)) ys) (l', s')))"
proof -
  have law: "counter_law (kern X) (host_le X) (eventfd_fd (callbacks_eventfd l)) cnt" using assms(1) unfolding queue_env_def by blast
  obtain v s1 where rd: "eventfd_read (kern X) (host_le X) (raw8 X) (callbacks_eventfd l) s = (Ok v, s1)" "cnt (world s1) = 0"
    using counter_law_read [OF law assms(3)] by metis
  have lg: "lg (world s1) = lg (world s)"
    using call_logD(2) [OF assms(2), of "eventfd_fd (callbacks_eventfd l)" 8 s] rd(1)
    by (auto simp: eventfd_read_def cmd_simps Let_def split: prod.splits if_splits)
  let ?x = "(l\<lparr>new_callbacks := []\<rparr>, s1)" and ?q = "cb_of cnt added past (l, s)"
  let ?q1 = "?q\<lparr>cb_counter := 0, cb_loop := Counter_read\<rparr>"
  have run: "for_each (run_callback (user X)) (new_callbacks l) ?x = (r, (l', s'))"
    using assms(4) rd by (simp add: process_callbacks_def cmd_simps)
  have "cb_step ?q ?q1" using assms(3) by (intro read_counter) (simp_all add: cb_of_def)
  moreover have "cb_step ?q1 ((cb_of cnt added past ?x)\<lparr>cb_loop := Running (new_callbacks l)\<rparr>)"
    using take_all [of ?q1] rd(2) by (simp add: cb_of_def)
  ultimately have head: "cb_step\<^sup>*\<^sup>* ?q ((cb_of cnt added past ?x)\<lparr>cb_loop := Running (new_callbacks l)\<rparr>)"
    by (meson converse_rtranclp_into_rtranclp rtranclp.rtrancl_refl)
  have "queue_env X ok cnt (callbacks_eventfd (fst ?x)) (stop_eventfd (fst ?x))" using assms(1) by simp
  from batch_steps [OF this assms(2) run] show ?thesis
    using rtranclp_trans [OF head] lg by (auto simp: with_fate_def)
qed

text \<open>Callback 1 adds callback 7; callback 3 throws; each is written to the log.\<close>

definition batch_base :: "(nat, nat list \<times> nat) loop_env" where
  "batch_base = \<lparr>kern = idle_ev_calls
       \<lparr>sys_write := (\<lambda>fd _ _ s. if fd \<noteq> 7 then (8, s)
          else if snd (world s) < counter_max then (8, s\<lparr>world := (fst (world s), snd (world s) + 1)\<rparr>) else (- 1, s\<lparr>errno := EAGAIN\<rparr>)),
        sys_read := (\<lambda>_ _ s. ((8, replicate 8 0), s\<lparr>world := (fst (world s), 0)\<rparr>))\<rparr>,
     user = \<lparr>run_callback = (\<lambda>_ x. (Ok (), x)), run_handler = (\<lambda>_ _ _ x. (Ok (), x))\<rparr>,
     sen = id, srt = sort_key pt_timeout, host_le = True, local_addr = 64, raw8 = replicate 8 0\<rparr>"

definition batch_env :: "(nat, nat list \<times> nat) loop_env" where
  "batch_env = batch_base\<lparr>user := \<lparr>run_callback = (\<lambda>c (l, s).
         let s' = s\<lparr>world := (fst (world s) @ [c], snd (world s))\<rparr>
         in if c = 1 then add_callback batch_base 7 (l, s')
            else if c = 3 then (Throw (Runtime_error ''callback''), (l, s')) else (Ok (), (l, s'))),
       run_handler = (\<lambda>_ _ _ x. (Ok (), x))\<rparr>\<rparr>"

definition batch_ok :: "(nat list \<times> nat) sys \<Rightarrow> (nat list \<times> nat) sys \<Rightarrow> bool" where
  "batch_ok s s' \<longleftrightarrow> snd (world s') = snd (world s)"

lemma add_callback_env: "add_callback batch_env c = add_callback batch_base c"
  by (simp add: add_callback_def batch_env_def)

lemma batch_fds: "eventfd_fd (callbacks_eventfd (log_loop [])) = 7" "eventfd_fd (stop_eventfd (log_loop [])) = 4"
  by (simp_all add: log_loop_def empty_loop_def eventfd_fd_def unique_fd_of_def ufd_get_def int_descriptor_of_def id_get_def)

lemma batch_read: "eventfd_read (kern batch_env) (host_le batch_env) (raw8 batch_env) e s = (Ok 0, s\<lparr>world := (fst (world s), 0)\<rparr>)"
  by (simp add: eventfd_read_def cmd_simps batch_env_def batch_base_def load64_def std_copy_def eval_nat_numeral Let_def)

lemma batch_law: "counter_law (kern batch_env) (host_le batch_env) 7 snd" "counter_frame (kern batch_env) 7 snd"
  by (auto simp: counter_law_def counter_frame_def batch_env_def batch_base_def idle_ev_calls_def split: if_splits)

lemma batch_add: "fst (add_callback batch_base c (l, s)) \<noteq> Undefined" "fst (add_callback batch_base c (l, s)) \<noteq> Terminated"
    "fst (world (snd (snd (add_callback batch_base c (l, s))))) = fst (world s)"
  by (auto simp: add_callback_def eventfd_write_nothrow_def set_local64_def write_file_nothrow_def cmd_simps batch_base_def
      split: if_splits)

lemma batch_env_run:
  "run_callback (user batch_env) c (l, s) =
     (let s' = s\<lparr>world := (fst (world s) @ [c], snd (world s))\<rparr>
      in if c = 1 then add_callback batch_env 7 (l, s')
         else if c = 3 then (Throw (Runtime_error ''callback''), (l, s')) else (Ok (), (l, s')))"
  "run_handler (user batch_env) h fd ev x = (Ok (), x)"
  unfolding add_callback_env by (simp_all add: batch_env_def Let_def)

lemma batch_api: "api_code batch_env batch_ok"
proof -
  have log: "api_step batch_env batch_ok (l, s) (l, s\<lparr>world := (fst (world s) @ [c], snd (world s))\<rparr>)" for l s c
    by (rule outside) (simp add: batch_ok_def)
  have add: "r \<noteq> Undefined \<and> r \<noteq> Terminated \<and> (api_step batch_env batch_ok)\<^sup>*\<^sup>* (l, s) y"
    if "add_callback batch_env 7 (l, s\<lparr>world := (fst (world s) @ [c], snd (world s))\<rparr>) = (r, y)" for l s c r y
    using that log [of l s c] call_add_callback [OF that, of batch_ok] batch_add(1,2) [of 7 l "s\<lparr>world := (fst (world s) @ [c], snd (world s))\<rparr>"]
    unfolding add_callback_env by (auto intro: converse_rtranclp_into_rtranclp)
  show ?thesis
    unfolding api_code_def
    by (auto simp: batch_env_run Let_def intro: r_into_rtranclp log dest: add split: if_splits)
qed

lemma batch_env_law: "queue_env batch_env batch_ok snd (callbacks_eventfd (log_loop [])) (stop_eventfd (log_loop []))"
  "call_log batch_env fst"
proof -
  show "queue_env batch_env batch_ok snd (callbacks_eventfd (log_loop [])) (stop_eventfd (log_loop []))"
    using batch_law batch_api by (simp add: queue_env_def batch_ok_def batch_fds)
  have "run_callback (user batch_env) c (l, s) = (r, y) \<Longrightarrow> fst (world (snd y)) = fst (world s) @ [c]" for c l s r y
    using batch_add(3) [of 7 l "s\<lparr>world := (fst (world s) @ [1], snd (world s))\<rparr>"]
    by (auto simp: batch_env_run Let_def add_callback_env split: if_splits)
  then show "call_log batch_env fst"
    by (auto simp: call_log_def) (simp_all add: batch_env_def batch_base_def idle_ev_calls_def)
qed

lemma batch_add_run:
  assumes "eventfd_fd (callbacks_eventfd l) = 7"
  obtains s' where "add_callback batch_env c (l, s) = (Ok (), (l\<lparr>new_callbacks := new_callbacks l @ [c]\<rparr>, s'))" "fst (world s') = fst (world s)"
proof -
  obtain r l' s' where run: "add_callback batch_env c (l, s) = (r, (l', s'))" by (metis prod.exhaust)
  with add_callback_run [of batch_env l snd c s r l' s'] batch_law(1) batch_add(3) [of c l s] assms that show thesis
    by (simp add: add_callback_env)
qed

theorem process_callbacks_refines_witness:
  "\<exists>e l' s'. process_callbacks batch_env ((log_loop [])\<lparr>new_callbacks := [1, 2, 3, 8]\<rparr>, sys0 ([] :: nat list, 4)) = (Throw e, (l', s'))
     \<and> new_callbacks l' = [7] \<and> fst (world s') = [1, 2, 3]
     \<and> cb_step\<^sup>*\<^sup>* (cb_of snd [1, 2, 3, 8] [] ((log_loop [])\<lparr>new_callbacks := [1, 2, 3, 8]\<rparr>, sys0 ([] :: nat list, 4)))
         (cb_of snd [1, 2, 3, 8, 7] [(1, Called), (2, Called), (3, Threw), (8, Dropped)] (l', s'))"
proof -
  let ?l = "(log_loop [])\<lparr>new_callbacks := [1, 2, 3, 8]\<rparr>"
  have "\<exists>e l' s'. process_callbacks batch_env (?l, sys0 ([] :: nat list, 4)) = (Throw e, (l', s')) \<and> new_callbacks l' = [7] \<and> fst (world s') = [1, 2, 3]"
    by (rule batch_add_run [of "(log_loop [])\<lparr>new_callbacks := []\<rparr>" 7 "sys0 ([1], 0)"])
      (simp_all add: process_callbacks_def batch_read cmd_simps batch_env_run Let_def batch_fds)
  then obtain e l' s' where run: "process_callbacks batch_env (?l, sys0 ([] :: nat list, 4)) = (Throw e, (l', s'))"
    and out: "new_callbacks l' = [7]" "fst (world s') = [1, 2, 3]" by (elim exE conjE) (rule that)
  have env: "queue_env batch_env batch_ok snd (callbacks_eventfd ?l) (stop_eventfd ?l)" using batch_env_law(1) by simp
  from process_callbacks_refines [OF env batch_env_law(2) _ run, of "[1, 2, 3, 8]" "[]"] out
  have "cb_step\<^sup>*\<^sup>* (cb_of snd [1, 2, 3, 8] [] (?l, sys0 ([] :: nat list, 4)))
      (cb_of snd [1, 2, 3, 8, 7] [(1, Called), (2, Called), (3, Threw), (8, Dropped)] (l', s'))" by auto
  with run out show ?thesis by blast
qed

end
