(* ===== verification/Stop_Signal.thy ===== *)
theory Stop_Signal
  imports Callback_Queue
begin

text \<open>
  \<^verbatim>\<open>ioloop::stop\<close> may be called from any thread and from a signal handler while
  \<^verbatim>\<open>start\<close> runs. \<open>stop_step\<close> interleaves its two effects, the store to
  \<^verbatim>\<open>keep_running_\<close> and the write to the stop descriptor, with the steps of the loop's thread:
  the store at the begin of \<^verbatim>\<open>start\<close>, the test of the flag, the wait, and the round of handlers with the
  read of the counter in \<^verbatim>\<open>process_stop\<close>.
\<close>

subsection \<open>The threads\<close>

text \<open>
  Where the loop's thread is. \<open>Round b\<close>: the handlers run, with the one of the stop descriptor among them when \<open>b\<close>. The
  number of threads between the store and the write is \<open>st_writers\<close>; \<open>st_request\<close> records that
  \<^verbatim>\<open>stop\<close> was called since \<^verbatim>\<open>start\<close> set the flag.
\<close>

datatype start_pc = Entry | Test | Wait | Round bool | Returned

record stop_state =
  st_flag :: bool
  st_counter :: nat
  st_writers :: nat
  st_pc :: start_pc
  st_request :: bool

text \<open>
  The wait returns when the counter is not zero, because another descriptor is ready, or because a signal
  interrupts it; it reports every descriptor that is ready. A handler may throw.
\<close>

inductive loop_step :: "stop_state \<Rightarrow> stop_state \<Rightarrow> bool" where
  enter: "st_pc q = Entry \<Longrightarrow> loop_step q (q\<lparr>st_flag := True, st_request := False, st_pc := Test\<rparr>)"
| test: "st_pc q = Test \<Longrightarrow> loop_step q (q\<lparr>st_pc := (if st_flag q then Wait else Returned)\<rparr>)"
| ready: "st_pc q = Wait \<Longrightarrow> 0 < st_counter q \<or> other \<Longrightarrow> loop_step q (q\<lparr>st_pc := Round (0 < st_counter q)\<rparr>)"
| interrupted: "st_pc q = Wait \<Longrightarrow> loop_step q (q\<lparr>st_pc := Test\<rparr>)"
| handled: "st_pc q = Round b \<Longrightarrow> loop_step q (q\<lparr>st_counter := (if b then 0 else st_counter q), st_pc := Test\<rparr>)"
| thrown: "st_pc q = Round b \<Longrightarrow> loop_step q (q\<lparr>st_pc := Returned\<rparr>)"

inductive thread_step :: "stop_state \<Rightarrow> stop_state \<Rightarrow> bool" where
  clear: "thread_step q (q\<lparr>st_flag := False, st_writers := st_writers q + 1, st_request := True\<rparr>)"
| wake: "0 < st_writers q \<Longrightarrow> st_counter q < counter_max \<Longrightarrow>
     thread_step q (q\<lparr>st_counter := st_counter q + 1, st_writers := st_writers q - 1\<rparr>)"

inductive stop_step :: "stop_state \<Rightarrow> stop_state \<Rightarrow> bool" where
  by_loop: "loop_step q q' \<Longrightarrow> stop_step q q'"
| by_thread: "thread_step q q' \<Longrightarrow> stop_step q q'"
| again: "st_pc q = Returned \<Longrightarrow> stop_step q (q\<lparr>st_pc := Entry\<rparr>)"

inductive_cases loop_stepE: "loop_step q q'"
inductive_cases thread_stepE: "thread_step q q'"
inductive_cases stop_stepE: "stop_step q q'"

definition stop_init :: stop_state where
  "stop_init = \<lparr>st_flag = True, st_counter = 0, st_writers = 0, st_pc = Entry, st_request = False\<rparr>"

subsection \<open>Invariants\<close>

text \<open>A request keeps the flag cleared until the next start.\<close>

definition request_seen :: "stop_state \<Rightarrow> bool" where
  "request_seen q \<longleftrightarrow> (st_request q \<longrightarrow> \<not> st_flag q)"

text \<open>A loop that waits although the flag is cleared will be woken.\<close>

definition wakeup_due :: "stop_state \<Rightarrow> bool" where
  "wakeup_due q \<longleftrightarrow> (st_pc q = Wait \<longrightarrow> \<not> st_flag q \<longrightarrow> 0 < st_counter q \<or> 0 < st_writers q)"

interpretation seen: step_invariant stop_step request_seen
proof
  fix x y assume "stop_step x y" "request_seen x"
  then show "request_seen y" by (auto elim!: stop_stepE loop_stepE thread_stepE simp: request_seen_def)
qed

interpretation due_wakeup: step_invariant stop_step wakeup_due
proof
  fix x y assume "stop_step x y" "wakeup_due x"
  then show "wakeup_due y" by (auto elim!: stop_stepE loop_stepE thread_stepE simp: wakeup_due_def split: if_splits)
qed

text \<open>How many steps the loop's thread is away from the end of \<^verbatim>\<open>start\<close> once the flag is cleared.\<close>

definition steps_left :: "start_pc \<Rightarrow> nat" where
  "steps_left pc = (case pc of Wait \<Rightarrow> 3 | Round b \<Rightarrow> 2 | Test \<Rightarrow> 1 | _ \<Rightarrow> 0)"

subsection \<open>The methods and the steps\<close>

definition stop_of :: "('w \<Rightarrow> nat) \<Rightarrow> start_pc \<Rightarrow> bool \<Rightarrow> ('c, 'w) loop_state \<Rightarrow> stop_state" where
  "stop_of cnt pc request = (\<lambda>(l, s).
     \<lparr>st_flag = keep_running l, st_counter = cnt (world s), st_writers = 0, st_pc = pc, st_request = request\<rparr>)"

text \<open>
  The documented behaviour of the stop descriptor, which \<^verbatim>\<open>ioloop\<close> opens without
  \<^verbatim>\<open>EFD_NONBLOCK\<close>: while its counter \<open>cnt\<close> is below the maximum a write of the eight bytes of 1 adds 1. At
  the maximum, which takes 2^64 - 2 calls of \<^verbatim>\<open>stop\<close> that no round of the loop reads, the write blocks: there the
  law says nothing.
\<close>

definition adds_one_law :: "('w, 'x) ev_calls_scheme \<Rightarrow> bool \<Rightarrow> int \<Rightarrow> ('w \<Rightarrow> nat) \<Rightarrow> bool" where
  "adds_one_law K le fd cnt \<longleftrightarrow>
     (\<forall>stk s r s'. cnt (world s) < counter_max \<longrightarrow> mem_read (mem s) stk 8 = store64 le 1 \<longrightarrow>
        sys_write K fd stk 8 s = (r, s') \<longrightarrow> r = 8 \<and> cnt (world s') = cnt (world s) + 1)"

lemma eventfd_write_adds:
  assumes "adds_one_law K le (eventfd_fd e) cnt" "cnt (world s) < counter_max"
  shows "\<exists>s'. eventfd_write K le stk e s = (Ok (), s') \<and> cnt (world s') = cnt (world s) + 1"
proof -
  let ?s = "s\<lparr>mem := mem_write (mem s) stk (store64 le 1)\<rparr>"
  have m: "mem_read (mem ?s) stk 8 = store64 le 1"
    using mem_read_write [of "store64 le 1" "mem s" stk] by simp
  obtain r s' where w: "sys_write K (eventfd_fd e) stk 8 ?s = (r, s')" by (metis prod.exhaust)
  have "cnt (world ?s) < counter_max" using assms(2) by simp
  from assms(1) [unfolded adds_one_law_def, rule_format, OF this m w] w show ?thesis
    by (simp add: eventfd_write_def set_local64_def write_file_def cmd_simps)
qed

subsection \<open>Properties\<close>

text \<open>
  C13. A stop request is not lost. Once any thread has called \<^verbatim>\<open>stop\<close> after \<^verbatim>\<open>start\<close> set the flag,
  and until \<^verbatim>\<open>start\<close> has ended: the flag stays cleared; a wait returns, because the counter of the stop
  descriptor is not zero or the thread that is about to write to it can do so; every step of the loop's thread brings it
  closer to the end of \<^verbatim>\<open>start\<close>, of which it is at most three steps away; and no step of another thread
  sets it back.
\<close>

theorem stop_not_lost:
  assumes "stop_step\<^sup>*\<^sup>* stop_init q" "st_request q" "st_pc q \<noteq> Entry" "st_pc q \<noteq> Returned"
  shows "\<not> st_flag q \<and> steps_left (st_pc q) \<le> 3
     \<and> (st_pc q = Wait \<longrightarrow> 0 < st_counter q \<or> (\<exists>q'. thread_step q q' \<and> 0 < st_counter q'))
     \<and> (\<forall>q'. loop_step q q' \<longrightarrow> st_request q' \<and> steps_left (st_pc q') < steps_left (st_pc q))
     \<and> (\<forall>q'. thread_step q q' \<longrightarrow> st_request q' \<and> st_pc q' = st_pc q)"
proof -
  have "request_seen stop_init" "wakeup_due stop_init" by (simp_all add: stop_init_def request_seen_def wakeup_due_def)
  with assms(1) have "request_seen q" "wakeup_due q" using seen.kept_star due_wakeup.kept_star by blast+
  with assms(2) have flag: "\<not> st_flag q" and due: "st_pc q = Wait \<Longrightarrow> 0 < st_counter q \<or> 0 < st_writers q"
    by (simp_all add: request_seen_def wakeup_due_def)
  have "st_pc q = Wait \<longrightarrow> 0 < st_counter q \<or> (\<exists>q'. thread_step q q' \<and> 0 < st_counter q')"
    using due wake [of q] by (fastforce simp: counter_max_def)
  moreover have "loop_step q q' \<Longrightarrow> st_request q' \<and> steps_left (st_pc q') < steps_left (st_pc q)" for q'
    using assms(2-4) flag by (auto elim!: loop_stepE simp: steps_left_def)
  moreover have "thread_step q q' \<Longrightarrow> st_request q' \<and> st_pc q' = st_pc q" for q'
    using assms(2) by (auto elim!: thread_stepE)
  ultimately show ?thesis using flag by (auto simp: steps_left_def split: start_pc.splits)
qed

theorem stop_not_lost_witness:
  "\<exists>q. stop_step\<^sup>*\<^sup>* stop_init q \<and> st_pc q = Wait \<and> st_counter q = 0 \<and> (\<exists>q'. thread_step q q' \<and> 0 < st_counter q')"
proof -
  let ?q1 = "stop_init\<lparr>st_flag := True, st_request := False, st_pc := Test\<rparr>"
  let ?q2 = "?q1\<lparr>st_pc := Wait\<rparr>"
  let ?q3 = "?q2\<lparr>st_flag := False, st_writers := 1, st_request := True\<rparr>"
  have "stop_step stop_init ?q1" by (intro by_loop enter) (simp add: stop_init_def)
  moreover have "stop_step ?q1 ?q2" using by_loop [OF test [of ?q1]] by (simp add: stop_init_def)
  moreover have "stop_step ?q2 ?q3" using by_thread [OF clear [of ?q2]] by (simp add: stop_init_def)
  ultimately have run: "stop_step\<^sup>*\<^sup>* stop_init ?q3" by (meson converse_rtranclp_into_rtranclp rtranclp.rtrancl_refl)
  from stop_not_lost [OF this] have "\<exists>q'. thread_step ?q3 q' \<and> 0 < st_counter q'" by (simp add: stop_init_def)
  with run show ?thesis by (intro exI [of _ ?q3]) (simp add: stop_init_def)
qed



end
