(* ===== verification/Argv.thy ===== *)
theory Argv
  imports Kernel
begin

text \<open>
  \<^verbatim>\<open>linuxpp::subprocess::argv\<close>. A \<^verbatim>\<open>char[]\<close> is the list of its
  characters, the terminating NUL included; \<open>c_string\<close> is what a reader of a C string sees of it. An
  argument of a type other than a string is rendered by \<^verbatim>\<open>operator<<\<close>, which is a
  parameter: the texts are given.
\<close>

definition NUL :: char where
  "NUL = CHR 0x00"

definition c_str :: "string \<Rightarrow> char list" where
  "c_str str = str @ [NUL]"

definition c_string :: "char list \<Rightarrow> string" where
  "c_string cs = takeWhile (\<lambda>c. c \<noteq> NUL) cs"

text \<open>
  What \<^verbatim>\<open>execve\<close> reads of a vector of pointers: the C strings up to the null pointer. \<open>None\<close>
  when the vector has no null pointer or one of the arrays no NUL, where the read goes past the end.
\<close>

fun exec_args :: "char list option list \<Rightarrow> string list option" where
  "exec_args [] = None"
| "exec_args (None # ps) = Some []"
| "exec_args (Some p # ps) = (if NUL \<in> set p then map_option ((#) (c_string p)) (exec_args ps) else None)"

record argv =
  pointers :: "char list list"

definition argv_default :: argv where
  "argv_default = \<lparr>pointers = []\<rparr>"

text \<open>The new array is not initialised: \<open>junk\<close> is what it holds.\<close>

definition argv_copy_into :: "(nat \<Rightarrow> char list) \<Rightarrow> string \<Rightarrow> char list" where
  "argv_copy_into junk str =
     (let p = junk (length str + 1); p = std_copy str 0 p in p[length str := NUL])"

definition argv_copy :: "string \<Rightarrow> char list" where
  "argv_copy str = argv_copy_into (\<lambda>n. replicate n (CHR 0xFF)) str"

definition argv_push_back :: "string \<Rightarrow> argv \<Rightarrow> argv" where
  "argv_push_back arg a = a\<lparr>pointers := pointers a @ [argv_copy arg]\<rparr>"

definition argv_push_back_as :: "('t \<Rightarrow> string) \<Rightarrow> 't \<Rightarrow> argv \<Rightarrow> argv" where
  "argv_push_back_as render t a = (let arg = render t in argv_push_back arg a)"

fun argv_push_back_all :: "('t \<Rightarrow> string) \<Rightarrow> 't list \<Rightarrow> argv \<Rightarrow> argv" where
  "argv_push_back_all render [] a = a"
| "argv_push_back_all render (t # ts) a = argv_push_back_all render ts (argv_push_back_as render t a)"

definition argv_of :: "('t \<Rightarrow> string) \<Rightarrow> 't \<Rightarrow> 't list \<Rightarrow> argv" where
  "argv_of render t ts = argv_push_back_all render ts (argv_push_back_as render t argv_default)"

text \<open>The defaulted moves. The library does not say what an assigned-from vector holds: \<open>rest\<close>.\<close>

definition argv_move_ctor :: "argv \<Rightarrow> argv \<times> argv" where
  "argv_move_ctor other = (\<lparr>pointers = pointers other\<rparr>, other\<lparr>pointers := []\<rparr>)"

definition argv_move_assign :: "char list list \<Rightarrow> argv \<Rightarrow> argv \<Rightarrow> argv \<times> argv" where
  "argv_move_assign rest this other = (this\<lparr>pointers := pointers other\<rparr>, other\<lparr>pointers := rest\<rparr>)"

definition argv_cbegin :: "argv \<Rightarrow> nat" where
  "argv_cbegin a = 0"

definition argv_cend :: "argv \<Rightarrow> nat" where
  "argv_cend a = length (pointers a)"

definition argv_size :: "argv \<Rightarrow> nat" where
  "argv_size a = length (pointers a)"

definition argv_empty :: "argv \<Rightarrow> bool" where
  "argv_empty a \<longleftrightarrow> pointers a = []"

lemma argv_copy_into_c_str: "length (junk (length str + 1)) = length str + 1 \<Longrightarrow> argv_copy_into junk str = c_str str"
  by (cases "drop (length str) (junk (length str + 1))")
    (auto simp: argv_copy_into_def c_str_def Let_def std_copy_def dest: arg_cong [where f = length])

lemma argv_copy_c_str: "argv_copy str = c_str str"
  unfolding argv_copy_def by (rule argv_copy_into_c_str) simp

lemma argv_push_back_all_pointers:
  "pointers (argv_push_back_all render ts a) = pointers a @ map (\<lambda>t. c_str (render t)) ts"
  by (induction ts arbitrary: a) (simp_all add: argv_push_back_as_def argv_push_back_def argv_copy_c_str)

lemma argv_of_pointers: "pointers (argv_of render t ts) = map (\<lambda>t. c_str (render t)) (t # ts)"
  by (simp add: argv_of_def argv_push_back_all_pointers argv_push_back_as_def argv_push_back_def argv_copy_c_str
      argv_default_def)

lemma exec_args_pointers:
  "(\<forall>p \<in> set ps. NUL \<in> set p) \<Longrightarrow> exec_args (map Some ps @ [None]) = Some (map c_string ps)"
  by (induction ps) simp_all

lemma c_string_c_str: "NUL \<notin> set str \<Longrightarrow> c_string (c_str str) = str"
  by (induction str) (auto simp: c_string_def c_str_def)

lemma c_string_prefix: "c_string (c_str str) = takeWhile (\<lambda>c. c \<noteq> NUL) str"
  by (induction str) (simp_all add: c_string_def c_str_def)

end
