(* ===== verification/Streams.thy ===== *)
theory Streams
  imports Pipe Argv
begin

text \<open>
  The standard streams of a child process: \<^verbatim>\<open>stream_descriptors\<close>, the classes derived from
  \<^verbatim>\<open>stream\<close> with their \<^verbatim>\<open>open\<close>, and \<^verbatim>\<open>streams\<close>, which
  stream goes where. A pointer to a stream is an option. The virtual \<^verbatim>\<open>open\<close> is a case
  distinction on the class.
\<close>

record stream_descriptors =
  sd_read_fd :: int
  sd_write_fd :: int

definition stream_descriptors_default :: stream_descriptors where
  "stream_descriptors_default = \<lparr>sd_read_fd = closed_fd, sd_write_fd = closed_fd\<rparr>"

definition stream_descriptors_fd :: "int \<Rightarrow> stream_descriptors" where
  "stream_descriptors_fd fd = \<lparr>sd_read_fd = fd, sd_write_fd = fd\<rparr>"

definition stream_descriptors_pipe :: "int \<times> int \<Rightarrow> stream_descriptors" where
  "stream_descriptors_pipe p = \<lparr>sd_read_fd = fst p, sd_write_fd = snd p\<rparr>"

definition sd_bool :: "stream_descriptors \<Rightarrow> bool" where
  "sd_bool d \<longleftrightarrow> sd_read_fd d \<noteq> closed_fd \<and> sd_write_fd d \<noteq> closed_fd"

definition read_fd :: "stream_descriptors \<Rightarrow> int" where
  "read_fd d = sd_read_fd d"

definition write_fd :: "stream_descriptors \<Rightarrow> int" where
  "write_fd d = sd_write_fd d"

datatype stream =
    Pipe_stream
  | Null_stream
  | Path_stream string
  | Fd_stream file_descriptor file_descriptor

definition fd_stream :: "int \<Rightarrow> stream" where
  "fd_stream fd = Fd_stream (int_descriptor_of fd) (int_descriptor_of fd)"

definition fd_stream_pair :: "int \<Rightarrow> int \<Rightarrow> stream" where
  "fd_stream_pair r w = Fd_stream (int_descriptor_of r) (int_descriptor_of w)"

definition path_stream :: "string \<Rightarrow> stream" where
  "path_stream path = Path_stream path"

definition path_stream_path :: "stream \<Rightarrow> string option" where
  "path_stream_path st = (case st of Path_stream path \<Rightarrow> Some path | _ \<Rightarrow> None)"

definition pipe_stream_open :: "('w, 'x) fd_calls_scheme \<Rightarrow> ('w sys, stream_descriptors) cmd" where
  "pipe_stream_open K = bind_c (pipe_fd K 0) (\<lambda>p. ret_c (stream_descriptors_pipe p))"

definition null_stream_open :: "('w, 'x) fd_calls_scheme \<Rightarrow> ('w sys, stream_descriptors) cmd" where
  "null_stream_open K =
     bind_c (open_nocloexec K (Some ''/dev/null'') O_RDWR) (\<lambda>fd. ret_c (stream_descriptors_fd fd))"

definition path_stream_open :: "('w, 'x) fd_calls_scheme \<Rightarrow> string \<Rightarrow> ('w sys, stream_descriptors) cmd" where
  "path_stream_open K path =
     bind_c (open_nocloexec K (Some (c_string (c_str path))) O_RDWR) (\<lambda>fd. ret_c (stream_descriptors_fd fd))"

definition fd_stream_open :: "file_descriptor \<Rightarrow> file_descriptor \<Rightarrow> ('w sys, stream_descriptors) cmd" where
  "fd_stream_open r w = ret_c (stream_descriptors_pipe (id_get r, id_get w))"

definition stream_open :: "('w, 'x) fd_calls_scheme \<Rightarrow> stream \<Rightarrow> ('w sys, stream_descriptors) cmd" where
  "stream_open K st =
     (case st of
        Pipe_stream \<Rightarrow> pipe_stream_open K
      | Null_stream \<Rightarrow> null_stream_open K
      | Path_stream path \<Rightarrow> path_stream_open K path
      | Fd_stream r w \<Rightarrow> fd_stream_open r w)"

record streams =
  in_stream :: "stream option"
  out_stream :: "stream option"
  error_stream :: "stream option"

definition streams_default :: streams where
  "streams_default = \<lparr>in_stream = None, out_stream = None, error_stream = None\<rparr>"

definition streams_in :: "stream \<Rightarrow> streams" where
  "streams_in i = streams_default\<lparr>in_stream := Some i\<rparr>"

definition streams_out :: "stream \<Rightarrow> streams" where
  "streams_out e = streams_default\<lparr>out_stream := Some e\<rparr>"

definition streams_error :: "stream \<Rightarrow> streams" where
  "streams_error e = streams_default\<lparr>error_stream := Some e\<rparr>"

definition streams_in_out :: "stream \<Rightarrow> stream \<Rightarrow> streams" where
  "streams_in_out i e = streams_default\<lparr>in_stream := Some i, out_stream := Some e\<rparr>"

definition streams_in_error :: "stream \<Rightarrow> stream \<Rightarrow> streams" where
  "streams_in_error i e = streams_default\<lparr>in_stream := Some i, error_stream := Some e\<rparr>"

definition streams_out_error :: "stream \<Rightarrow> stream \<Rightarrow> streams" where
  "streams_out_error p e = streams_default\<lparr>out_stream := Some p, error_stream := Some e\<rparr>"

definition streams_all :: "stream \<Rightarrow> stream \<Rightarrow> stream \<Rightarrow> streams" where
  "streams_all i p e = \<lparr>in_stream = Some i, out_stream = Some p, error_stream = Some e\<rparr>"

definition open_or_default ::
  "('w, 'x) fd_calls_scheme \<Rightarrow> stream option \<Rightarrow> ('w sys, stream_descriptors) cmd" where
  "open_or_default K st =
     (case st of None \<Rightarrow> ret_c stream_descriptors_default | Some t \<Rightarrow> stream_open K t)"

end
