(* ===== verification/Status.thy ===== *)
theory Status
  imports Kernel
begin

text \<open>
  \<^verbatim>\<open>linuxpp::subprocess::status\<close>, what a \<^verbatim>\<open>siginfo_t\<close> says about a child
  process, and the accessors that throw when they are asked for something the child did not do.
\<close>

record siginfo =
  si_pid :: int
  si_status :: int
  si_code :: int

definition CLD_EXITED :: int where "CLD_EXITED = 1"
definition CLD_KILLED :: int where "CLD_KILLED = 2"
definition CLD_DUMPED :: int where "CLD_DUMPED = 3"

lemmas cld_consts = CLD_EXITED_def CLD_KILLED_def CLD_DUMPED_def

record status =
  exit_code_raw_member :: int
  exited_member :: bool
  called_exit_member :: bool
  signaled_member :: bool
  dumped_member :: bool

definition status_default :: status where
  "status_default = \<lparr>exit_code_raw_member = 0, exited_member = False, called_exit_member = False,
     signaled_member = False, dumped_member = False\<rparr>"

definition status_of :: "siginfo \<Rightarrow> ('s, status) cmd" where
  "status_of siginfo =
     (if si_pid siginfo = 0 then throw_c (Invalid_argument ''siginfo_t::si_pid is equal to 0'')
      else let dumped = (si_code siginfo = CLD_DUMPED) in
        ret_c \<lparr>exit_code_raw_member = si_status siginfo, exited_member = True,
               called_exit_member = (si_code siginfo = CLD_EXITED),
               signaled_member = (si_code siginfo = CLD_KILLED \<or> dumped), dumped_member = dumped\<rparr>)"

definition status_copy :: "status \<Rightarrow> status" where
  "status_copy other = other"

definition status_move_ctor :: "status \<Rightarrow> status \<times> status" where
  "status_move_ctor other =
     (\<lparr>exit_code_raw_member = exit_code_raw_member other, exited_member = exited_member other,
       called_exit_member = called_exit_member other, signaled_member = signaled_member other,
       dumped_member = dumped_member other\<rparr>, status_default)"

text \<open>The objects are cells of a store, so that \<open>a = b\<close> is the assignment of an object to itself.\<close>

definition status_move_assign :: "'o \<Rightarrow> 'o \<Rightarrow> ('o \<Rightarrow> status) \<Rightarrow> ('o \<Rightarrow> status)" where
  "status_move_assign a b st =
     (if a = b then st else (st(a := status_copy (st b)))(b := status_default))"

definition exited :: "status \<Rightarrow> bool" where
  "exited t = exited_member t"

definition status_bool :: "status \<Rightarrow> bool" where
  "status_bool t = exited t"

definition called_exit :: "status \<Rightarrow> bool" where
  "called_exit t = called_exit_member t"

definition signaled :: "status \<Rightarrow> bool" where
  "signaled t = signaled_member t"

definition dumped :: "status \<Rightarrow> bool" where
  "dumped t = dumped_member t"

definition status_signal :: "status \<Rightarrow> ('s, int) cmd" where
  "status_signal t =
     (if \<not> signaled t then throw_c (Logic_error ''subprocess was not signaled'')
      else ret_c (exit_code_raw_member t))"

definition exit_code :: "status \<Rightarrow> ('s, int) cmd" where
  "exit_code t =
     (if \<not> called_exit t then throw_c (Logic_error ''subprocess does not have an exit code'')
      else ret_c (exit_code_raw_member t))"

definition exit_code_raw :: "status \<Rightarrow> ('s, int) cmd" where
  "exit_code_raw t =
     (if \<not> exited_member t \<and> \<not> signaled t
      then throw_c (Logic_error ''subprocess does not have a raw exit code'')
      else ret_c (exit_code_raw_member t))"

lemmas status_defs = status_default_def status_of_def status_bool_def exited_def called_exit_def signaled_def
  dumped_def status_signal_def exit_code_def exit_code_raw_def

text \<open>
  The well-formed states of a status, which every way to make one gives: before the exit all is at
  its default; afterwards the child called exit or was killed, never both, and a core dump means that it
  was killed.
\<close>

definition status_wf :: "status \<Rightarrow> bool" where
  "status_wf t \<longleftrightarrow> (\<not> exited_member t \<longrightarrow> t = status_default)
     \<and> \<not> (called_exit_member t \<and> signaled_member t) \<and> (dumped_member t \<longrightarrow> signaled_member t)"

lemma status_default_wf [simp]: "status_wf status_default"
  by (simp add: status_wf_def status_default_def)

lemma status_of_wf: "status_of i s = (Ok t, s') \<Longrightarrow> status_wf t \<and> exited t"
  by (auto simp: status_wf_def status_defs cld_consts cmd_simps Let_def split: if_splits)

subsection \<open>Properties\<close>

text \<open>
  C30. A status made from a \<^verbatim>\<open>siginfo_t\<close> is well formed and lets exactly what was reported be
  read: the exit code of a child that exited and the signal of one that was killed, each accessor throwing in every
  other case; a report without a pid is rejected, and on a default status every accessor throws.
  \<^verbatim>\<open>exit_code\<close> returns the reported value as it is, also when it is not within the 8 bits its
  documentation promises, and so the same as \<^verbatim>\<open>exit_code_raw\<close>. Moves, also onto itself, keep the
  report and leave the default behind.
\<close>

theorem status_reports:
  "(si_pid i = 0 \<longrightarrow> status_of i s = (Throw (Invalid_argument ''siginfo_t::si_pid is equal to 0''), s))
   \<and> (si_pid i \<noteq> 0 \<longrightarrow> (\<exists>t. status_of i s = (Ok t, s) \<and> status_wf t \<and> status_bool t
     \<and> exit_code t s = (if si_code i = CLD_EXITED then (Ok (si_status i), s)
                        else (Throw (Logic_error ''subprocess does not have an exit code''), s))
     \<and> (exit_code t s = (Ok (si_status i mod 256), s)
          \<longleftrightarrow> si_code i = CLD_EXITED \<and> 0 \<le> si_status i \<and> si_status i < 256)
     \<and> status_signal t s = (if si_code i \<in> {CLD_KILLED, CLD_DUMPED} then (Ok (si_status i), s)
                            else (Throw (Logic_error ''subprocess was not signaled''), s))
     \<and> (dumped t \<longleftrightarrow> si_code i = CLD_DUMPED) \<and> exit_code_raw t s = (Ok (si_status i), s)
     \<and> (\<forall>st a b. (\<forall>x. status_wf (st x)) \<longrightarrow>
          (\<forall>x. status_wf (status_move_assign a b (st(b := t)) x)) \<and> status_move_assign a b (st(b := t)) a = t)
     \<and> status_move_ctor t = (t, status_default)))
   \<and> \<not> status_bool status_default \<and> \<not> dumped status_default
   \<and> exit_code status_default s = (Throw (Logic_error ''subprocess does not have an exit code''), s)
   \<and> status_signal status_default s = (Throw (Logic_error ''subprocess was not signaled''), s)
   \<and> exit_code_raw status_default s = (Throw (Logic_error ''subprocess does not have a raw exit code''), s)"
proof -
  have "x = x mod 256 \<longleftrightarrow> 0 \<le> x \<and> x < 256" for x :: int
    using pos_mod_bound [of 256 x] pos_mod_sign [of 256 x] mod_pos_pos_trivial [of x 256] by auto
  then show ?thesis
    by (auto simp: status_wf_def status_defs cld_consts cmd_simps Let_def status_move_assign_def status_copy_def
        status_move_ctor_def)
qed

theorem status_reports_witness:
  "\<exists>t. status_of \<lparr>si_pid = 7, si_status = 300, si_code = CLD_EXITED\<rparr> () = (Ok t, ()) \<and> exit_code t () = (Ok 300, ())
     \<and> exit_code t () \<noteq> (Ok (300 mod 256), ())"
  using status_reports [of "\<lparr>si_pid = 7, si_status = 300, si_code = CLD_EXITED\<rparr>" "()"]
  by (auto simp: cld_consts)

end
