(* ===== verification/Child.thy ===== *)
theory Child
  imports Streams Events Status
begin

text \<open>
  What the child process of \<^verbatim>\<open>popen\<close> runs between \<^verbatim>\<open>clone\<close> and
  \<^verbatim>\<open>execve\<close> (the static functions of \<^verbatim>\<open>popen.cpp\<close>). The child shares
  the memory of its parent and has its own descriptor table: its state is the atomic
  \<^verbatim>\<open>child_status\<close> and the system as the child sees it. None of this code throws. An
  \<^verbatim>\<open>execve\<close> that succeeds does not return. The loop over a directory stream ends when the
  stream does: \<open>None\<close> is a loop that runs forever.
\<close>

datatype child_end = Child_returns int | Child_execs

type_synonym 'w child_state = "int \<times> 'w sys"

record 'w proc_calls = "'w ev_calls" +
  sys_dup2 :: "int \<Rightarrow> int \<Rightarrow> ('w, int) syscall"
  sys_opendir :: "string \<Rightarrow> ('w, addr option) syscall"
  sys_dirfd :: "addr \<Rightarrow> ('w, int) syscall"
  sys_readdir :: "addr \<Rightarrow> ('w, string option) syscall"
  sys_closedir :: "addr \<Rightarrow> ('w, int) syscall"
  sys_getrlimit_nofile :: "('w, int \<times> uint64) syscall"
  sys_execve :: "string \<Rightarrow> char list option list \<Rightarrow> char list option list \<Rightarrow> ('w, int option) syscall"
  sys_clone :: "addr \<Rightarrow> int \<Rightarrow> ('w child_state \<Rightarrow> (child_end \<times> 'w child_state) option) \<Rightarrow> int
     \<Rightarrow> 'w sys \<Rightarrow> ((int \<times> int) \<times> 'w sys) option"
  sys_waitid :: "int \<Rightarrow> int \<Rightarrow> int \<Rightarrow> siginfo \<Rightarrow> ('w, int \<times> siginfo) syscall"
  sys_kill :: "int \<Rightarrow> int \<Rightarrow> ('w, int) syscall"

definition STDIN_FILENO :: int where "STDIN_FILENO = 0"
definition STDOUT_FILENO :: int where "STDOUT_FILENO = 1"
definition STDERR_FILENO :: int where "STDERR_FILENO = 2"
definition RLIM_INFINITY :: uint64 where "RLIM_INFINITY = - 1"

lemmas fileno_consts = STDIN_FILENO_def STDOUT_FILENO_def STDERR_FILENO_def

text \<open>
  \<^verbatim>\<open>subprocess_descriptor\<close>: its pointer to \<^verbatim>\<open>child_status\<close> is the first
  component of the child's state, and its \<^verbatim>\<open>exec\<close> is always \<open>popen_execve\<close>.
\<close>

record subprocess_descriptor =
  sd_executable :: string
  sd_argv :: "char list option list"
  sd_stdin :: stream_descriptors
  sd_stdout :: stream_descriptors
  sd_stderr :: stream_descriptors

definition popen_execve ::
  "('w, 'x) proc_calls_scheme \<Rightarrow> subprocess_descriptor \<Rightarrow> 'w child_state \<Rightarrow> child_end \<times> 'w child_state" where
  "popen_execve K policy = (\<lambda>(child_status, s).
     case sys_execve K (c_string (c_str (sd_executable policy))) (sd_argv policy) [None] s of
       (None, s') \<Rightarrow> (Child_execs, (child_status, s'))
     | (Some ret, s') \<Rightarrow> (Child_returns 1, (if ret = - 1 then errno s' else child_status, s')))"

definition handle_child_stream ::
  "('w, 'x) proc_calls_scheme \<Rightarrow> int \<Rightarrow> int \<Rightarrow> int \<Rightarrow> 'w child_state \<Rightarrow> bool \<times> 'w child_state" where
  "handle_child_stream K owned_fd other_fd new_fd = (\<lambda>(child_status, s).
     let s1 = (if other_fd \<noteq> owned_fd then snd (sys_close K other_fd s) else s)
     in case sys_dup2 K owned_fd new_fd s1 of (ret, s2) \<Rightarrow>
          if ret = - 1 then (False, (errno s2, s2))
          else (True, (child_status, snd (sys_close K owned_fd s2))))"

text \<open>
  One turn of the loop closes the descriptor the entry names, and reads the next entry. The text to number
  conversion \<open>strtoi\<close> is that of \<^verbatim>\<open>ndgpp::strtoi\<close>.
\<close>

definition close_entry ::
  "('w, 'x) proc_calls_scheme \<Rightarrow> (string \<Rightarrow> int option) \<Rightarrow> int \<Rightarrow> string \<Rightarrow> 'w sys \<Rightarrow> 'w sys" where
  "close_entry K strtoi dirfd d_name s =
     (case strtoi d_name of
        None \<Rightarrow> s
      | Some fd \<Rightarrow>
          if fd \<noteq> STDIN_FILENO \<and> fd \<noteq> STDOUT_FILENO \<and> fd \<noteq> STDERR_FILENO \<and> fd \<noteq> dirfd
          then snd (sys_close K fd s) else s)"

partial_function (option) close_entries ::
  "('w, 'x) proc_calls_scheme \<Rightarrow> (string \<Rightarrow> int option) \<Rightarrow> addr \<Rightarrow> int \<Rightarrow> string \<Rightarrow> 'w sys
    \<Rightarrow> (int \<times> 'w sys) option" where
  "close_entries K strtoi dir dirfd d_name s =
     (case sys_readdir K dir ((close_entry K strtoi dirfd d_name s)\<lparr>errno := 0\<rparr>) of
        (None, s') \<Rightarrow> Some (if errno s' \<noteq> 0 then errno s' else 0, s')
      | (Some next_name, s') \<Rightarrow> close_entries K strtoi dir dirfd next_name s')"

definition close_all_descriptors_via_proc ::
  "('w, 'x) proc_calls_scheme \<Rightarrow> (string \<Rightarrow> int option) \<Rightarrow> 'w sys \<Rightarrow> (int \<times> 'w sys) option" where
  "close_all_descriptors_via_proc K strtoi s =
     (case sys_opendir K ''/proc/self/fd'' s of
        (None, s1) \<Rightarrow> Some (errno s1, s1)
      | (Some dir, s1) \<Rightarrow>
          map_option (\<lambda>(r, s'). (r, snd (sys_closedir K dir s')))
            (case sys_dirfd K dir s1 of (dirfd, s2) \<Rightarrow>
             if dirfd = - 1 then Some (errno s2, s2)
             else case sys_readdir K dir (s2\<lparr>errno := 0\<rparr>) of
                    (None, s3) \<Rightarrow> Some (if errno s3 \<noteq> 0 then errno s3 else ENOENT, s3)
                  | (Some d_name, s3) \<Rightarrow> close_entries K strtoi dir dirfd d_name s3))"

text \<open>
  The fallback: the loop counter is an \<^verbatim>\<open>int\<close>, the limit is narrowed to one. The result is 0
  or the value the handler returns.
\<close>

definition close_one :: "('w, 'x) proc_calls_scheme \<Rightarrow> int \<Rightarrow> 'w sys \<Rightarrow> 'w sys" where
  "close_one K i s =
     (if i = STDIN_FILENO \<or> i = STDOUT_FILENO \<or> i = STDERR_FILENO then s else snd (sys_close K i s))"

definition close_all_by_limit ::
  "('w, 'x) proc_calls_scheme \<Rightarrow> 'w child_state \<Rightarrow> int \<times> 'w child_state" where
  "close_all_by_limit K = (\<lambda>(child_status, s).
     case sys_getrlimit_nofile K s of ((ret, rlim_cur), s1) \<Rightarrow>
       if ret \<noteq> 0 then (6, (errno s1, s1))
       else if rlim_cur \<noteq> RLIM_INFINITY
       then (0, (child_status, fold (close_one K) (map int [0..<nat (narrow_int (uint rlim_cur))]) s1))
       else (0, (child_status, s1)))"

text \<open>The streams, each of them only when it is present: 0, or the value the handler returns.\<close>

definition child_stream ::
  "('w, 'x) proc_calls_scheme \<Rightarrow> bool \<Rightarrow> int \<Rightarrow> int \<Rightarrow> int \<Rightarrow> 'w child_state \<Rightarrow> bool \<times> 'w child_state" where
  "child_stream K present owned_fd other_fd new_fd c =
     (if present then handle_child_stream K owned_fd other_fd new_fd c else (True, c))"

definition child_streams ::
  "('w, 'x) proc_calls_scheme \<Rightarrow> subprocess_descriptor \<Rightarrow> 'w child_state \<Rightarrow> int \<times> 'w child_state" where
  "child_streams K policy c =
     (case child_stream K (sd_bool (sd_stdin policy)) (read_fd (sd_stdin policy)) (write_fd (sd_stdin policy)) 0 c of
        (False, c1) \<Rightarrow> (2, c1)
      | (True, c1) \<Rightarrow>
          (case child_stream K (sd_bool (sd_stdout policy)) (write_fd (sd_stdout policy)) (read_fd (sd_stdout policy)) 1 c1 of
             (False, c2) \<Rightarrow> (3, c2)
           | (True, c2) \<Rightarrow>
               (case child_stream K (sd_bool (sd_stderr policy)) (write_fd (sd_stderr policy)) (read_fd (sd_stderr policy)) 2 c2 of
                  (False, c3) \<Rightarrow> (4, c3)
                | (True, c3) \<Rightarrow> (0, c3))))"

text \<open>Unblocking the signals (\<open>all_signals\<close> is what \<^verbatim>\<open>sigfillset\<close> gives) and the exec.\<close>

definition child_exec ::
  "('w, 'x) proc_calls_scheme \<Rightarrow> sigset \<Rightarrow> subprocess_descriptor \<Rightarrow> 'w child_state \<Rightarrow> child_end \<times> 'w child_state" where
  "child_exec K all_signals policy = (\<lambda>(child_status, s).
     case sys_sigmask K Sig_unblock all_signals s of ((sigmask_errno, _), s1) \<Rightarrow>
       if sigmask_errno \<noteq> 0 then (Child_returns 5, (sigmask_errno, s1))
       else popen_execve K policy (child_status, s1))"

definition clone_handler ::
  "('w, 'x) proc_calls_scheme \<Rightarrow> (string \<Rightarrow> int option) \<Rightarrow> sigset \<Rightarrow> subprocess_descriptor
    \<Rightarrow> 'w child_state \<Rightarrow> (child_end \<times> 'w child_state) option" where
  "clone_handler K strtoi all_signals policy c =
     (case child_streams K policy c of (code, (child_status, s)) \<Rightarrow>
      if code \<noteq> 0 then Some (Child_returns code, (child_status, s))
      else case close_all_descriptors_via_proc K strtoi s of
             None \<Rightarrow> None
           | Some (close_via_proc, s1) \<Rightarrow>
               (case (if close_via_proc \<noteq> 0 then close_all_by_limit K (child_status, s1)
                      else (0, (child_status, s1))) of (code, c') \<Rightarrow>
                if code \<noteq> 0 then Some (Child_returns code, c')
                else Some (child_exec K all_signals policy c')))"

end
