(* ===== verification/Popen.thy ===== *)
theory Popen
  imports Child
begin

text \<open>
  \<^verbatim>\<open>linuxpp::subprocess::popen\<close> in the parent, with \<^verbatim>\<open>waitid\<close>,
  \<^verbatim>\<open>stack\<close> and the static objects of \<^verbatim>\<open>popen.cpp\<close>. The child runs
  while its parent is suspended (\<^verbatim>\<open>CLONE_VFORK\<close>), so \<^verbatim>\<open>clone\<close> is a
  parameter that takes the child's code and returns the value the shared \<^verbatim>\<open>child_status\<close> has
  afterwards; \<open>None\<close> when the child never ends. \<^verbatim>\<open>clone_mutex\<close> only orders whole calls.
\<close>

definition P_PID :: int where "P_PID = 1"
definition WNOHANG :: int where "WNOHANG = 1"
definition WEXITED :: int where "WEXITED = 4"
definition CLONE_VM :: int where "CLONE_VM = 256"
definition CLONE_VFORK :: int where "CLONE_VFORK = 16384"
definition SIGCHLD :: int where "SIGCHLD = 17"

subsection \<open>waitid\<close>

definition waitid ::
  "('w, 'x) proc_calls_scheme \<Rightarrow> int \<Rightarrow> int \<Rightarrow> int \<Rightarrow> (siginfo \<times> 'w sys, bool) cmd" where
  "waitid K idtype wid options =
     then_c (modify_c (\<lambda>(i, s). (i\<lparr>si_pid := 0\<rparr>, s)))
     (bind_c (gets_c fst) (\<lambda>i.
      bind_c (beside (call (sys_waitid K idtype wid options i))) (\<lambda>(ret, i').
      then_c (modify_c (\<lambda>(_, s). (i', s)))
      (if ret = - 1 then beside (throw_errno ''waitid failed'') else ret_c (si_pid i' \<noteq> 0)))))"

definition zero_siginfo :: siginfo where
  "zero_siginfo = \<lparr>si_pid = 0, si_status = 0, si_code = 0\<rparr>"

subsection \<open>stack\<close>

record stack =
  stack_size_member :: size_t
  stack_memory :: addr

text \<open>\<open>mem0\<close> is the address that \<^verbatim>\<open>new char[size]\<close> returns.\<close>

definition stack_ctor :: "addr \<Rightarrow> size_t \<Rightarrow> ('s, stack) cmd" where
  "stack_ctor mem0 n =
     (if n = 0 then throw_c (Invalid_argument ''zero sized stacks are not allowed'')
      else ret_c \<lparr>stack_size_member = n, stack_memory = mem0\<rparr>)"

definition stack_get :: "stack \<Rightarrow> addr" where
  "stack_get st = stack_memory st + stack_size_member st"

definition stack_size :: size_t where
  "stack_size = 1024 * 1024"

subsection \<open>The object\<close>

record popen =
  child_pid :: pid
  stdin_stream :: "unit unique_fd"
  stdout_stream :: "unit unique_fd"
  stderr_stream :: "unit unique_fd"
  child_status :: status

record popen_globals =
  signal_mutex_object :: signal_mutex
  child_stack :: "stack option"

record proc_env =
  strtoi :: "string \<Rightarrow> int option"
  all_signals :: sigset
  new_stack :: addr

definition popen_default :: popen where
  "popen_default =
     \<lparr>child_pid = int_descriptor_default invalid_pid, stdin_stream = unique_fd_default (),
      stdout_stream = unique_fd_default (), stderr_stream = unique_fd_default (), child_status = status_default\<rparr>"

definition popen_move_ctor :: "popen \<Rightarrow> popen \<times> popen" where
  "popen_move_ctor p =
     (case (id_move_ctor invalid_pid (child_pid p), ufd_move_ctor (stdin_stream p), ufd_move_ctor (stdout_stream p),
            ufd_move_ctor (stderr_stream p), status_move_ctor (child_status p)) of
        ((pid, pid'), (i, i'), (q, q'), (e, e'), (t, t')) \<Rightarrow>
          (\<lparr>child_pid = pid, stdin_stream = i, stdout_stream = q, stderr_stream = e, child_status = t\<rparr>,
           \<lparr>child_pid = pid', stdin_stream = i', stdout_stream = q', stderr_stream = e', child_status = t'\<rparr>))"

definition popen_move_assign :: "'o \<Rightarrow> 'o \<Rightarrow> ('o \<Rightarrow> popen) \<Rightarrow> ('o \<Rightarrow> popen)" where
  "popen_move_assign a b st =
     (let pids = id_move_assign invalid_pid a b (\<lambda>x. child_pid (st x));
          ins = ufd_move_assign a b (\<lambda>x. stdin_stream (st x));
          outs = ufd_move_assign a b (\<lambda>x. stdout_stream (st x));
          errs = ufd_move_assign a b (\<lambda>x. stderr_stream (st x));
          sts = status_move_assign a b (\<lambda>x. child_status (st x))
      in (\<lambda>x. \<lparr>child_pid = pids x, stdin_stream = ins x, stdout_stream = outs x, stderr_stream = errs x,
              child_status = sts x\<rparr>))"

definition popen_swap :: "popen \<Rightarrow> popen \<Rightarrow> popen \<times> popen" where
  "popen_swap p q =
     (case (id_swap (child_pid p) (child_pid q), ufd_swap (stdin_stream p) (stdin_stream q),
            ufd_swap (stdout_stream p) (stdout_stream q), ufd_swap (stderr_stream p) (stderr_stream q)) of
        ((a, a'), (i, i'), (o1, o1'), (e, e')) \<Rightarrow>
          (\<lparr>child_pid = a, stdin_stream = i, stdout_stream = o1, stderr_stream = e, child_status = child_status q\<rparr>,
           \<lparr>child_pid = a', stdin_stream = i', stdout_stream = o1', stderr_stream = e', child_status = child_status p\<rparr>))"

definition popen_pid :: "popen \<Rightarrow> pid" where
  "popen_pid p = child_pid p"

definition popen_status :: "popen \<Rightarrow> status" where
  "popen_status p = child_status p"

definition popen_stdin :: "popen \<Rightarrow> unit unique_fd" where
  "popen_stdin p = stdin_stream p"

definition popen_stdout :: "popen \<Rightarrow> unit unique_fd" where
  "popen_stdout p = stdout_stream p"

definition popen_stderr :: "popen \<Rightarrow> unit unique_fd" where
  "popen_stderr p = stderr_stream p"

definition popen_bool :: "popen \<Rightarrow> bool" where
  "popen_bool p \<longleftrightarrow> id_bool invalid_pid (child_pid p)"

subsection \<open>Spawning\<close>

text \<open>The parent's side of a stream: the child's end is closed and the other end is kept.\<close>

definition handle_parent_stream :: "('w, 'x) proc_calls_scheme \<Rightarrow> int \<Rightarrow> int \<Rightarrow> ('w, int) syscall" where
  "handle_parent_stream K parent_fd child_fd = (\<lambda>s.
     (if parent_fd \<noteq> child_fd then parent_fd else closed_fd, snd (sys_close K child_fd s)))"

definition keep_parent_end ::
  "('w, 'x) proc_calls_scheme \<Rightarrow> bool \<Rightarrow> int \<Rightarrow> int \<Rightarrow> unit unique_fd \<Rightarrow> ('w, unit unique_fd) syscall" where
  "keep_parent_end K present parent_fd child_fd u = (\<lambda>s.
     if present
     then case handle_parent_stream K parent_fd child_fd s of (fd, s1) \<Rightarrow> ufd_reset (default_close K) fd u s1
     else (u, s))"

definition keep_parent_ends ::
  "('w, 'x) proc_calls_scheme \<Rightarrow> stream_descriptors \<Rightarrow> stream_descriptors \<Rightarrow> stream_descriptors
    \<Rightarrow> popen \<Rightarrow> ('w, popen) syscall" where
  "keep_parent_ends K i q e p = (\<lambda>s.
     case keep_parent_end K (sd_bool i) (write_fd i) (read_fd i) (stdin_stream p) s of (ui, s1) \<Rightarrow>
     case keep_parent_end K (sd_bool q) (read_fd q) (write_fd q) (stdout_stream p) s1 of (uo, s2) \<Rightarrow>
     case keep_parent_end K (sd_bool e) (read_fd e) (write_fd e) (stderr_stream p) s2 of (ue, s3) \<Rightarrow>
       (p\<lparr>stdin_stream := ui, stdout_stream := uo, stderr_stream := ue\<rparr>, s3))"

definition command_line :: "string \<Rightarrow> argv \<Rightarrow> char list option list" where
  "command_line executable args = Some (c_str executable) # map Some (pointers args) @ [None]"

definition open_streams ::
  "('w, 'x) proc_calls_scheme \<Rightarrow> streams
    \<Rightarrow> ('w sys, stream_descriptors \<times> stream_descriptors \<times> stream_descriptors) cmd" where
  "open_streams K ss =
     bind_c (open_or_default K (in_stream ss)) (\<lambda>i.
     bind_c (open_or_default K (out_stream ss)) (\<lambda>q.
     bind_c (open_or_default K (error_stream ss)) (\<lambda>e. ret_c (i, q, e))))"

text \<open>The failed child is waited for; an exception of the wait is swallowed.\<close>

definition reap_failed_child :: "('w, 'x) proc_calls_scheme \<Rightarrow> int \<Rightarrow> 'w sys \<Rightarrow> 'w sys" where
  "reap_failed_child K child s = snd (snd (waitid K P_PID child WEXITED (zero_siginfo, s)))"

definition after_clone ::
  "('w, 'x) proc_calls_scheme \<Rightarrow> stream_descriptors \<times> stream_descriptors \<times> stream_descriptors \<Rightarrow> int \<Rightarrow> int
    \<Rightarrow> (popen \<times> 'w sys, pid) cmd" where
  "after_clone K ends ret exec_status = (\<lambda>(p, s).
     if ret = - 1 then (Throw (System_error (errno s) ''clone failed''), (p, s))
     else if exec_status \<noteq> 0
     then (Throw (System_error exec_status ''subprocess execution failed''), (p, reap_failed_child K ret s))
     else case ends of (i, q, e) \<Rightarrow>
       (case keep_parent_ends K i q e p s of (p', s') \<Rightarrow> (Ok (int_descriptor_of ret), (p', s'))))"

definition ensure_stack :: "proc_env \<Rightarrow> (popen_globals \<times> 'w sys, stack) cmd" where
  "ensure_stack E =
     bind_c (gets_c (\<lambda>(g, _). child_stack g)) (\<lambda>st.
     case st of
       Some st \<Rightarrow> ret_c st
     | None \<Rightarrow>
         bind_c (stack_ctor (new_stack E) stack_size) (\<lambda>st.
         then_c (modify_c (\<lambda>(g, s). (g\<lparr>child_stack := Some st\<rparr>, s))) (ret_c st)))"

definition prepare_clone ::
  "('w, 'x) proc_calls_scheme \<Rightarrow> proc_env \<Rightarrow> streams
    \<Rightarrow> (popen_globals \<times> 'w sys, stack \<times> stream_descriptors \<times> stream_descriptors \<times> stream_descriptors) cmd" where
  "prepare_clone K E ss =
     bind_c (ensure_stack E) (\<lambda>st. bind_c (beside (open_streams K ss)) (\<lambda>ends. ret_c (st, ends)))"

text \<open>What \<^verbatim>\<open>clone\<close> does while it holds its locks.\<close>

definition clone_locked ::
  "('w, 'x) proc_calls_scheme \<Rightarrow> proc_env \<Rightarrow> string \<Rightarrow> argv \<Rightarrow> streams
    \<Rightarrow> popen \<times> popen_globals \<times> 'w sys \<Rightarrow> (pid res \<times> popen \<times> popen_globals \<times> 'w sys) option" where
  "clone_locked K E executable args ss = (\<lambda>(p, g, s).
     case prepare_clone K E ss (g, s) of
       (Ok (st, i, q, e), (g1, s1)) \<Rightarrow>
         (case sys_clone K (stack_get st) ((CLONE_VM OR CLONE_VFORK) OR SIGCHLD)
                 (clone_handler K (strtoi E) (all_signals E)
                    \<lparr>sd_executable = executable, sd_argv = command_line executable args,
                     sd_stdin = i, sd_stdout = q, sd_stderr = e\<rparr>) 0 s1 of
            None \<Rightarrow> None
          | Some ((ret, exec_status), s2) \<Rightarrow>
              (case after_clone K (i, q, e) ret exec_status (p, s2) of
                 (r, (p', s3)) \<Rightarrow> Some (r, (p', g1, s3))))
     | (Throw e, (g1, s1)) \<Rightarrow> Some (Throw e, (p, g1, s1))
     | (Undefined, (g1, s1)) \<Rightarrow> Some (Undefined, (p, g1, s1))
     | (Terminated, (g1, s1)) \<Rightarrow> Some (Terminated, (p, g1, s1)))"

definition unlock_signals ::
  "('w, 'x) proc_calls_scheme \<Rightarrow> 'a res \<times> popen \<times> popen_globals \<times> 'w sys
    \<Rightarrow> 'a res \<times> popen \<times> popen_globals \<times> 'w sys" where
  "unlock_signals K = (\<lambda>(r, (p, g, s)).
     case signal_mutex_unlock K (signal_mutex_object g, s) of
       (_, (m, s')) \<Rightarrow> (r, (p, g\<lparr>signal_mutex_object := m\<rparr>, s')))"

definition popen_clone ::
  "('w, 'x) proc_calls_scheme \<Rightarrow> proc_env \<Rightarrow> string \<Rightarrow> argv \<Rightarrow> streams
    \<Rightarrow> popen \<times> popen_globals \<times> 'w sys \<Rightarrow> (pid res \<times> popen \<times> popen_globals \<times> 'w sys) option" where
  "popen_clone K E executable args ss = (\<lambda>(p, g, s).
     case signal_mutex_lock K (signal_mutex_object g, s) of
       (Ok _, (m, s1)) \<Rightarrow>
         map_option (unlock_signals K)
           (clone_locked K E executable args ss (p, g\<lparr>signal_mutex_object := m\<rparr>, s1))
     | (Throw e, (m, s1)) \<Rightarrow> Some (Throw e, (p, g\<lparr>signal_mutex_object := m\<rparr>, s1))
     | (Undefined, (m, s1)) \<Rightarrow> Some (Undefined, (p, g, s1))
     | (Terminated, (m, s1)) \<Rightarrow> Some (Terminated, (p, g, s1)))"

text \<open>
  The constructor: a default object whose pid is assigned from the result. When \<open>popen_clone\<close> throws, the members, which
  own nothing, are destroyed.
\<close>

definition popen_ctor ::
  "('w, 'x) proc_calls_scheme \<Rightarrow> proc_env \<Rightarrow> string \<Rightarrow> argv \<Rightarrow> streams
    \<Rightarrow> popen_globals \<times> 'w sys \<Rightarrow> (popen res \<times> popen_globals \<times> 'w sys) option" where
  "popen_ctor K E executable args ss = (\<lambda>(g, s).
     case popen_clone K E executable args ss (popen_default, g, s) of
       None \<Rightarrow> None
     | Some (Ok pid, (p, g', s')) \<Rightarrow> Some (Ok (p\<lparr>child_pid := pid\<rparr>), (g', s'))
     | Some (Throw e, (p, g', s')) \<Rightarrow> Some (Throw e, (g', s'))
     | Some (Undefined, (p, g', s')) \<Rightarrow> Some (Undefined, (g', s'))
     | Some (Terminated, (p, g', s')) \<Rightarrow> Some (Terminated, (g', s')))"

subsection \<open>The life of the object\<close>

text \<open>The order in which the members of the tuple are destroyed is that of libstdc++.\<close>

definition popen_destroy :: "('w, 'x) proc_calls_scheme \<Rightarrow> popen \<Rightarrow> ('w sys, unit) cmd" where
  "popen_destroy K p =
     (if id_bool invalid_pid (popen_pid p) then terminate_c
      else then_c (call (ufd_destroy (default_close K) (stdin_stream p)))
          (then_c (call (ufd_destroy (default_close K) (stdout_stream p)))
          (then_c (call (ufd_destroy (default_close K) (stderr_stream p))) (ret_c ()))))"

definition popen_wait_options ::
  "('w, 'x) proc_calls_scheme \<Rightarrow> int \<Rightarrow> (popen \<times> 'w sys, status) cmd" where
  "popen_wait_options K options = (\<lambda>(p, s).
     if \<not> id_bool invalid_pid (popen_pid p) then (Ok (child_status p), (p, s))
     else case waitid K P_PID (id_get (child_pid p)) options (zero_siginfo, s) of
            (Ok child_exited, (siginfo, s1)) \<Rightarrow>
              if child_exited
              then (let p1 = p\<lparr>child_pid := snd (id_release invalid_pid (child_pid p))\<rparr>
                    in case status_of siginfo s1 of
                         (Ok t, s2) \<Rightarrow> (Ok t, (p1\<lparr>child_status := t\<rparr>, s2))
                       | (Throw e, s2) \<Rightarrow> (Throw e, (p1, s2))
                       | (Undefined, s2) \<Rightarrow> (Undefined, (p1, s2))
                       | (Terminated, s2) \<Rightarrow> (Terminated, (p1, s2)))
              else (Ok (child_status p), (p, s1))
          | (Throw e, (siginfo, s1)) \<Rightarrow> (Throw e, (p, s1))
          | (Undefined, (siginfo, s1)) \<Rightarrow> (Undefined, (p, s1))
          | (Terminated, (siginfo, s1)) \<Rightarrow> (Terminated, (p, s1)))"

definition popen_wait :: "('w, 'x) proc_calls_scheme \<Rightarrow> (popen \<times> 'w sys, status) cmd" where
  "popen_wait K = popen_wait_options K WEXITED"

definition popen_poll :: "('w, 'x) proc_calls_scheme \<Rightarrow> (popen \<times> 'w sys, status) cmd" where
  "popen_poll K = popen_wait_options K (WEXITED OR WNOHANG)"

definition popen_signal :: "('w, 'x) proc_calls_scheme \<Rightarrow> int \<Rightarrow> (popen \<times> 'w sys, unit) cmd" where
  "popen_signal K signal =
     bind_c (gets_c fst) (\<lambda>p.
     if \<not> id_bool invalid_pid (popen_pid p) then throw_c (Logic_error ''child pid not set'')
     else bind_c (beside (call (sys_kill K (id_get (child_pid p)) signal))) (\<lambda>ret.
          if ret = - 1 then beside (throw_errno ''failed to send signal to child process'') else ret_c ()))"

end
