(* ===== verification/Child_Props.thy ===== *)
theory Child_Props
  imports Child
begin

text \<open>
  What a process sees of its descriptors: a table from descriptor numbers to open files, each with its
  close-on-exec flag, and the directory stream over \<^verbatim>\<open>/proc/self/fd\<close>. The laws of the
  system calls on the table are named hypotheses, as their manual pages document them. From them: the
  child of \<^verbatim>\<open>popen\<close> executes the program with the standard streams it was asked for and no
  other descriptor, or it reports an error.
\<close>

subsection \<open>Descriptor tables\<close>

type_synonym 'f fd_table = "int \<rightharpoonup> 'f \<times> bool"

record ('w, 'f) fd_view =
  fdt :: "'w \<Rightarrow> 'f fd_table"
  dir_fd :: "'w \<Rightarrow> addr \<Rightarrow> int"
  dir_lists :: "'w \<Rightarrow> addr \<Rightarrow> int \<Rightarrow> bool"
  dir_left :: "'w \<Rightarrow> addr \<Rightarrow> nat"

abbreviation table_of :: "('w, 'f) fd_view \<Rightarrow> 'w sys \<Rightarrow> 'f fd_table" where
  "table_of V s \<equiv> fdt V (world s)"

text \<open>
  \<^verbatim>\<open>close\<close> frees the descriptor, also when it reports an error. \<^verbatim>\<open>dup2\<close> makes the new
  descriptor name the same open file, without close-on-exec, does nothing when both are the same, and
  fails when the old one is not open.
\<close>

definition close_law :: "('w, 'x) fd_calls_scheme \<Rightarrow> ('w, 'f) fd_view \<Rightarrow> bool" where
  "close_law K V \<longleftrightarrow> (\<forall>fd s. table_of V (snd (sys_close K fd s)) = (table_of V s)(fd := None))"

definition dup2_law :: "('w, 'x) proc_calls_scheme \<Rightarrow> ('w, 'f) fd_view \<Rightarrow> bool" where
  "dup2_law K V \<longleftrightarrow> (\<forall>a b s. case sys_dup2 K a b s of (ret, s') \<Rightarrow>
     if ret = - 1 then errno s' \<noteq> 0 \<and> table_of V s' = table_of V s
     else \<exists>f c. table_of V s a = Some (f, c) \<and>
            table_of V s' = (if a = b then table_of V s else (table_of V s)(b \<mapsto> (f, False))))"

text \<open>
  A directory stream over \<^verbatim>\<open>/proc/self/fd\<close>: opening it takes a new descriptor and it lists every
  descriptor that is open then; what becomes of the entries of descriptors closed meanwhile is left open.
\<close>

definition opendir_law :: "('w, 'x) proc_calls_scheme \<Rightarrow> ('w, 'f) fd_view \<Rightarrow> bool" where
  "opendir_law K V \<longleftrightarrow> (\<forall>s. case sys_opendir K ''/proc/self/fd'' s of
     (None, s') \<Rightarrow> errno s' \<noteq> 0 \<and> table_of V s' = table_of V s
   | (Some dir, s') \<Rightarrow> table_of V s (dir_fd V (world s') dir) = None
       \<and> (\<exists>f. table_of V s' = (table_of V s)(dir_fd V (world s') dir \<mapsto> f))
       \<and> (\<forall>fd\<in>dom (table_of V s'). dir_lists V (world s') dir fd))"

definition dirfd_law :: "('w, 'x) proc_calls_scheme \<Rightarrow> ('w, 'f) fd_view \<Rightarrow> bool" where
  "dirfd_law K V \<longleftrightarrow> (\<forall>dir s. case sys_dirfd K dir s of (d, s') \<Rightarrow>
     world s' = world s \<and> (if d = - 1 then errno s' \<noteq> 0 else d = dir_fd V (world s) dir))"

definition readdir_law :: "('w, 'x) proc_calls_scheme \<Rightarrow> (string \<Rightarrow> int option) \<Rightarrow> ('w, 'f) fd_view \<Rightarrow> bool" where
  "readdir_law K strtoi V \<longleftrightarrow> (\<forall>dir s. errno s = 0 \<longrightarrow> (case sys_readdir K dir s of (r, s') \<Rightarrow>
     table_of V s' = table_of V s \<and> dir_fd V (world s') dir = dir_fd V (world s) dir \<and>
     (case r of
        None \<Rightarrow> errno s' = 0 \<longrightarrow> (\<forall>fd. \<not> dir_lists V (world s) dir fd)
      | Some n \<Rightarrow> dir_left V (world s') dir < dir_left V (world s) dir
          \<and> (\<forall>fd. dir_lists V (world s) dir fd \<longrightarrow> strtoi n \<noteq> Some fd \<longrightarrow> dir_lists V (world s') dir fd))))"

definition dir_close_law :: "('w, 'x) proc_calls_scheme \<Rightarrow> ('w, 'f) fd_view \<Rightarrow> bool" where
  "dir_close_law K V \<longleftrightarrow> (\<forall>fd dir s. case sys_close K fd s of (_, s') \<Rightarrow>
     dir_left V (world s') dir \<le> dir_left V (world s) dir \<and> dir_fd V (world s') dir = dir_fd V (world s) dir
     \<and> (\<forall>fd'. fd' \<noteq> fd \<longrightarrow> dir_lists V (world s) dir fd' \<longrightarrow> dir_lists V (world s') dir fd'))"

definition closedir_law :: "('w, 'x) proc_calls_scheme \<Rightarrow> ('w, 'f) fd_view \<Rightarrow> bool" where
  "closedir_law K V \<longleftrightarrow>
     (\<forall>dir s. table_of V (snd (sys_closedir K dir s)) = (table_of V s)(dir_fd V (world s) dir := None))"

text \<open>The limit is one that an \<^verbatim>\<open>int\<close> holds, and every open descriptor is below it.\<close>

definition limit_law :: "('w, 'x) proc_calls_scheme \<Rightarrow> ('w, 'f) fd_view \<Rightarrow> bool" where
  "limit_law K V \<longleftrightarrow> (\<forall>s. case sys_getrlimit_nofile K s of ((ret, lim), s') \<Rightarrow>
     table_of V s' = table_of V s \<and>
     (if ret \<noteq> 0 then errno s' \<noteq> 0
      else uint lim < 2 ^ 31 \<and> (\<forall>fd\<in>dom (table_of V s). 0 \<le> fd \<and> fd < uint lim)))"

definition exec_table :: "'f fd_table \<Rightarrow> 'f fd_table" where
  "exec_table t = (\<lambda>fd. case t fd of Some (f, False) \<Rightarrow> Some (f, False) | _ \<Rightarrow> None)"

definition exec_law :: "('w, 'x) proc_calls_scheme \<Rightarrow> ('w, 'f) fd_view \<Rightarrow> bool" where
  "exec_law K V \<longleftrightarrow>
     (\<forall>how set s. table_of V (snd (sys_sigmask K how set s)) = table_of V s) \<and>
     (\<forall>path args env s. case sys_execve K path args env s of
        (None, s') \<Rightarrow> table_of V s' = exec_table (table_of V s)
      | (Some ret, s') \<Rightarrow> ret = - 1 \<and> errno s' \<noteq> 0)"

definition process_law :: "('w, 'x) proc_calls_scheme \<Rightarrow> (string \<Rightarrow> int option) \<Rightarrow> ('w, 'f) fd_view \<Rightarrow> bool" where
  "process_law K strtoi V \<longleftrightarrow>
     close_law K V \<and> dup2_law K V \<and> opendir_law K V \<and> dirfd_law K V \<and> readdir_law K strtoi V
     \<and> dir_close_law K V \<and> closedir_law K V \<and> limit_law K V \<and> exec_law K V"

lemma close_lawD: "close_law K V \<Longrightarrow> table_of V (snd (sys_close K fd s)) = (table_of V s)(fd := None)"
  by (simp add: close_law_def)

lemma process_lawD:
  assumes "process_law K strtoi V"
  shows "close_law K V" "dup2_law K V" "opendir_law K V" "dirfd_law K V" "readdir_law K strtoi V"
    "dir_close_law K V" "closedir_law K V" "limit_law K V" "exec_law K V"
  using assms by (simp_all add: process_law_def)

subsection \<open>The streams of the child\<close>

lemma handle_child_stream_table:
  assumes laws: "close_law K V" "dup2_law K V" and new: "owned_fd \<noteq> new_fd" "other_fd \<noteq> new_fd"
    and run: "handle_child_stream K owned_fd other_fd new_fd (c, s) = (ok, (c', s'))"
  shows "if ok
     then c' = c \<and> (\<exists>f b. table_of V s owned_fd = Some (f, b)
            \<and> table_of V s' = (table_of V s)(other_fd := None, new_fd \<mapsto> (f, False), owned_fd := None))
     else c' \<noteq> 0"
proof -
  define s1 where "s1 = (if other_fd \<noteq> owned_fd then snd (sys_close K other_fd s) else s)"
  obtain ret s2 where d: "sys_dup2 K owned_fd new_fd s1 = (ret, s2)" by fastforce
  have t1: "table_of V s1 = (if other_fd \<noteq> owned_fd then (table_of V s)(other_fd := None) else table_of V s)"
    using laws by (simp add: s1_def close_lawD)
  from laws(2) d have "if ret = - 1 then errno s2 \<noteq> 0 \<and> table_of V s2 = table_of V s1
     else \<exists>f b. table_of V s1 owned_fd = Some (f, b) \<and>
            table_of V s2 = (if owned_fd = new_fd then table_of V s1 else (table_of V s1)(new_fd \<mapsto> (f, False)))"
    unfolding dup2_law_def by (force split: prod.splits)
  then have "if ret = - 1 then errno s2 \<noteq> 0
     else \<exists>f b. table_of V s1 owned_fd = Some (f, b) \<and> table_of V s2 = (table_of V s1)(new_fd \<mapsto> (f, False))"
    using new by (simp split: if_splits)
  moreover have "table_of V s1 owned_fd = table_of V s owned_fd" by (simp add: t1)
  moreover have "((table_of V s1)(new_fd \<mapsto> x))(owned_fd := None)
      = (table_of V s)(other_fd := None, new_fd \<mapsto> x, owned_fd := None)" for x
    using new by (auto simp: t1 fun_eq_iff)
  moreover have "(ok, (c', s')) = (if ret = - 1 then (False, (errno s2, s2)) else (True, (c, snd (sys_close K owned_fd s2))))"
    using run d by (simp add: handle_child_stream_def s1_def)
  ultimately show ?thesis
    using laws(1) by (cases "ret = - 1") (auto simp: close_lawD)
qed

definition stream_fds :: "stream_descriptors \<Rightarrow> int set" where
  "stream_fds d = (if sd_bool d then {read_fd d, write_fd d} else {})"

definition ends_ok :: "subprocess_descriptor \<Rightarrow> bool" where
  "ends_ok policy \<longleftrightarrow>
     (\<forall>fd \<in> stream_fds (sd_stdin policy) \<union> stream_fds (sd_stdout policy) \<union> stream_fds (sd_stderr policy). 2 < fd)
     \<and> stream_fds (sd_stdin policy) \<inter> stream_fds (sd_stdout policy) = {}
     \<and> stream_fds (sd_stdin policy) \<inter> stream_fds (sd_stderr policy) = {}
     \<and> stream_fds (sd_stdout policy) \<inter> stream_fds (sd_stderr policy) = {}"

text \<open>The table the child is meant to run the program with: \<open>t\<close> is the table of its parent.\<close>

definition wired :: "'f fd_table \<Rightarrow> bool \<Rightarrow> int \<Rightarrow> int \<Rightarrow> ('f \<times> bool) option" where
  "wired t present fd new_fd = (if present then map_option (\<lambda>(f, _). (f, False)) (t fd) else t new_fd)"

definition child_table :: "'f fd_table \<Rightarrow> subprocess_descriptor \<Rightarrow> 'f fd_table" where
  "child_table t policy = (\<lambda>fd.
     if fd = 0 then wired t (sd_bool (sd_stdin policy)) (read_fd (sd_stdin policy)) 0
     else if fd = 1 then wired t (sd_bool (sd_stdout policy)) (write_fd (sd_stdout policy)) 1
     else if fd = 2 then wired t (sd_bool (sd_stderr policy)) (write_fd (sd_stderr policy)) 2
     else None)"

definition std_fds :: "int set" where
  "std_fds = {0, 1, 2}"

text \<open>One stream, present or not, changes the descriptor it is for and no other but its own ends.\<close>

definition stream_done :: "bool \<Rightarrow> int \<Rightarrow> int \<Rightarrow> int \<Rightarrow> 'f fd_table \<Rightarrow> 'f fd_table \<Rightarrow> bool" where
  "stream_done present owned_fd other_fd new_fd t t' \<longleftrightarrow>
     t' new_fd = wired t present owned_fd new_fd \<and>
     (\<forall>fd. fd \<noteq> new_fd \<longrightarrow> (present \<longrightarrow> fd \<noteq> owned_fd \<and> fd \<noteq> other_fd) \<longrightarrow> t' fd = t fd)"

lemma child_stream_table:
  assumes "close_law K V" "dup2_law K V" and "present \<Longrightarrow> owned_fd \<noteq> new_fd \<and> other_fd \<noteq> new_fd"
    and "child_stream K present owned_fd other_fd new_fd (c, s) = (ok, (c', s'))"
  shows "if ok then c' = c \<and> stream_done present owned_fd other_fd new_fd (table_of V s) (table_of V s')
     else c' \<noteq> 0"
proof (cases present)
  case True
  with handle_child_stream_table [of K V owned_fd new_fd other_fd c s ok c' s'] assms show ?thesis
    by (auto simp: child_stream_def wired_def stream_done_def split: if_splits)
next
  case False
  with assms show ?thesis by (auto simp: child_stream_def wired_def stream_done_def)
qed

lemma wired_done:
  assumes "stream_done present owned_fd other_fd new_fd t t'"
    and "present \<Longrightarrow> b \<Longrightarrow> fd \<noteq> owned_fd \<and> fd \<noteq> other_fd" and "b \<Longrightarrow> fd \<noteq> new_fd"
    and "present \<Longrightarrow> k \<noteq> owned_fd \<and> k \<noteq> other_fd" and "k \<noteq> new_fd"
  shows "wired t' b fd k = wired t b fd k"
  using assms by (auto simp: stream_done_def wired_def)

lemma std_fds_above: "ends_ok policy \<Longrightarrow>
    (sd_bool (sd_stdin policy) \<longrightarrow> 2 < read_fd (sd_stdin policy) \<and> 2 < write_fd (sd_stdin policy)) \<and>
    (sd_bool (sd_stdout policy) \<longrightarrow> 2 < read_fd (sd_stdout policy) \<and> 2 < write_fd (sd_stdout policy)) \<and>
    (sd_bool (sd_stderr policy) \<longrightarrow> 2 < read_fd (sd_stderr policy) \<and> 2 < write_fd (sd_stderr policy))"
  by (auto simp: ends_ok_def stream_fds_def)

lemma three_streams_done:
  assumes ends: "ends_ok policy"
    and 1: "stream_done (sd_bool (sd_stdin policy)) (read_fd (sd_stdin policy)) (write_fd (sd_stdin policy)) 0 t t1"
    and 2: "stream_done (sd_bool (sd_stdout policy)) (write_fd (sd_stdout policy)) (read_fd (sd_stdout policy)) 1 t1 t2"
    and 3: "stream_done (sd_bool (sd_stderr policy)) (write_fd (sd_stderr policy)) (read_fd (sd_stderr policy)) 2 t2 t3"
  shows "\<forall>fd\<in>std_fds. t3 fd = child_table t policy fd"
proof -
  note above = std_fds_above [OF ends]
  let ?i = "sd_stdin policy" and ?q = "sd_stdout policy" and ?e = "sd_stderr policy"
  have "t3 0 = t2 0" "t2 0 = t1 0" "t3 1 = t2 1" using 2 3 above unfolding stream_done_def by force+
  moreover have "t1 0 = wired t (sd_bool ?i) (read_fd ?i) 0" "t2 1 = wired t1 (sd_bool ?q) (write_fd ?q) 1"
      "t3 2 = wired t2 (sd_bool ?e) (write_fd ?e) 2"
    using 1 2 3 by (simp_all add: stream_done_def)
  moreover have "wired t1 (sd_bool ?q) (write_fd ?q) 1 = wired t (sd_bool ?q) (write_fd ?q) 1"
    using ends above by (intro wired_done [OF 1]) (auto simp: ends_ok_def stream_fds_def)
  moreover have "wired t2 (sd_bool ?e) (write_fd ?e) 2 = wired t1 (sd_bool ?e) (write_fd ?e) 2"
    using ends above by (intro wired_done [OF 2]) (auto simp: ends_ok_def stream_fds_def)
  moreover have "wired t1 (sd_bool ?e) (write_fd ?e) 2 = wired t (sd_bool ?e) (write_fd ?e) 2"
    using ends above by (intro wired_done [OF 1]) (auto simp: ends_ok_def stream_fds_def)
  ultimately show ?thesis by (simp add: std_fds_def child_table_def)
qed

lemma child_streams_table:
  assumes laws: "close_law K V" "dup2_law K V" and ends: "ends_ok policy"
    and run: "child_streams K policy (0, s) = (code, (c, s'))"
  shows "if code = 0 then c = 0 \<and> (\<forall>fd\<in>std_fds. table_of V s' fd = child_table (table_of V s) policy fd)
     else c \<noteq> 0"
proof -
  let ?i = "sd_stdin policy" and ?q = "sd_stdout policy" and ?e = "sd_stderr policy"
  obtain ok1 c1 s1 where 1: "child_stream K (sd_bool ?i) (read_fd ?i) (write_fd ?i) 0 (0, s) = (ok1, (c1, s1))"
    by (metis prod_cases3)
  obtain ok2 c2 s2 where 2: "child_stream K (sd_bool ?q) (write_fd ?q) (read_fd ?q) 1 (c1, s1) = (ok2, (c2, s2))"
    by (metis prod_cases3)
  obtain ok3 c3 s3 where 3: "child_stream K (sd_bool ?e) (write_fd ?e) (read_fd ?e) 2 (c2, s2) = (ok3, (c3, s3))"
    by (metis prod_cases3)
  have eq: "(code, (c, s')) = (if \<not> ok1 then (2, (c1, s1)) else if \<not> ok2 then (3, (c2, s2))
      else if \<not> ok3 then (4, (c3, s3)) else (0, (c3, s3)))"
    using run by (auto simp: child_streams_def 1 2 3 split: if_splits bool.splits)
  note above = std_fds_above [OF ends]
  note t1 = child_stream_table [OF laws _ 1] and t2 = child_stream_table [OF laws _ 2]
    and t3 = child_stream_table [OF laws _ 3]
  show ?thesis
  proof (cases "ok1 \<and> ok2 \<and> ok3")
    case True
    with t1 t2 t3 above
    have "c3 = 0" "\<forall>fd\<in>std_fds. table_of V s3 fd = child_table (table_of V s) policy fd"
      by (auto intro!: three_streams_done [OF ends, THEN bspec])
    with True eq show ?thesis by simp
  next
    case False
    with t1 t2 t3 above eq show ?thesis by (auto split: if_splits)
  qed
qed

subsection \<open>Closing every other descriptor\<close>

definition trimmed :: "'f fd_table \<Rightarrow> 'f fd_table \<Rightarrow> bool" where
  "trimmed t t' \<longleftrightarrow> (\<forall>fd\<in>std_fds. t' fd = t fd) \<and> (\<forall>fd. t' fd = t fd \<or> t' fd = None)"

lemma trimmed_refl [simp]: "trimmed t t"
  by (simp add: trimmed_def)

lemma trimmed_trans [trans]: "trimmed t t' \<Longrightarrow> trimmed t' t'' \<Longrightarrow> trimmed t t''"
  unfolding trimmed_def by metis

lemma trimmed_upd: "fd \<notin> std_fds \<Longrightarrow> trimmed t (t(fd := None))"
  by (auto simp: trimmed_def)

lemma readdir_lawD:
  assumes "readdir_law K strtoi V" and "sys_readdir K dir (s\<lparr>errno := 0\<rparr>) = (r, s')"
  shows "table_of V s' = table_of V s" and "dir_fd V (world s') dir = dir_fd V (world s) dir"
    and "r = None \<Longrightarrow> errno s' = 0 \<Longrightarrow> \<not> dir_lists V (world s) dir fd"
    and "r = Some n \<Longrightarrow> dir_left V (world s') dir < dir_left V (world s) dir"
    and "r = Some n \<Longrightarrow> dir_lists V (world s) dir fd \<Longrightarrow> strtoi n \<noteq> Some fd \<Longrightarrow> dir_lists V (world s') dir fd"
  using assms(1) [unfolded readdir_law_def, rule_format, of "s\<lparr>errno := 0\<rparr>" dir] assms(2) by auto

lemma dir_close_lawD:
  assumes "dir_close_law K V"
  shows "dir_left V (world (snd (sys_close K fd s))) dir \<le> dir_left V (world s) dir"
    and "dir_fd V (world (snd (sys_close K fd s))) dir = dir_fd V (world s) dir"
    and "fd' \<noteq> fd \<Longrightarrow> dir_lists V (world s) dir fd' \<Longrightarrow> dir_lists V (world (snd (sys_close K fd s))) dir fd'"
  using assms [unfolded dir_close_law_def, THEN spec, of fd, THEN spec, of dir, THEN spec, of s]
  by (auto simp: case_prod_beta)

lemma close_entry_spec:
  assumes "close_law K V" "dir_close_law K V" and "s' = close_entry K strtoi d n s"
  shows "trimmed (table_of V s) (table_of V s')" "dir_left V (world s') dir \<le> dir_left V (world s) dir"
    "dir_fd V (world s') dir = dir_fd V (world s) dir"
    "strtoi n = Some fd \<Longrightarrow> fd \<notin> std_fds \<Longrightarrow> fd \<noteq> d \<Longrightarrow> table_of V s' fd = None"
    "strtoi n \<noteq> Some fd \<Longrightarrow> dir_lists V (world s) dir fd \<Longrightarrow> dir_lists V (world s') dir fd"
  using assms
  by (auto simp: close_entry_def close_lawD dir_close_lawD fileno_consts std_fds_def intro!: trimmed_upd
      split: option.splits)

text \<open>What the loop relies on: an open descriptor is still listed, or it is the entry in hand.\<close>

definition covered :: "(string \<Rightarrow> int option) \<Rightarrow> ('w, 'f) fd_view \<Rightarrow> addr \<Rightarrow> string \<Rightarrow> 'w sys \<Rightarrow> bool" where
  "covered strtoi V dir n s \<longleftrightarrow> (\<forall>fd\<in>dom (table_of V s) - std_fds - {dir_fd V (world s) dir}.
     dir_lists V (world s) dir fd \<or> strtoi n = Some fd)"

lemma close_entries_spec:
  assumes laws: "close_law K V" "readdir_law K strtoi V" "dir_close_law K V" and "covered strtoi V dir n s" and "d = dir_fd V (world s) dir"
  shows "\<exists>r s'. close_entries K strtoi dir d n s = Some (r, s') \<and> trimmed (table_of V s) (table_of V s')
     \<and> dir_fd V (world s') dir = d \<and> (r = 0 \<longrightarrow> dom (table_of V s') \<subseteq> std_fds \<union> {d})"
  using assms(4) unfolding assms(5)
proof (induction "dir_left V (world s) dir" arbitrary: n s rule: less_induct)
  case less
  let ?d = "dir_fd V (world s) dir"
  define s1 where "s1 = close_entry K strtoi ?d n s"
  note s1 = close_entry_spec [OF laws(1,3) s1_def]
  obtain r s2 where r: "sys_readdir K dir (s1\<lparr>errno := 0\<rparr>) = (r, s2)" by fastforce
  note s2 = readdir_lawD [OF laws(2) r]
  have left: "fd \<in> dom (table_of V s1) - std_fds - {?d} \<Longrightarrow> dir_lists V (world s1) dir fd" for fd
  proof -
    assume fd: "fd \<in> dom (table_of V s1) - std_fds - {?d}"
    then have "strtoi n \<noteq> Some fd" using s1(4) [of fd] by auto
    moreover have "fd \<in> dom (table_of V s) - std_fds - {?d}"
      using fd s1(1) [unfolded trimmed_def, THEN conjunct2, rule_format, of fd] by auto
    ultimately show "dir_lists V (world s1) dir fd"
      using less.prems s1(5) unfolding covered_def by blast
  qed
  show ?case
  proof (cases r)
    case None
    have "dom (table_of V s2) \<subseteq> std_fds \<union> {?d}" if "errno s2 = 0"
      using left s2(3) [OF None that] s2(1) by auto
    then show ?thesis
      using None r s1(1,3) s2(1,2) by (subst close_entries.simps) (auto simp: s1_def [symmetric])
  next
    case (Some n')
    have "covered strtoi V dir n' s2"
      using left s2(1,2) s2(5) [OF Some] s1(3) unfolding covered_def by auto
    moreover have "dir_left V (world s2) dir < dir_left V (world s) dir"
      using s2(4) [OF Some] s1(2) [of dir] by simp
    ultimately obtain r' s' where "close_entries K strtoi dir ?d n' s2 = Some (r', s')"
      "trimmed (table_of V s2) (table_of V s')" "dir_fd V (world s') dir = ?d"
      "r' = 0 \<longrightarrow> dom (table_of V s') \<subseteq> std_fds \<union> {?d}"
      using less.hyps [of s2 n'] s1(3) s2(2) by auto
    then show ?thesis
      using Some r s1(1) s2(1) trimmed_trans by (subst close_entries.simps) (auto simp: s1_def [symmetric])
  qed
qed

lemma trimmed_dir:
  assumes "trimmed (t(d \<mapsto> f)) t'" and "t d = None"
  shows "trimmed t (t'(d := None))"
  using assms unfolding trimmed_def by (auto split: if_splits)

lemma opendir_lawD:
  assumes "opendir_law K V" and "sys_opendir K ''/proc/self/fd'' s = (r, s')"
  shows "case r of None \<Rightarrow> errno s' \<noteq> 0 \<and> table_of V s' = table_of V s
     | Some dir \<Rightarrow> table_of V s (dir_fd V (world s') dir) = None
         \<and> (\<exists>f. table_of V s' = (table_of V s)(dir_fd V (world s') dir \<mapsto> f))
         \<and> (\<forall>fd\<in>dom (table_of V s'). dir_lists V (world s') dir fd)"
  using assms(1) [unfolded opendir_law_def, THEN spec, of s] assms(2) by (simp split: option.splits)

lemma dirfd_lawD:
  assumes "dirfd_law K V" and "sys_dirfd K dir s = (d, s')"
  shows "world s' = world s" and "if d = - 1 then errno s' \<noteq> 0 else d = dir_fd V (world s) dir"
  using assms(1) [unfolded dirfd_law_def, THEN spec, of dir, THEN spec, of s] assms(2) by simp_all

text \<open>The part between \<^verbatim>\<open>opendir\<close> and \<^verbatim>\<open>closedir\<close>.\<close>

definition walk_proc ::
  "('w, 'x) proc_calls_scheme \<Rightarrow> (string \<Rightarrow> int option) \<Rightarrow> addr \<Rightarrow> 'w sys \<Rightarrow> (int \<times> 'w sys) option" where
  "walk_proc K strtoi dir s =
     (case sys_dirfd K dir s of (dirfd, s2) \<Rightarrow>
        if dirfd = - 1 then Some (errno s2, s2)
        else case sys_readdir K dir (s2\<lparr>errno := 0\<rparr>) of
               (None, s3) \<Rightarrow> Some (if errno s3 \<noteq> 0 then errno s3 else ENOENT, s3)
             | (Some d_name, s3) \<Rightarrow> close_entries K strtoi dir dirfd d_name s3)"

lemma walk_proc_spec:
  assumes laws: "close_law K V" "readdir_law K strtoi V" "dir_close_law K V" "dirfd_law K V"
    and open_listed: "\<forall>fd\<in>dom (table_of V s). dir_lists V (world s) dir fd" and "d = dir_fd V (world s) dir"
  shows "\<exists>r s'. walk_proc K strtoi dir s = Some (r, s') \<and> trimmed (table_of V s) (table_of V s')
     \<and> dir_fd V (world s') dir = d \<and> (r = 0 \<longrightarrow> dom (table_of V s') \<subseteq> std_fds \<union> {d})"
proof -
  obtain d' s2 where d: "sys_dirfd K dir s = (d', s2)" by fastforce
  note s2 = dirfd_lawD [OF laws(4) d]
  obtain r s3 where r: "sys_readdir K dir (s2\<lparr>errno := 0\<rparr>) = (r, s3)" by fastforce
  note s3 = readdir_lawD [OF laws(2) r]
  show ?thesis
  proof (cases "d' = - 1 \<or> r = None")
    case True
    then show ?thesis
      using d r s2 s3(1,2) assms(6) by (cases "d' = - 1") (auto simp: walk_proc_def ENOENT_def intro!: exI)
  next
    case False
    then obtain n where n: "r = Some n" and d': "d' = d" using s2(2) assms(6) by auto
    have "covered strtoi V dir n s3"
      using open_listed s2(1) s3(1) s3(5) [OF n] unfolding covered_def by auto
    moreover have "d = dir_fd V (world s3) dir" using s2(1) s3(2) assms(6) by simp
    ultimately obtain r' s' where "close_entries K strtoi dir d n s3 = Some (r', s')"
      "trimmed (table_of V s3) (table_of V s')" "dir_fd V (world s') dir = d"
      "r' = 0 \<longrightarrow> dom (table_of V s') \<subseteq> std_fds \<union> {d}"
      using close_entries_spec [OF laws(1-3)] by blast
    then show ?thesis
      using n d d' r s2(1) s3(1) False by (auto simp: walk_proc_def)
  qed
qed

lemma close_all_via_proc_spec:
  assumes laws: "process_law K strtoi V"
  shows "\<exists>r s'. close_all_descriptors_via_proc K strtoi s = Some (r, s') \<and> trimmed (table_of V s) (table_of V s')
     \<and> (r = 0 \<longrightarrow> dom (table_of V s') \<subseteq> std_fds)"
proof -
  note L = process_lawD [OF laws]
  obtain r s1 where r: "sys_opendir K ''/proc/self/fd'' s = (r, s1)" by fastforce
  note s1 = opendir_lawD [OF L(3) r]
  show ?thesis
  proof (cases r)
    case None
    with r s1 show ?thesis by (simp add: close_all_descriptors_via_proc_def)
  next
    case (Some dir)
    let ?d = "dir_fd V (world s1) dir"
    from s1 Some obtain f where new: "table_of V s ?d = None" and t1: "table_of V s1 = (table_of V s)(?d \<mapsto> f)"
      and listed: "\<forall>fd\<in>dom (table_of V s1). dir_lists V (world s1) dir fd" by auto
    from walk_proc_spec [OF L(1,5,6,4) listed refl] obtain r' s2 where
      w: "walk_proc K strtoi dir s1 = Some (r', s2)" "trimmed (table_of V s1) (table_of V s2)"
      "dir_fd V (world s2) dir = ?d" "r' = 0 \<longrightarrow> dom (table_of V s2) \<subseteq> std_fds \<union> {?d}" by blast
    have c: "table_of V (snd (sys_closedir K dir s2)) = (table_of V s2)(?d := None)"
      using L(7) w(3) by (simp add: closedir_law_def)
    moreover have "trimmed (table_of V s) (table_of V (snd (sys_closedir K dir s2)))"
      using trimmed_dir [OF w(2) [unfolded t1] new] c by simp
    moreover have "close_all_descriptors_via_proc K strtoi s = Some (r', snd (sys_closedir K dir s2))"
      using w(1) by (simp add: close_all_descriptors_via_proc_def r Some walk_proc_def)
    ultimately show ?thesis using w(4) by auto
  qed
qed

lemma close_one_fold:
  assumes "close_law K V"
  shows "table_of V (fold (close_one K) xs s) = (\<lambda>fd. if fd \<in> set xs \<and> fd \<notin> std_fds then None else table_of V s fd)"
  using assms
  by (induction xs arbitrary: s) (auto simp: close_one_def close_lawD fileno_consts std_fds_def fun_eq_iff)

lemma close_all_by_limit_spec:
  assumes laws: "process_law K strtoi V" and run: "close_all_by_limit K (c, s) = (code, (c', s'))"
  shows "if code = 0 then c' = c \<and> trimmed (table_of V s) (table_of V s') \<and> dom (table_of V s') \<subseteq> std_fds
     else c' \<noteq> 0"
proof -
  note L = process_lawD [OF laws]
  obtain ret lim s1 where g: "sys_getrlimit_nofile K s = ((ret, lim), s1)" by (metis prod_cases3 surj_pair)
  have l: "table_of V s1 = table_of V s \<and> (if ret \<noteq> 0 then errno s1 \<noteq> 0
      else uint lim < 2 ^ 31 \<and> (\<forall>fd\<in>dom (table_of V s). 0 \<le> fd \<and> fd < uint lim))"
    using L(8) [unfolded limit_law_def, THEN spec, of s] unfolding g prod.case .
  show ?thesis
  proof (cases "ret = 0")
    case True
    with l have lim: "uint lim < 2 ^ 31" and below: "\<And>fd. fd \<in> dom (table_of V s) \<Longrightarrow> 0 \<le> fd \<and> fd < uint lim"
      by auto
    have "narrow_int (uint lim) = uint lim" using lim by (intro narrow_int_id) (simp_all add: order_trans [of _ 0])
    moreover have "lim \<noteq> RLIM_INFINITY" using lim by (auto simp: RLIM_INFINITY_def unsigned_minus_1_eq_mask mask_eq_exp_minus_1)
    ultimately have "code = 0" "c' = c" "s' = fold (close_one K) (map int [0..<nat (uint lim)]) s1"
      using True g run by (auto simp: close_all_by_limit_def)
    moreover have "fd \<in> dom (table_of V s) \<Longrightarrow> fd \<in> set (map int [0..<nat (uint lim)])" for fd
    proof -
      assume "fd \<in> dom (table_of V s)"
      with below [of fd] have "0 \<le> fd" "fd < uint lim" by simp_all
      then have "fd = int (nat fd)" "nat fd < nat (uint lim)" by linarith+
      then show ?thesis by (metis atLeastLessThan_iff imageI le0 set_map set_upt)
    qed
    ultimately show ?thesis
      using l by (auto simp: close_one_fold [OF L(1)] trimmed_def domIff split: if_splits)
  next
    case False
    with l g run show ?thesis by (auto simp: close_all_by_limit_def)
  qed
qed

subsection \<open>Running the program\<close>

lemma child_exec_spec:
  assumes "exec_law K V" and "child_exec K sigs policy (c, s) = (e, (c', s'))"
  shows "case e of Child_execs \<Rightarrow> c' = c \<and> table_of V s' = exec_table (table_of V s)
     | Child_returns code \<Rightarrow> code \<noteq> 0 \<and> c' \<noteq> 0"
proof -
  obtain err old s1 where m: "sys_sigmask K Sig_unblock sigs s = ((err, old), s1)" by (metis prod_cases3 surj_pair)
  have "table_of V s1 = table_of V s" using assms(1) m by (metis exec_law_def snd_conv)
  moreover have "case sys_execve K path args env s1 of (None, s') \<Rightarrow> table_of V s' = exec_table (table_of V s1)
      | (Some ret, s') \<Rightarrow> ret = - 1 \<and> errno s' \<noteq> 0" for path args env
    using assms(1) [unfolded exec_law_def, THEN conjunct2] by (elim allE)
  ultimately show ?thesis
    using assms(2) by (fastforce simp: child_exec_def m popen_execve_def split: if_splits prod.splits option.splits)
qed

definition child_outcome :: "('w, 'f) fd_view \<Rightarrow> 'f fd_table \<Rightarrow> subprocess_descriptor \<Rightarrow> child_end \<times> 'w child_state \<Rightarrow> bool" where
  "child_outcome V t policy = (\<lambda>(e, (c, s)).
     case e of Child_execs \<Rightarrow> c = 0 \<and> table_of V s = exec_table (child_table t policy)
     | Child_returns code \<Rightarrow> code \<noteq> 0 \<and> c \<noteq> 0)"

lemma trimmed_child_table:
  assumes "\<forall>fd\<in>std_fds. t1 fd = child_table t policy fd" "trimmed t1 t2" "dom t2 \<subseteq> std_fds"
  shows "t2 = child_table t policy"
proof
  fix fd
  show "t2 fd = child_table t policy fd"
  proof (cases "fd \<in> std_fds")
    case False
    then have "t2 fd = None" using assms(3) by auto
    with False show ?thesis by (simp add: child_table_def std_fds_def)
  qed (use assms in \<open>simp add: trimmed_def\<close>)
qed

lemma clone_handler_outcome:
  assumes laws: "process_law K strtoi V" and ends: "ends_ok policy"
  shows "\<exists>r. clone_handler K strtoi sigs policy (0, s) = Some r \<and> child_outcome V (table_of V s) policy r"
proof -
  note L = process_lawD [OF laws]
  obtain code c1 s1 where 1: "child_streams K policy (0, s) = (code, (c1, s1))" by (metis prod_cases3)
  note t1 = child_streams_table [OF L(1,2) ends 1]
  obtain r s2 where 2: "close_all_descriptors_via_proc K strtoi s1 = Some (r, s2)"
    and t2: "trimmed (table_of V s1) (table_of V s2)" "r = 0 \<longrightarrow> dom (table_of V s2) \<subseteq> std_fds"
    using close_all_via_proc_spec [OF laws] by blast
  obtain code' c3 s3 where 3: "(if r \<noteq> 0 then close_all_by_limit K (c1, s2) else (0, (c1, s2))) = (code', (c3, s3))"
    by (metis prod_cases3)
  have t3: "if code' = 0 then c3 = c1 \<and> trimmed (table_of V s2) (table_of V s3) \<and> dom (table_of V s3) \<subseteq> std_fds
     else c3 \<noteq> 0"
    using 3 t2(2) close_all_by_limit_spec [OF laws, of c1 s2 code' c3 s3] by (auto split: if_splits)
  have eq: "clone_handler K strtoi sigs policy (0, s) =
      Some (if code \<noteq> 0 then (Child_returns code, (c1, s1)) else if code' \<noteq> 0 then (Child_returns code', (c3, s3))
            else child_exec K sigs policy (c3, s3))"
    by (simp add: clone_handler_def 1 2 3)
  show ?thesis
  proof (cases "code = 0 \<and> code' = 0")
    case True
    obtain e c4 s4 where 4: "child_exec K sigs policy (c3, s3) = (e, (c4, s4))" by (metis prod_cases3)
    have "table_of V s3 = child_table (table_of V s) policy"
      using True t1 t3 by (intro trimmed_child_table [OF _ trimmed_trans [OF t2(1)]]) auto
    with True t1 t3 4 child_exec_spec [OF L(9) 4] show ?thesis
      by (simp add: eq child_outcome_def split: child_end.splits)
  next
    case False
    with t1 t3 show ?thesis by (auto simp: eq child_outcome_def)
  qed
qed

end
