(* ===== verification/Demo_Process.thy ===== *)
theory Demo_Process
  imports Child_Props
begin

text \<open>
  A small kernel that has the laws: its world holds the table as an association list, the entries a directory
  stream has left, the signal mask, the children and the program that runs. A name in the directory is as long as the number it stands for.
\<close>

record demo_world =
  dw_table :: "(nat \<times> nat \<times> bool) list"
  dw_entries :: "nat list"
  dw_dirfd :: nat
  dw_mask :: sigset
  dw_children :: "int list"
  dw_program :: "(string \<times> string list) option"

definition demo_fresh :: "(nat \<times> nat \<times> bool) list \<Rightarrow> nat" where
  "demo_fresh t = Suc (fold max (map fst t) 2)"

definition demo_map :: "(nat \<times> nat \<times> bool) list \<Rightarrow> nat fd_table" where
  "demo_map t = (\<lambda>fd. if fd < 0 then None else map_of t (nat fd))"

abbreviation demo_table :: "demo_world \<Rightarrow> nat fd_table" where
  "demo_table w \<equiv> demo_map (dw_table w)"

definition demo_view :: "(demo_world, nat) fd_view" where
  "demo_view = \<lparr>fdt = demo_table, dir_fd = (\<lambda>w _. int (dw_dirfd w)),
     dir_lists = (\<lambda>w _ fd. 0 \<le> fd \<and> nat fd \<in> set (dw_entries w)), dir_left = (\<lambda>w _. length (dw_entries w))\<rparr>"

definition demo_strtoi :: "string \<Rightarrow> int option" where
  "demo_strtoi n = Some (int (length n))"

abbreviation on_world :: "('w \<Rightarrow> 'w) \<Rightarrow> 'w sys \<Rightarrow> 'w sys" where
  "on_world f s \<equiv> s\<lparr>world := f (world s)\<rparr>"

definition demo_close :: "nat \<Rightarrow> demo_world \<Rightarrow> demo_world" where
  "demo_close fd w = w\<lparr>dw_table := filter (\<lambda>(k, _). k \<noteq> fd) (dw_table w)\<rparr>"

definition demo_put :: "nat \<Rightarrow> nat \<times> bool \<Rightarrow> demo_world \<Rightarrow> demo_world" where
  "demo_put fd f w = w\<lparr>dw_table := (fd, f) # dw_table w\<rparr>"

lemma demo_world_sel [simp]:
  "dw_table (demo_close fd w) = filter (\<lambda>(k, _). k \<noteq> fd) (dw_table w)" "dw_entries (demo_close fd w) = dw_entries w"
  "dw_dirfd (demo_close fd w) = dw_dirfd w" "dw_mask (demo_close fd w) = dw_mask w"
  "dw_children (demo_close fd w) = dw_children w"
  "dw_table (demo_put fd f w) = (fd, f) # dw_table w" "dw_mask (demo_put fd f w) = dw_mask w"
  "dw_children (demo_put fd f w) = dw_children w"
  by (simp_all add: demo_close_def demo_put_def)

definition demo_dup2 :: "int \<Rightarrow> int \<Rightarrow> (demo_world, int) syscall" where
  "demo_dup2 a b s =
     (case demo_table (world s) a of
        None \<Rightarrow> (- 1, s\<lparr>errno := EBADF\<rparr>)
      | Some (f, _) \<Rightarrow>
          if b < 0 then (- 1, s\<lparr>errno := EBADF\<rparr>)
          else if a = b then (b, s) else (b, on_world (demo_put (nat b) (f, False)) s))"

definition demo_opendir :: "string \<Rightarrow> (demo_world, addr option) syscall" where
  "demo_opendir path s =
     (let d = demo_fresh (dw_table (world s)); w = demo_put d (0, True) (world s)
      in (Some 0, s\<lparr>world := w\<lparr>dw_entries := map fst (dw_table w), dw_dirfd := d\<rparr>\<rparr>))"

definition demo_readdir :: "addr \<Rightarrow> (demo_world, string option) syscall" where
  "demo_readdir dir s =
     (case dw_entries (world s) of
        [] \<Rightarrow> (None, s)
      | e # es \<Rightarrow> (Some (replicate e (CHR ''1'')), on_world (\<lambda>w. w\<lparr>dw_entries := es\<rparr>) s))"

definition demo_getrlimit :: "(demo_world, int \<times> uint64) syscall" where
  "demo_getrlimit s =
     (let n = demo_fresh (dw_table (world s))
      in if n < 2 ^ 31 then ((0, of_nat n), s) else ((- 1, 0), s\<lparr>errno := EINVAL\<rparr>))"

definition demo_execve :: "string \<Rightarrow> char list option list \<Rightarrow> char list option list \<Rightarrow> (demo_world, int option) syscall" where
  "demo_execve path args env s =
     (if path = ''/bin/cat''
      then (None, on_world (\<lambda>w. w\<lparr>dw_table := filter (\<lambda>(k, _). exec_table (demo_table w) (int k) \<noteq> None) (dw_table w),
              dw_program := map_option (Pair path) (exec_args args)\<rparr>) s)
      else (Some (- 1), s\<lparr>errno := ENOENT\<rparr>))"

definition demo_sigmask :: "sig_how \<Rightarrow> sigset \<Rightarrow> (demo_world, int \<times> sigset) syscall" where
  "demo_sigmask how sigs s =
     ((0, dw_mask (world s)), on_world (\<lambda>w. w\<lparr>dw_mask := (case how of
        Sig_block \<Rightarrow> dw_mask w \<union> sigs | Sig_unblock \<Rightarrow> dw_mask w - sigs | Sig_setmask \<Rightarrow> sigs)\<rparr>) s)"

definition demo_pipe2 :: "int \<Rightarrow> (demo_world, int \<times> int \<times> int) syscall" where
  "demo_pipe2 flags s =
     (let r = demo_fresh (dw_table (world s)); w = Suc r
      in ((0, int r, int w), on_world (demo_put w (w, False) \<circ> demo_put r (r, False)) s))"

definition demo_pid :: "int list \<Rightarrow> int" where
  "demo_pid pids = fold max pids 99 + 1"

definition demo_clone :: "addr \<Rightarrow> int \<Rightarrow> (demo_world child_state \<Rightarrow> (child_end \<times> demo_world child_state) option) \<Rightarrow> int
     \<Rightarrow> demo_world sys \<Rightarrow> ((int \<times> int) \<times> demo_world sys) option" where
  "demo_clone stk flags child st s =
     (let pid = demo_pid (dw_children (world s)) in
      map_option (\<lambda>(e, (st', s')). ((pid, st'), on_world (\<lambda>w. w\<lparr>dw_children := pid # dw_children w\<rparr>) s)) (child (st, s)))"

definition demo_waitid :: "int \<Rightarrow> int \<Rightarrow> int \<Rightarrow> siginfo \<Rightarrow> (demo_world, int \<times> siginfo) syscall" where
  "demo_waitid idtype pid options i s =
     (if 0 < pid \<and> pid \<in> set (dw_children (world s))
      then ((0, \<lparr>si_pid = pid, si_status = 0, si_code = CLD_EXITED\<rparr>),
            on_world (\<lambda>w. w\<lparr>dw_children := filter (\<lambda>p. p \<noteq> pid) (dw_children w)\<rparr>) s)
      else ((- 1, i), s\<lparr>errno := ENOENT\<rparr>))"

definition demo_ev_calls :: "demo_world ev_calls" where
  "demo_ev_calls = idle_ev_calls\<lparr>sys_close := (\<lambda>fd s. (0, if fd < 0 then s else on_world (demo_close (nat fd)) s)),
     sys_pipe2 := demo_pipe2, sys_sigmask := demo_sigmask\<rparr>"

definition demo_calls :: "demo_world proc_calls" where
  "demo_calls = ev_calls.extend demo_ev_calls (proc_calls.fields demo_dup2 demo_opendir
     (\<lambda>dir s. (int (dw_dirfd (world s)), s)) demo_readdir
     (\<lambda>dir s. (0, on_world (\<lambda>w. demo_close (dw_dirfd w) w) s)) demo_getrlimit
     demo_execve demo_clone demo_waitid (\<lambda>pid sig s. (0, s)))"

lemma demo_sel [simp]:
  "sys_close demo_calls = (\<lambda>fd s. (0, if fd < 0 then s else on_world (demo_close (nat fd)) s))"
  "sys_pipe2 demo_calls = demo_pipe2" "sys_sigmask demo_calls = demo_sigmask" "sys_dup2 demo_calls = demo_dup2"
  "sys_opendir demo_calls = demo_opendir" "sys_dirfd demo_calls = (\<lambda>dir s. (int (dw_dirfd (world s)), s))"
  "sys_readdir demo_calls = demo_readdir"
  "sys_closedir demo_calls = (\<lambda>dir s. (0, on_world (\<lambda>w. demo_close (dw_dirfd w) w) s))"
  "sys_getrlimit_nofile demo_calls = demo_getrlimit"
  "sys_execve demo_calls = demo_execve" "sys_clone demo_calls = demo_clone" "sys_waitid demo_calls = demo_waitid"
  "sys_kill demo_calls = (\<lambda>pid sig s. (0, s))"
  by (simp_all add: demo_calls_def demo_ev_calls_def idle_ev_calls_def ev_calls.extend_def proc_calls.fields_def)

lemma demo_view_sel [simp]:
  "fdt demo_view = demo_table" "dir_fd demo_view w dir = int (dw_dirfd w)"
  "dir_lists demo_view w dir fd \<longleftrightarrow> 0 \<le> fd \<and> nat fd \<in> set (dw_entries w)"
  "dir_left demo_view w dir = length (dw_entries w)"
  by (simp_all add: demo_view_def)

lemma fold_max_start: "(a :: 'a :: linorder) \<le> fold max xs a"
  by (induction xs arbitrary: a) (auto, meson max.cobounded2 order_trans)

lemma fold_max_ge: "x \<in> set xs \<Longrightarrow> (x :: 'a :: linorder) \<le> fold max xs a"
proof (induction xs arbitrary: a)
  case (Cons y ys)
  have "max y a \<le> fold max ys (max y a)" by (rule fold_max_start)
  with Cons show ?case by auto
qed simp

lemma map_of_filter_key: "map_of (filter (\<lambda>(k, _). P k) t) k = (if P k then map_of t k else None)"
  by (induction t) auto

lemma demo_map_simps [simp]:
  "demo_map (filter (\<lambda>(k, _). k \<noteq> fd) t) = (demo_map t)(int fd := None)"
  "demo_map ((fd, f) # t) = (demo_map t)(int fd \<mapsto> f)"
  by (auto simp: demo_map_def map_of_filter_key fun_eq_iff)

lemma demo_map_key: "demo_map t fd = Some f \<Longrightarrow> 0 \<le> fd \<and> nat fd \<in> fst ` set t"
  by (force simp: demo_map_def split: if_splits dest!: map_of_SomeD)

lemma demo_map_below: "demo_map t fd = Some f \<Longrightarrow> fd < int (demo_fresh t)"
  using demo_map_key [of t fd f] fold_max_ge [of "nat fd" "map fst t" 2] by (auto simp: demo_fresh_def)

lemma demo_map_fresh [simp]: "demo_map t (int (demo_fresh t)) = None"
  using demo_map_below [of t "int (demo_fresh t)"] by (cases "demo_map t (int (demo_fresh t))") auto

lemma demo_map_neg [simp]: "fd < 0 \<Longrightarrow> demo_map t fd = None"
  by (simp add: demo_map_def)

lemma demo_pid_new: "demo_pid pids \<notin> set pids" "0 < demo_pid pids" "demo_pid pids \<noteq> - 1"
  using fold_max_ge [of "demo_pid pids" pids 99] fold_max_start [of "99 :: int" pids] by (auto simp: demo_pid_def)

lemma demo_close_law: "close_law demo_calls demo_view"
  by (auto simp: close_law_def fun_eq_iff)

lemma demo_dup2_law: "dup2_law demo_calls demo_view"
  by (auto simp: dup2_law_def demo_dup2_def EBADF_def split: option.splits prod.splits)

lemma demo_opendir_law: "opendir_law demo_calls demo_view"
  by (auto simp: opendir_law_def demo_opendir_def Let_def split: if_splits dest: demo_map_key)

lemma demo_dirfd_law: "dirfd_law demo_calls demo_view"
  by (simp add: dirfd_law_def)

lemma demo_readdir_law: "readdir_law demo_calls demo_strtoi demo_view"
  by (auto simp: readdir_law_def demo_readdir_def demo_strtoi_def split: list.splits)

lemma demo_dir_close_law: "dir_close_law demo_calls demo_view"
  by (simp add: dir_close_law_def)

lemma demo_closedir_law: "closedir_law demo_calls demo_view"
  by (simp add: closedir_law_def)

lemma demo_limit_law: "limit_law demo_calls demo_view"
proof -
  have "uint (of_nat n :: uint64) = int n" if "n < 2147483648" for n
    using that by (simp add: unsigned_of_nat take_bit_nat_eq_self)
  then show ?thesis
    by (auto simp: limit_law_def demo_getrlimit_def Let_def EINVAL_def demo_map_below dest: demo_map_key)
qed

lemma demo_exec_law: "exec_law demo_calls demo_view"
proof -
  have "demo_map (filter (\<lambda>(k, _). exec_table (demo_map t) (int k) \<noteq> None) t) = exec_table (demo_map t)" for t
    by (rule ext) (auto simp: demo_map_def map_of_filter_key exec_table_def split: option.splits bool.splits)
  then show ?thesis
    by (auto simp: exec_law_def demo_execve_def demo_sigmask_def ENOENT_def)
qed

lemmas demo_laws = demo_close_law demo_dup2_law demo_opendir_law demo_dirfd_law demo_readdir_law demo_dir_close_law
  demo_closedir_law demo_limit_law demo_exec_law

lemma demo_process_law: "process_law demo_calls demo_strtoi demo_view"
  by (simp add: process_law_def demo_laws)

end
