(* ===== verification/Popen_Props.thy ===== *)
theory Popen_Props
  imports Popen Demo_Process Event_Props
begin

text \<open>
  Properties of \<^verbatim>\<open>popen\<close>: what the parent and the child have after the constructor, that
  the signal mask is restored, that a child is waited for at most once and never signalled afterwards, and where
  descriptors and children are lost.
\<close>

subsection \<open>Spawning\<close>

text \<open>
  \<^verbatim>\<open>clone\<close> without \<^verbatim>\<open>CLONE_FILES\<close>: the child starts with a copy of the
  descriptor table of its parent, whose own table does not change; \<^verbatim>\<open>CLONE_VFORK\<close>: the
  parent resumes when the child has ended or executed a program.
\<close>

definition clone_law :: "('w, 'x) proc_calls_scheme \<Rightarrow> ('w, 'f) fd_view \<Rightarrow> bool" where
  "clone_law K V \<longleftrightarrow> (\<forall>stk flags child s. case sys_clone K stk flags child 0 s of
     None \<Rightarrow> \<exists>s0. table_of V s0 = table_of V s \<and> child (0, s0) = None
   | Some ((ret, st), s') \<Rightarrow> table_of V s' = table_of V s
       \<and> (ret = - 1 \<or> 0 < ret \<and> (\<exists>s0 e cs. table_of V s0 = table_of V s \<and> child (0, s0) = Some (e, (st, cs)))))"

definition wait_table_law :: "('w, 'x) proc_calls_scheme \<Rightarrow> ('w, 'f) fd_view \<Rightarrow> bool" where
  "wait_table_law K V \<longleftrightarrow>
     (\<forall>idtype pid options i s. table_of V (snd (sys_waitid K idtype pid options i s)) = table_of V s)"

lemma ensure_stack_ok: "\<exists>st g'. ensure_stack E (g, s) = (Ok st, (g', s)) \<and> signal_mutex_object g' = signal_mutex_object g"
  by (simp add: ensure_stack_def stack_ctor_def stack_size_def cmd_simps split: option.splits)

lemma waitid_table:
  "wait_table_law K V \<Longrightarrow> table_of V (snd (snd (waitid K idtype pid options (i, s)))) = table_of V s"
  by (auto simp: waitid_def wait_table_law_def cmd_simps split: prod.splits)

lemma reap_failed_child_table: "wait_table_law K V \<Longrightarrow> table_of V (reap_failed_child K pid s) = table_of V s"
  by (simp add: reap_failed_child_def waitid_table)

text \<open>What the parent is meant to have.\<close>

definition parent_end :: "bool \<Rightarrow> int \<Rightarrow> int \<Rightarrow> int" where
  "parent_end present parent_fd child_fd = (if present \<and> parent_fd \<noteq> child_fd then parent_fd else closed_fd)"

definition parent_table :: "'f fd_table \<Rightarrow> stream_descriptors \<Rightarrow> stream_descriptors \<Rightarrow> stream_descriptors \<Rightarrow> 'f fd_table" where
  "parent_table t i q e = (\<lambda>fd.
     if sd_bool i \<and> fd = read_fd i \<or> sd_bool q \<and> fd = write_fd q \<or> sd_bool e \<and> fd = write_fd e then None else t fd)"

lemma keep_parent_end_default:
  assumes "close_law K V" and "keep_parent_end K present parent_fd child_fd (unique_fd_default ()) s = (u, s')"
  shows "ufd_get u = parent_end present parent_fd child_fd"
    and "table_of V s' = (if present then (table_of V s)(child_fd := None) else table_of V s)"
  using assms
  by (auto simp: keep_parent_end_def handle_parent_stream_def unique_fd_defs int_descriptor_defs parent_end_def
      close_lawD Let_def split: if_splits)

lemma keep_parent_ends_default:
  assumes "close_law K V" and "keep_parent_ends K i q e popen_default s = (p, s')"
  shows "ufd_get (stdin_stream p) = parent_end (sd_bool i) (write_fd i) (read_fd i)"
    and "ufd_get (stdout_stream p) = parent_end (sd_bool q) (read_fd q) (write_fd q)"
    and "ufd_get (stderr_stream p) = parent_end (sd_bool e) (read_fd e) (write_fd e)"
    and "child_status p = status_default" and "table_of V s' = parent_table (table_of V s) i q e"
proof -
  let ?u = "unique_fd_default ()"
  obtain ui s1 where 1: "keep_parent_end K (sd_bool i) (write_fd i) (read_fd i) ?u s = (ui, s1)" by fastforce
  obtain uo s2 where 2: "keep_parent_end K (sd_bool q) (read_fd q) (write_fd q) ?u s1 = (uo, s2)" by fastforce
  obtain ue s3 where 3: "keep_parent_end K (sd_bool e) (read_fd e) (write_fd e) ?u s2 = (ue, s3)" by fastforce
  note ends = keep_parent_end_default [OF assms(1) 1] keep_parent_end_default [OF assms(1) 2]
    keep_parent_end_default [OF assms(1) 3]
  have p: "p = popen_default\<lparr>stdin_stream := ui, stdout_stream := uo, stderr_stream := ue\<rparr>" and s': "s' = s3"
    using assms(2) by (simp_all add: keep_parent_ends_def popen_default_def 1 2 3)
  show "ufd_get (stdin_stream p) = parent_end (sd_bool i) (write_fd i) (read_fd i)"
    "ufd_get (stdout_stream p) = parent_end (sd_bool q) (read_fd q) (write_fd q)"
    "ufd_get (stderr_stream p) = parent_end (sd_bool e) (read_fd e) (write_fd e)"
    "child_status p = status_default"
    using ends by (simp_all add: p popen_default_def)
  show "table_of V s' = parent_table (table_of V s) i q e"
    using ends by (auto simp: s' parent_table_def fun_eq_iff)
qed

lemma clone_lawD:
  assumes "clone_law K V" and "sys_clone K stk flags child 0 s = Some ((ret, st), s')"
  shows "table_of V s' = table_of V s"
    and "ret = - 1 \<or> 0 < ret \<and> (\<exists>s0 e cs. table_of V s0 = table_of V s \<and> child (0, s0) = Some (e, (st, cs)))"
  using assms(1) [unfolded clone_law_def, THEN spec, of stk, THEN spec, of flags, THEN spec, of child, THEN spec, of s]
    assms(2) by simp_all

lemma clone_law_ends:
  assumes "clone_law K V" and "\<And>s0. child (0, s0) \<noteq> None"
  shows "\<exists>ret st s'. sys_clone K stk flags child 0 s = Some ((ret, st), s')"
proof (cases "sys_clone K stk flags child 0 s")
  case None
  then show ?thesis
    using assms(1) [unfolded clone_law_def, THEN spec, of stk, THEN spec, of flags, THEN spec, of child, THEN spec, of s]
      assms(2) by (auto)
qed (metis old.prod.exhaust option.exhaust)

text \<open>How a spawned child and a failed one show in the outcome of the constructor.\<close>

definition child_run ::
  "('w, 'x) proc_calls_scheme \<Rightarrow> proc_env \<Rightarrow> ('w, 'f) fd_view \<Rightarrow> subprocess_descriptor \<Rightarrow> 'w sys \<Rightarrow> child_end \<Rightarrow> int \<Rightarrow> 'f fd_table \<Rightarrow> bool" where
  "child_run K E V policy s e st t \<longleftrightarrow> (\<exists>s0 cs. table_of V s0 = table_of V s
     \<and> clone_handler K (strtoi E) (all_signals E) policy (0, s0) = Some (e, (st, cs)) \<and> table_of V cs = t)"

definition spawn_outcome ::
  "('w, 'x) proc_calls_scheme \<Rightarrow> proc_env \<Rightarrow> ('w, 'f) fd_view \<Rightarrow> subprocess_descriptor \<Rightarrow> 'w sys \<Rightarrow> popen res \<Rightarrow> 'w sys \<Rightarrow> bool" where
  "spawn_outcome K E V policy s r s' \<longleftrightarrow>
     (let i = sd_stdin policy; q = sd_stdout policy; e = sd_stderr policy in
      case r of
        Ok p \<Rightarrow> 0 < id_get (popen_pid p) \<and> \<not> exited (popen_status p)
          \<and> child_run K E V policy s Child_execs 0 (exec_table (child_table (table_of V s) policy))
          \<and> ufd_get (popen_stdin p) = parent_end (sd_bool i) (write_fd i) (read_fd i)
          \<and> ufd_get (popen_stdout p) = parent_end (sd_bool q) (read_fd q) (write_fd q)
          \<and> ufd_get (popen_stderr p) = parent_end (sd_bool e) (read_fd e) (write_fd e)
          \<and> table_of V s' = parent_table (table_of V s) i q e
      | Throw x \<Rightarrow> table_of V s' = table_of V s
          \<and> ((\<exists>c. x = System_error c ''clone failed'')
             \<or> (\<exists>c code t. x = System_error c ''subprocess execution failed'' \<and> c \<noteq> 0 \<and> code \<noteq> 0
                  \<and> child_run K E V policy s (Child_returns code) c t))
      | _ \<Rightarrow> False)"

text \<open>The constructor's view of the outcome of \<open>popen_clone\<close>.\<close>

definition built :: "pid res \<Rightarrow> popen \<Rightarrow> popen res" where
  "built r p = (case r of Ok pid \<Rightarrow> Ok (p\<lparr>child_pid := pid\<rparr>) | Throw x \<Rightarrow> Throw x
     | Undefined \<Rightarrow> Undefined | Terminated \<Rightarrow> Terminated)"

lemma after_clone_outcome:
  assumes laws: "process_law K (strtoi E) V" "clone_law K V" "wait_table_law K V" and ends: "ends_ok policy"
    and clone: "sys_clone K stk flags (clone_handler K (strtoi E) (all_signals E) policy) 0 s1 = Some ((ret, st), s2)"
    and run: "after_clone K (sd_stdin policy, sd_stdout policy, sd_stderr policy) ret st (popen_default, s2)
       = (r, (p, s3))"
  shows "spawn_outcome K E V policy s1 (built r p) s3"
proof -
  note c = clone_lawD [OF laws(2) clone]
  show ?thesis
  proof (cases "ret = - 1")
    case True
    with run c(1) show ?thesis by (auto simp: after_clone_def spawn_outcome_def built_def)
  next
    case False
    with c(2) obtain s0 e cs where pos: "0 < ret" and s0: "table_of V s0 = table_of V s1"
      and child: "clone_handler K (strtoi E) (all_signals E) policy (0, s0) = Some (e, (st, cs))" by auto
    from clone_handler_outcome [OF laws(1) ends, of "all_signals E" s0] child s0
    have out: "child_outcome V (table_of V s1) policy (e, (st, cs))" by simp
    show ?thesis
    proof (cases "st = 0")
      case True
      then have "e = Child_execs" "table_of V cs = exec_table (child_table (table_of V s1) policy)"
        using out by (auto simp: child_outcome_def split: child_end.splits)
      with child s0 have ok: "child_run K E V policy s1 Child_execs 0 (exec_table (child_table (table_of V s1) policy))"
        using True by (auto simp: child_run_def)
      obtain p' s' where keep: "keep_parent_ends K (sd_stdin policy) (sd_stdout policy) (sd_stderr policy) popen_default s2
        = (p', s')" by fastforce
      note k = keep_parent_ends_default [OF process_lawD(1) [OF laws(1)] keep]
      from run True \<open>ret \<noteq> - 1\<close> keep have "r = Ok (int_descriptor_of ret)" "p = p'" "s3 = s'"
        by (auto simp: after_clone_def)
      with ok k pos c(1) show ?thesis
        by (simp add: spawn_outcome_def built_def Let_def popen_pid_def popen_status_def popen_stdin_def popen_stdout_def
            popen_stderr_def int_descriptor_defs status_defs)
    next
      case False
      then obtain code where "e = Child_returns code" "code \<noteq> 0"
        using out by (auto simp: child_outcome_def split: child_end.splits)
      with child s0 have "child_run K E V policy s1 (Child_returns code) st (table_of V cs)"
        by (auto simp: child_run_def)
      with False \<open>ret \<noteq> - 1\<close> run c(1) \<open>code \<noteq> 0\<close> show ?thesis
        by (auto simp: after_clone_def spawn_outcome_def built_def reap_failed_child_table [OF laws(3)]
            intro!: exI [of _ code] exI)
    qed
  qed
qed

abbreviation policy_of :: "string \<Rightarrow> argv \<Rightarrow> stream_descriptors \<times> stream_descriptors \<times> stream_descriptors \<Rightarrow> subprocess_descriptor" where
  "policy_of executable args ends \<equiv>
     \<lparr>sd_executable = executable, sd_argv = command_line executable args, sd_stdin = fst ends,
      sd_stdout = fst (snd ends), sd_stderr = snd (snd ends)\<rparr>"

lemma clone_locked_outcome:
  assumes laws: "process_law K (strtoi E) V" "clone_law K V" "wait_table_law K V"
    and "open_streams K ss s = (Ok ends, s1)" and "ends_ok (policy_of executable args ends)"
  shows "\<exists>r p g' s'. clone_locked K E executable args ss (popen_default, g, s) = Some (r, (p, g', s'))
     \<and> spawn_outcome K E V (policy_of executable args ends) s1 (built r p) s'"
proof -
  obtain i q e where ends: "ends = (i, q, e)" by (metis prod_cases3)
  let ?child = "clone_handler K (strtoi E) (all_signals E) (policy_of executable args ends)"
  obtain st g1 where "ensure_stack E (g, s) = (Ok st, (g1, s))" using ensure_stack_ok by metis
  with assms(4) have prep: "prepare_clone K E ss (g, s) = (Ok (st, i, q, e), (g1, s1))"
    by (simp add: prepare_clone_def cmd_simps ends)
  have "?child (0, s0) \<noteq> None" for s0
    using clone_handler_outcome [OF laws(1) assms(5)] by (metis option.distinct(1))
  then obtain ret stat s2 where
    clone: "sys_clone K (stack_get st) ((CLONE_VM OR CLONE_VFORK) OR SIGCHLD) ?child 0 s1 = Some ((ret, stat), s2)"
    using clone_law_ends [OF laws(2)] by blast
  obtain r p s3 where after: "after_clone K (i, q, e) ret stat (popen_default, s2) = (r, (p, s3))" by (metis prod_cases3)
  have "spawn_outcome K E V (policy_of executable args ends) s1 (built r p) s3"
    using after_clone_outcome [OF laws assms(5) clone] after by (simp add: ends)
  then show ?thesis
    using clone after by (simp add: clone_locked_def prep ends)
qed

lemma popen_ctor_built:
  assumes "popen_clone K E executable args ss (popen_default, g, s) = Some (r, (p, g', s'))"
  shows "popen_ctor K E executable args ss (g, s) = Some (built r p, (g', s'))"
  using assms by (simp add: popen_ctor_def built_def split: res.splits)

lemma spawn_outcome_table:
  "spawn_outcome K E V policy s r s' \<Longrightarrow> table_of V s'' = table_of V s' \<Longrightarrow> spawn_outcome K E V policy s r s''"
  by (simp add: spawn_outcome_def Let_def split: res.splits)

lemma popen_clone_locked:
  assumes "signal_mutex_lock K (signal_mutex_object g, s) = (Ok u, (m, s1))"
    and "clone_locked K E executable args ss (p, g\<lparr>signal_mutex_object := m\<rparr>, s1) = Some (r, (p', g1, s2))"
  shows "\<exists>g' s'. popen_clone K E executable args ss (p, g, s) = Some (r, (p', g', s'))
     \<and> s' = snd (sys_sigmask K Sig_setmask (sm_prev_sigset (signal_mutex_object g1)) s2)"
  using assms by (simp add: popen_clone_def unlock_signals_def signal_mutex_unlock_def cmd_simps case_prod_beta)

lemma prepare_clone_mutex:
  assumes "prepare_clone K E ss (g, s) = (r, (g', s'))"
  shows "signal_mutex_object g' = signal_mutex_object g"
proof -
  obtain st g1 where "ensure_stack E (g, s) = (Ok st, (g1, s))" "signal_mutex_object g1 = signal_mutex_object g"
    using ensure_stack_ok by metis
  with assms show ?thesis by (auto simp: prepare_clone_def cmd_simps split: res.splits)
qed

lemma clone_locked_mutex:
  assumes "clone_locked K E executable args ss (p, g, s) = Some (r, (p', g', s'))"
  shows "signal_mutex_object g' = signal_mutex_object g"
  using assms
  by (auto simp: clone_locked_def split: prod.splits res.splits option.splits dest!: prepare_clone_mutex)

lemma popen_clone_blocked:
  assumes law: "sigmask_law K blocked" and run: "popen_clone K E executable args ss (p, g, s) = Some (r, (p', g', s'))"
  shows "blocked (world s') = blocked (world s)"
proof -
  obtain l m s1 where lock: "signal_mutex_lock K (signal_mutex_object g, s) = (l, (m, s1))" by (metis prod_cases3)
  from signal_mutex_lock_mask [OF law lock] consider
    (locked) "l = Ok ()" "\<forall>s2. \<exists>s3. signal_mutex_unlock K (m, s2) = (Ok (), (m, s3)) \<and> blocked (world s3) = blocked (world s)"
  | (thrown) x where "l = Throw x" "blocked (world s1) = blocked (world s)" by blast
  then show ?thesis
  proof cases
    case locked
    with run lock obtain r1 p1 g1 s2 where
      c: "clone_locked K E executable args ss (p, g\<lparr>signal_mutex_object := m\<rparr>, s1) = Some (r1, (p1, g1, s2))"
      and u: "unlock_signals K (r1, (p1, g1, s2)) = (r, (p', g', s'))"
      by (auto simp: popen_clone_def)
    have m: "signal_mutex_object g1 = m" using clone_locked_mutex [OF c] by simp
    obtain s3 where "signal_mutex_unlock K (m, s2) = (Ok (), (m, s3))" "blocked (world s3) = blocked (world s)"
      using locked(2) by blast
    with u show ?thesis by (simp add: unlock_signals_def m)
  next
    case thrown
    with run lock show ?thesis by (auto simp: popen_clone_def)
  qed
qed

lemma popen_ctor_outcome:
  assumes laws: "process_law K (strtoi E) V" "clone_law K V" "wait_table_law K V"
    and lock: "signal_mutex_lock K (signal_mutex_object g, s) = (Ok u, (m, s1))"
    and opened: "open_streams K ss s1 = (Ok ends, s2)" and ends: "ends_ok (policy_of executable args ends)"
  shows "\<exists>r g' s'. popen_ctor K E executable args ss (g, s) = Some (r, (g', s'))
     \<and> spawn_outcome K E V (policy_of executable args ends) s2 r s'"
proof -
  from clone_locked_outcome [OF laws opened ends] obtain r p g1 s3 where
    locked: "clone_locked K E executable args ss (popen_default, g\<lparr>signal_mutex_object := m\<rparr>, s1) = Some (r, (p, g1, s3))"
    and out: "spawn_outcome K E V (policy_of executable args ends) s2 (built r p) s3" by blast
  from popen_clone_locked [OF lock locked] obtain g' s' where
    run: "popen_clone K E executable args ss (popen_default, g, s) = Some (r, (p, g', s'))" and
    s': "s' = snd (sys_sigmask K Sig_setmask (sm_prev_sigset (signal_mutex_object g1)) s3)" by blast
  have "table_of V s' = table_of V s3"
    using process_lawD(9) [OF laws(1)] by (simp add: exec_law_def s')
  with popen_ctor_built [OF run] spawn_outcome_table [OF out] show ?thesis by blast
qed

text \<open>
  C25. Once the streams have been opened, to descriptors that differ from one another and are none of 0, 1 and 2,
  the constructor returns. Either the child has executed the program with exactly the streams it was asked for
  as its descriptors 0 to 2 and no other descriptor, and the parent has the pid, the other end of every pipe and
  none of the child's ends; or the constructor throws, with the child's error when it was the child that
  failed. In that case all descriptors that were opened for the streams stay open.
\<close>

theorem popen_spawns:
  assumes laws: "process_law K (strtoi E) V" "clone_law K V" "wait_table_law K V"
    and lock: "signal_mutex_lock K (signal_mutex_object g, s) = (Ok u, (m, s1))"
    and opened: "open_streams K ss s1 = (Ok ends, s2)" and ends: "ends_ok (policy_of executable args ends)"
  shows "\<exists>r g' s'. popen_ctor K E executable args ss (g, s) = Some (r, (g', s'))
     \<and> spawn_outcome K E V (policy_of executable args ends) s2 r s'"
  by (rule popen_ctor_outcome [OF assms])

text \<open>
  C29. The constructor leaves the signal mask of the calling thread as it was, whether it returns or throws and
  whatever happened to the mask while the child was started.
\<close>

theorem popen_restores_signals:
  assumes law: "sigmask_law K blocked" and run: "popen_ctor K E executable args ss (g, s) = Some (r, (g', s'))"
  shows "blocked (world s') = blocked (world s)"
proof -
  from run obtain rc p where "popen_clone K E executable args ss (popen_default, g, s) = Some (rc, (p, g', s'))"
    by (auto simp: popen_ctor_def split: option.splits res.splits prod.splits)
  then show ?thesis by (rule popen_clone_blocked [OF law])
qed

subsection \<open>The example process\<close>

lemma demo_clone_law: "clone_law demo_calls demo_view"
  using demo_pid_new by (auto simp: clone_law_def demo_clone_def Let_def split: option.splits)

lemma demo_wait_table_law: "wait_table_law demo_calls demo_view"
  by (simp add: wait_table_law_def demo_waitid_def)

definition demo_env :: proc_env where
  "demo_env = \<lparr>strtoi = demo_strtoi, all_signals = {1, 2, 15}, new_stack = 4096\<rparr>"

definition demo_globals :: popen_globals where
  "demo_globals = \<lparr>signal_mutex_object = signal_mutex_ctor {1, 2, 15} {}, child_stack = None\<rparr>"

definition demo_sys :: "(nat \<times> nat \<times> bool) list \<Rightarrow> demo_world sys" where
  "demo_sys t = \<lparr>errno = 0, mem = (\<lambda>_. 0),
     world = \<lparr>dw_table = t, dw_entries = [], dw_dirfd = 0, dw_mask = {10}, dw_children = [], dw_program = None\<rparr>\<rparr>"

lemmas demo_run = popen_ctor_def popen_clone_def signal_mutex_lock_def signal_mutex_unlock_def clone_locked_def
  prepare_clone_def ensure_stack_def stack_ctor_def open_streams_def open_or_default_def cmd_simps demo_sigmask_def
  demo_globals_def signal_mutex_ctor_def streams_default_def demo_clone_def demo_sys_def clone_handler_def
  child_streams_def child_stream_def stream_descriptors_default_def sd_bool_def close_all_descriptors_via_proc_def
  demo_opendir_def demo_readdir_def demo_fresh_def close_entry_def demo_strtoi_def demo_env_def child_exec_def
  popen_execve_def demo_execve_def after_clone_def keep_parent_ends_def keep_parent_end_def unlock_signals_def
  fileno_consts Let_def stack_size_def c_str_def c_string_def NUL_def

lemma demo_spawn: "\<exists>p g' s'. popen_ctor demo_calls demo_env ''/bin/cat'' argv_default streams_default
    (demo_globals, demo_sys []) = Some (Ok p, (g', s')) \<and> popen_bool p"
  by (simp add: demo_run close_entries.simps demo_pid_def popen_bool_def popen_pid_def int_descriptor_defs invalid_pid_def)

definition demo_std :: "(nat \<times> nat \<times> bool) list" where
  "demo_std = [(0, 10, False), (1, 11, False), (2, 12, False)]"

lemma demo_lock: "\<exists>m. signal_mutex_lock demo_calls (signal_mutex_object demo_globals, demo_sys t)
    = (Ok (), (m, (demo_sys t)\<lparr>world := (world (demo_sys t))\<lparr>dw_mask := {1, 2, 10, 15}\<rparr>\<rparr>))"
  by (simp add: demo_run insert_commute)

lemma demo_open:
  "open_streams demo_calls (streams_in Pipe_stream) ((demo_sys demo_std)\<lparr>world := (world (demo_sys demo_std))\<lparr>dw_mask := m\<rparr>\<rparr>)
    = (Ok (stream_descriptors_pipe (3, 4), stream_descriptors_default, stream_descriptors_default),
       (demo_sys ((4, 4, False) # (3, 3, False) # demo_std))\<lparr>world := (world (demo_sys ((4, 4, False) # (3, 3, False) # demo_std)))\<lparr>dw_mask := m\<rparr>\<rparr>)"
  by (simp add: demo_run streams_in_def stream_open_def pipe_stream_open_def pipe_defs demo_pipe2_def demo_std_def
      demo_put_def stream_descriptors_pipe_def)

lemma demo_ends: "ends_ok (policy_of executable args
    (stream_descriptors_pipe (3, 4), stream_descriptors_default, stream_descriptors_default))"
  by (simp add: ends_ok_def stream_fds_def sd_bool_def stream_descriptors_pipe_def stream_descriptors_default_def
      closed_fd_def read_fd_def write_fd_def)

theorem popen_spawns_witness:
  "\<exists>r g' s'. popen_ctor demo_calls demo_env ''/bin/cat'' argv_default (streams_in Pipe_stream)
       (demo_globals, demo_sys demo_std) = Some (r, (g', s'))
     \<and> (\<forall>p. r = Ok p \<longrightarrow> ufd_get (popen_stdin p) = 4 \<and> demo_table (world s') 3 = None)"
proof -
  obtain m where lock: "signal_mutex_lock demo_calls (signal_mutex_object demo_globals, demo_sys demo_std)
    = (Ok (), (m, (demo_sys demo_std)\<lparr>world := (world (demo_sys demo_std))\<lparr>dw_mask := {1, 2, 10, 15}\<rparr>\<rparr>))"
    using demo_lock by blast
  have "process_law demo_calls (strtoi demo_env) demo_view" by (simp add: demo_env_def demo_process_law)
  from popen_spawns [OF this demo_clone_law demo_wait_table_law lock demo_open demo_ends, of "''/bin/cat''" argv_default]
  show ?thesis
    by (auto simp: spawn_outcome_def Let_def parent_end_def parent_table_def sd_bool_def stream_descriptors_pipe_def
        read_fd_def write_fd_def closed_fd_def)
qed

theorem popen_restores_signals_witness:
  "\<exists>r g' s'. popen_ctor demo_calls demo_env ''/bin/cat'' argv_default streams_default (demo_globals, demo_sys [])
      = Some (r, (g', s')) \<and> dw_mask (world s') = {10}"
proof -
  have law: "sigmask_law demo_calls dw_mask" by (auto simp: sigmask_law_def demo_sigmask_def)
  obtain p g' s' where run: "popen_ctor demo_calls demo_env ''/bin/cat'' argv_default streams_default
      (demo_globals, demo_sys []) = Some (Ok p, (g', s'))"
    using demo_spawn by blast
  have "dw_mask (world s') = {10}" using popen_restores_signals [OF law run] by (simp add: demo_sys_def)
  with run show ?thesis by blast
qed

subsection \<open>Streams given by a descriptor\<close>

lemma dup2_closed:
  assumes "dup2_law K V" "table_of V s a = None"
  shows "\<exists>s'. sys_dup2 K a b s = (- 1, s') \<and> errno s' \<noteq> 0"
proof -
  obtain ret s' where "sys_dup2 K a b s = (ret, s')" by fastforce
  with assms(1) [unfolded dup2_law_def, THEN spec, of a, THEN spec, of b, THEN spec, of s] assms(2)
  show ?thesis by (auto split: if_splits)
qed

lemma handle_closed_stream:
  "dup2_law K V \<Longrightarrow> table_of V s fd = None \<Longrightarrow> \<exists>c' s'. handle_child_stream K fd fd new_fd (c, s) = (False, (c', s')) \<and> c' \<noteq> 0"
  using dup2_closed [of K V s fd new_fd] by (auto simp: handle_child_stream_def)

text \<open>
  Two uses of an \<^verbatim>\<open>fd_stream\<close> that do not give the child the stream. The same descriptor for
  standard output and standard error: it is closed after the first, so that the second fails and no program is executed. A
  standard descriptor for itself, as in \<^verbatim>\<open>fd_stream(1)\<close> for standard output: the child closes it.
\<close>

theorem fd_stream_misuse:
  assumes laws: "process_law K conv V"
  shows "(2 < fd \<longrightarrow> (\<exists>code c s'. clone_handler K conv sigs
        \<lparr>sd_executable = executable, sd_argv = args, sd_stdin = stream_descriptors_default,
         sd_stdout = stream_descriptors_fd fd, sd_stderr = stream_descriptors_fd fd\<rparr> (0, s)
           = Some (Child_returns code, (c, s')) \<and> c \<noteq> 0))
     \<and> (handle_child_stream K n n n (c, s) = (True, (c', s')) \<longrightarrow> table_of V s' n = None)"
proof (intro conjI impI)
  note L = process_lawD [OF laws]
  let ?p = "\<lparr>sd_executable = executable, sd_argv = args, sd_stdin = stream_descriptors_default,
         sd_stdout = stream_descriptors_fd fd, sd_stderr = stream_descriptors_fd fd\<rparr>"
  assume fd: "2 < fd"
  obtain ok c1 s1 where 1: "handle_child_stream K fd fd 1 (0, s) = (ok, (c1, s1))" by (metis prod_cases3)
  from fd have "fd \<noteq> 1" by simp
  from handle_child_stream_table [OF L(1,2) this this 1] have t1: "if ok then table_of V s1 fd = None else c1 \<noteq> 0"
    by auto
  have "\<exists>code c s'. child_streams K ?p (0, s) = (code, (c, s')) \<and> code \<noteq> 0 \<and> c \<noteq> 0"
    using t1 handle_closed_stream [OF L(2), of s1 fd 2 c1] fd
    by (cases ok) (auto simp: child_streams_def child_stream_def sd_bool_def stream_descriptors_default_def
        stream_descriptors_fd_def read_fd_def write_fd_def closed_fd_def 1)
  then show "\<exists>code c s'. clone_handler K conv sigs ?p (0, s) = Some (Child_returns code, (c, s')) \<and> c \<noteq> 0"
    by (auto simp: clone_handler_def)
next
  assume "handle_child_stream K n n n (c, s) = (True, (c', s'))"
  then show "table_of V s' n = None"
    using process_lawD(1) [OF laws]
    by (auto simp: handle_child_stream_def close_lawD Let_def split: prod.splits if_splits)
qed

theorem fd_stream_misuse_witness:
  "\<exists>code c s'. clone_handler demo_calls demo_strtoi {} \<lparr>sd_executable = ''/bin/cat'', sd_argv = [None],
      sd_stdin = stream_descriptors_default, sd_stdout = stream_descriptors_fd 5, sd_stderr = stream_descriptors_fd 5\<rparr>
      (0, demo_sys [(5, 5, False)]) = Some (Child_returns code, (c, s')) \<and> c \<noteq> 0"
  using fd_stream_misuse [OF demo_process_law, of 5 "{}" "''/bin/cat''" "[None]" "demo_sys [(5, 5, False)]"] by simp

subsection \<open>The command line\<close>

text \<open>
  What \<^verbatim>\<open>execve\<close> promises of the program: when it succeeds on a vector that ends in a null
  pointer, the process runs the file named with these arguments. Nothing is said of other vectors.
\<close>

definition program_law :: "('w, 'x) proc_calls_scheme \<Rightarrow> ('w \<Rightarrow> (string \<times> string list) option) \<Rightarrow> bool" where
  "program_law K prog \<longleftrightarrow> (\<forall>path argv env s s' args. sys_execve K path argv env s = (None, s') \<longrightarrow>
     exec_args argv = Some args \<longrightarrow> prog (world s') = Some (path, args))"

abbreviation cut_text :: "string \<Rightarrow> string" where
  "cut_text \<equiv> takeWhile (\<lambda>c. c \<noteq> NUL)"

lemma command_line_args:
  "exec_args (command_line executable (argv_of render t ts)) = Some (map cut_text (executable # map render (t # ts)))"
  "exec_args (command_line executable argv_default) = Some [cut_text executable]"
proof -
  have 1: "exec_args (command_line executable a) = Some (map c_string (c_str executable # pointers a))"
    if "\<forall>p \<in> set (pointers a). NUL \<in> set p" for a
    using exec_args_pointers [of "c_str executable # pointers a"] that by (simp add: command_line_def c_str_def)
  have "\<forall>p \<in> set (pointers (argv_of render t ts)). NUL \<in> set p"
    by (auto simp: argv_of_pointers c_str_def)
  from 1 [OF this] show "exec_args (command_line executable (argv_of render t ts))
      = Some (map cut_text (executable # map render (t # ts)))"
    by (simp add: argv_of_pointers c_string_prefix)
  show "exec_args (command_line executable argv_default) = Some [cut_text executable]"
    using 1 [of argv_default] by (simp add: argv_default_def c_string_prefix)
qed

lemma clone_handler_program:
  assumes "program_law K prog" and "exec_args (sd_argv policy) = Some args"
    and "clone_handler K conv sigs policy c = Some (Child_execs, (st, s'))"
  shows "prog (world s') = Some (cut_text (sd_executable policy), args)"
proof -
  from assms(3) obtain c1 where "child_exec K sigs policy c1 = (Child_execs, (st, s'))"
    by (auto simp: clone_handler_def split: prod.splits if_splits option.splits)
  then obtain s1 where "sys_execve K (c_string (c_str (sd_executable policy))) (sd_argv policy) [None] s1 = (None, s')"
    by (auto simp: child_exec_def popen_execve_def split: prod.splits if_splits option.splits)
  with assms(1,2) show ?thesis unfolding program_law_def by (metis c_string_prefix)
qed

text \<open>
  C31. The vector of pointers that is built for \<^verbatim>\<open>execve\<close> ends in a null pointer and its arrays
  in a NUL, so that reading it never leaves it. A child that has executed the program runs the executable with
  the executable as its first argument and then the arguments given, as the stream operator renders them,
  each cut at its first NUL; nothing is cut when no text contains a NUL.
\<close>

theorem argv_roundtrip:
  fixes executable t ts render
  defines "texts \<equiv> executable # map render (t # ts)"
  assumes law: "program_law K prog"
    and run: "clone_handler K conv sigs (policy_of executable (argv_of render t ts) ends) c = Some (Child_execs, (st, s'))"
  shows "exec_args (command_line executable (argv_of render t ts)) = Some (map cut_text texts)
     \<and> exec_args (command_line executable argv_default) = Some [cut_text executable]
     \<and> prog (world s') = Some (cut_text executable, map cut_text texts)
     \<and> ((\<forall>str \<in> set texts. NUL \<notin> set str) \<longrightarrow> prog (world s') = Some (executable, texts))"
proof -
  have prog: "prog (world s') = Some (cut_text executable, map cut_text texts)"
    using clone_handler_program [OF law _ run] by (simp add: command_line_args(1) texts_def del: list.map)
  have "map cut_text texts = texts" if "\<forall>str \<in> set texts. NUL \<notin> set str"
    using that by (intro map_idI) (auto simp: takeWhile_eq_all_conv)
  with prog show ?thesis
    by (auto simp: command_line_args texts_def simp del: list.map)
qed

theorem argv_roundtrip_witness:
  "\<exists>st s'. clone_handler demo_calls demo_strtoi {} (policy_of ''/bin/cat'' (argv_of (\<lambda>t. t) ''-n'' [''a b''])
        (stream_descriptors_default, stream_descriptors_default, stream_descriptors_default)) (0, demo_sys [])
      = Some (Child_execs, (st, s'))
     \<and> dw_program (world s') = Some (''/bin/cat'', [''/bin/cat'', ''-n'', ''a b''])"
proof -
  let ?p = "policy_of ''/bin/cat'' (argv_of (\<lambda>t. t) ''-n'' [''a b''])
        (stream_descriptors_default, stream_descriptors_default, stream_descriptors_default)"
  have law: "program_law demo_calls dw_program"
    by (auto simp: program_law_def demo_execve_def split: if_splits)
  have "\<exists>st s'. clone_handler demo_calls demo_strtoi {} ?p (0, demo_sys []) = Some (Child_execs, (st, s'))"
    by (simp add: demo_run close_entries.simps)
  then obtain st s' where run: "clone_handler demo_calls demo_strtoi {} ?p (0, demo_sys []) = Some (Child_execs, (st, s'))"
    by blast
  from argv_roundtrip [OF law run] have "dw_program (world s') = Some (''/bin/cat'', [''/bin/cat'', ''-n'', ''a b''])"
    by (simp add: NUL_def)
  with run show ?thesis by blast
qed

subsection \<open>Move assignment\<close>

text \<open>
  Move assignment over an object that has a pid drops the pid and the descriptors: no object holds them
  afterwards, the child is never waited for, and the program is not ended as it is by the destructor.
\<close>

lemma popen_move_assign_drops:
  assumes "a \<noteq> b" and "popen_bool (st a)" and "id_get (popen_pid (st b)) \<noteq> id_get (popen_pid (st a))"
  shows "id_get (popen_pid (popen_move_assign a b st a)) = id_get (popen_pid (st b))"
    and "\<not> popen_bool (popen_move_assign a b st b)"
    and "id_get (popen_pid (popen_move_assign a b st c)) = id_get (popen_pid (st a)) \<Longrightarrow> c \<noteq> a \<and> c \<noteq> b"
  using assms
  by (auto simp: popen_move_assign_def Let_def popen_pid_def popen_bool_def int_descriptor_defs)

end
