(* ===== verification/Popen_Life.thy ===== *)
theory Popen_Life
  imports Popen_Props
begin

text \<open>
  The life of a \<^verbatim>\<open>popen\<close> object: its methods, in any order, between other work of the
  process. The kernel's side is the set \<open>kids\<close> of the children that have not been waited for: the
  number of a process cannot be given to another one while it is in that set.
\<close>

subsection \<open>Children\<close>

text \<open>
  \<^verbatim>\<open>waitid\<close> on a pid fails, or reports nothing (only with \<^verbatim>\<open>WNOHANG\<close>), or
  reports how the child ended and removes it; \<^verbatim>\<open>kill\<close> only sends.
\<close>

definition child_law :: "('w, 'x) proc_calls_scheme \<Rightarrow> ('w \<Rightarrow> int set) \<Rightarrow> bool" where
  "child_law K kids \<longleftrightarrow>
     (\<forall>pid options i s. si_pid i = 0 \<longrightarrow> (case sys_waitid K P_PID pid options i s of ((ret, i'), s') \<Rightarrow>
        if ret = - 1 then kids (world s') = kids (world s)
        else if si_pid i' = 0 then options = WEXITED OR WNOHANG \<and> kids (world s') = kids (world s)
        else si_pid i' = pid \<and> pid \<in> kids (world s) \<and> kids (world s') = kids (world s) - {pid}
          \<and> si_code i' \<in> {CLD_EXITED, CLD_KILLED, CLD_DUMPED})) \<and>
     (\<forall>pid sig s. kids (world (snd (sys_kill K pid sig s))) = kids (world s))"

lemma child_lawD:
  assumes "child_law K kids" and "sys_waitid K P_PID pid options i s = ((ret, i'), s')" and "si_pid i = 0"
  shows "if ret = - 1 then kids (world s') = kids (world s)
     else if si_pid i' = 0 then options = WEXITED OR WNOHANG \<and> kids (world s') = kids (world s)
     else si_pid i' = pid \<and> pid \<in> kids (world s) \<and> kids (world s') = kids (world s) - {pid}
       \<and> si_code i' \<in> {CLD_EXITED, CLD_KILLED, CLD_DUMPED}"
  using assms unfolding child_law_def by (metis (mono_tags, lifting) case_prod_conv)

text \<open>What the object owns is a child that exists; what it reports has happened.\<close>

definition popen_inv :: "('w \<Rightarrow> int set) \<Rightarrow> popen \<times> 'w sys \<Rightarrow> bool" where
  "popen_inv kids = (\<lambda>(p, s). status_wf (popen_status p)
     \<and> (popen_bool p \<longrightarrow> id_get (popen_pid p) \<in> kids (world s) \<and> \<not> exited (popen_status p)))"

text \<open>The three outcomes of a wait on an object that has a pid.\<close>

lemma popen_wait_cases:
  assumes law: "child_law K kids" and live: "popen_bool p"
    and run: "popen_wait_options K options (p, s) = (r, (p', s'))"
  obtains (failed) "r = Throw (System_error (errno s') ''waitid failed'')" "p' = p" "kids (world s') = kids (world s)"
  | (running) "r = Ok (popen_status p)" "p' = p" "kids (world s') = kids (world s)" "options = WEXITED OR WNOHANG"
  | (reaped) t where "r = Ok t" "exited t" "status_wf t" "popen_status p' = t" "\<not> popen_bool p'"
      "id_get (popen_pid p) \<in> kids (world s)" "kids (world s') = kids (world s) - {id_get (popen_pid p)}"
      "stdin_stream p' = stdin_stream p" "stdout_stream p' = stdout_stream p" "stderr_stream p' = stderr_stream p"
proof -
  obtain ret i' s1 where w: "sys_waitid K P_PID (id_get (child_pid p)) options (zero_siginfo\<lparr>si_pid := 0\<rparr>) s = ((ret, i'), s1)"
    by (metis prod_cases3 surj_pair)
  have eq: "waitid K P_PID (id_get (child_pid p)) options (zero_siginfo, s) =
      (if ret = - 1 then Throw (System_error (errno s1) ''waitid failed'') else Ok (si_pid i' \<noteq> 0), (i', s1))"
    by (simp add: waitid_def cmd_simps w)
  note c = child_lawD [OF law w]
  consider "ret = - 1" | "ret \<noteq> - 1" "si_pid i' = 0" | "ret \<noteq> - 1" "si_pid i' \<noteq> 0" by blast
  then show ?thesis
  proof cases
    case 1
    have "r = Throw (System_error (errno s') ''waitid failed'')" "p' = p" "s' = s1"
      using 1 run live eq by (auto simp: popen_wait_options_def popen_bool_def popen_pid_def)
    with 1 c show thesis by (intro failed) (simp_all add: zero_siginfo_def)
  next
    case 2
    have "r = Ok (popen_status p)" "p' = p" "s' = s1"
      using 2 run live eq by (auto simp: popen_wait_options_def popen_bool_def popen_pid_def popen_status_def)
    with 2 c show thesis by (intro running) (simp_all add: zero_siginfo_def)
  next
    case 3
    obtain t where t: "status_of i' s1 = (Ok t, s1)" using 3 by (simp add: status_of_def cmd_simps Let_def)
    have "r = Ok t" "s' = s1"
      and "p' = p\<lparr>child_pid := snd (id_release invalid_pid (child_pid p)), child_status := t\<rparr>"
      using 3 run live eq t by (auto simp: popen_wait_options_def popen_bool_def popen_pid_def Let_def)
    with 3 c status_of_wf [OF t] show thesis
      by (intro reaped [of t])
        (simp_all add: zero_siginfo_def popen_status_def popen_bool_def popen_pid_def int_descriptor_defs)
  qed
qed

subsection \<open>Histories of an object\<close>

text \<open>
  Waits, polls and signals; a move construction, a move assignment to another object and a swap, where the history goes on
  with the object that holds the contents now; and what the rest of the process does, which does not wait for the child.
\<close>

inductive popen_step :: "('w, 'x) proc_calls_scheme \<Rightarrow> ('w \<Rightarrow> int set) \<Rightarrow> popen \<times> 'w sys \<Rightarrow> popen \<times> 'w sys \<Rightarrow> bool"
  for K kids where
    wait: "popen_wait K c = (r, c') \<Longrightarrow> popen_step K kids c c'"
  | poll: "popen_poll K c = (r, c') \<Longrightarrow> popen_step K kids c c'"
  | signal: "popen_signal K sig c = (r, c') \<Longrightarrow> popen_step K kids c c'"
  | moved: "popen_move_ctor p = (p', q) \<Longrightarrow> popen_step K kids (p, s) (p', s)"
  | assigned: "a \<noteq> b \<Longrightarrow> popen_step K kids (st (b :: nat), s) (popen_move_assign a b st a, s)"
  | swapped: "popen_swap p q = (q', p') \<Longrightarrow> popen_step K kids (p, s) (p', s)"
  | other: "(popen_bool p \<longrightarrow> id_get (popen_pid p) \<in> kids (world s) \<longrightarrow> id_get (popen_pid p) \<in> kids (world s'))
      \<Longrightarrow> popen_step K kids (p, s) (p, s')"

inductive_cases popen_stepE: "popen_step K kids c c'"

lemma ufd_move_same: "fst (ufd_move_ctor u) = (u :: unit unique_fd)"
  by (cases u) (simp add: unique_fd_defs int_descriptor_defs split: prod.splits)

lemma popen_move_ctor_same: "popen_move_ctor p = (p', q) \<Longrightarrow> p' = p"
  by (cases p) (auto simp: popen_move_ctor_def status_move_ctor_def int_descriptor_defs case_prod_beta ufd_move_same)

lemma popen_move_assign_same: "a \<noteq> b \<Longrightarrow> popen_move_assign a b st a = st b"
  by (cases "st b")
    (simp add: popen_move_assign_def Let_def unique_fd_defs int_descriptor_defs status_move_assign_def status_copy_def)

lemma popen_swap_same: "popen_swap p q = (q', p') \<Longrightarrow> p' = p"
  by (cases p) (auto simp: popen_swap_def unique_fd_defs int_descriptor_defs)

lemmas popen_same = popen_move_ctor_same popen_move_assign_same popen_swap_same

lemma popen_signal_run:
  "popen_signal K sig (p, s) =
     (if \<not> popen_bool p then (Throw (Logic_error ''child pid not set''), (p, s))
      else case sys_kill K (id_get (popen_pid p)) sig s of (ret, s') \<Rightarrow>
        (if ret = - 1 then Throw (System_error (errno s') ''failed to send signal to child process'') else Ok (), (p, s')))"
  by (simp add: popen_signal_def popen_bool_def popen_pid_def cmd_simps case_prod_beta)

lemma popen_wait_unset: "\<not> popen_bool p \<Longrightarrow> popen_wait_options K options (p, s) = (Ok (popen_status p), (p, s))"
  by (simp add: popen_wait_options_def popen_bool_def popen_pid_def popen_status_def)

lemma popen_wait_inv:
  assumes "child_law K kids" and "popen_wait_options K options (p, s) = (r, (p', s'))" and "popen_inv kids (p, s)"
  shows "popen_inv kids (p', s')"
proof (cases "popen_bool p")
  case True
  from assms(1) this assms(2) show ?thesis
    by (cases rule: popen_wait_cases) (use assms(3) in \<open>auto simp: popen_inv_def\<close>)
qed (use assms(2,3) in \<open>auto simp: popen_wait_unset popen_inv_def\<close>)

lemma popen_step_inv:
  assumes "child_law K kids" and "popen_step K kids c c'" and "popen_inv kids c"
  shows "popen_inv kids c'"
  using assms(2)
proof cases
  case (wait r)
  with assms show ?thesis by (metis popen_wait_def popen_wait_inv surj_pair)
next
  case (poll r)
  with assms show ?thesis by (metis popen_poll_def popen_wait_inv surj_pair)
next
  case (signal sig r)
  with assms(1,3) show ?thesis
    by (cases c) (auto simp: popen_signal_run popen_inv_def child_law_def split: if_splits prod.splits, (metis snd_conv)+)
qed (use assms(3) in \<open>auto simp: popen_inv_def dest: popen_same simp: popen_same(2)\<close>)

interpretation popen_life: step_invariant "popen_step K kids" "\<lambda>c. child_law K kids \<longrightarrow> popen_inv kids c"
  by unfold_locales (blast intro: popen_step_inv)

text \<open>An object without a pid does not change any more.\<close>

lemma popen_step_final: "popen_step K kids c c' \<Longrightarrow> \<not> popen_bool (fst c) \<Longrightarrow> fst c' = fst c"
  by (cases c; cases c')
    (auto simp: popen_wait_def popen_poll_def popen_wait_unset popen_signal_run popen_same(2) dest: popen_same
      elim!: popen_stepE)

interpretation popen_final: step_invariant "popen_step K kids" "\<lambda>c. \<not> popen_bool p \<and> fst c = p"
  by unfold_locales (use popen_step_final in metis)

subsection \<open>The constructor and the children\<close>

text \<open>The calls on descriptors neither make nor end children nor change the signal mask.\<close>

definition fd_quiet_law :: "('w, 'x) proc_calls_scheme \<Rightarrow> ('w \<Rightarrow> 'v) \<Rightarrow> bool" where
  "fd_quiet_law K kids \<longleftrightarrow>
     (\<forall>fd s. kids (world (snd (sys_close K fd s))) = kids (world s)) \<and>
     (\<forall>path flags mode s. kids (world (snd (sys_open K path flags mode s))) = kids (world s)) \<and>
     (\<forall>flags s. kids (world (snd (sys_pipe2 K flags s))) = kids (world s))"

definition quiet_law :: "('w, 'x) proc_calls_scheme \<Rightarrow> ('w \<Rightarrow> int set) \<Rightarrow> bool" where
  "quiet_law K kids \<longleftrightarrow> fd_quiet_law K kids \<and>
     (\<forall>how sigs s. kids (world (snd (sys_sigmask K how sigs s))) = kids (world s))"

text \<open>
  \<^verbatim>\<open>clone\<close> makes one new child and leaves the signal mask of the parent alone. Waiting for a
  child does not fail while all signals are blocked; otherwise nothing is said, since a signal may interrupt it
  (\<^verbatim>\<open>EINTR\<close>).
\<close>

definition spawn_law :: "('w, 'x) proc_calls_scheme \<Rightarrow> ('w \<Rightarrow> int set) \<Rightarrow> bool" where
  "spawn_law K kids \<longleftrightarrow>
     (\<forall>stk flags child s ret st s'. sys_clone K stk flags child 0 s = Some ((ret, st), s') \<longrightarrow>
        (if ret = - 1 then kids (world s') = kids (world s)
         else 0 < ret \<and> ret \<notin> kids (world s) \<and> kids (world s') = insert ret (kids (world s))))"

definition mask_law :: "('w, 'x) proc_calls_scheme \<Rightarrow> ('w \<Rightarrow> sigset) \<Rightarrow> bool" where
  "mask_law K blocked \<longleftrightarrow> sigmask_law K blocked \<and> fd_quiet_law K blocked \<and>
     (\<forall>stk flags child s x s'. sys_clone K stk flags child 0 s = Some (x, s') \<longrightarrow> blocked (world s') = blocked (world s))"

definition wait_law :: "('w, 'x) proc_calls_scheme \<Rightarrow> ('w \<Rightarrow> int set) \<Rightarrow> ('w \<Rightarrow> sigset) \<Rightarrow> sigset \<Rightarrow> bool" where
  "wait_law K kids blocked sigs \<longleftrightarrow> (\<forall>pid i s. pid \<in> kids (world s) \<longrightarrow> sigs \<subseteq> blocked (world s) \<longrightarrow>
     fst (fst (sys_waitid K P_PID pid WEXITED i s)) \<noteq> - 1)"

definition quiet :: "('w \<Rightarrow> 'v) \<Rightarrow> ('w sys, 'a) cmd \<Rightarrow> bool" where
  "quiet kids m \<longleftrightarrow> (\<forall>s. kids (world (snd (m s))) = kids (world s))"

lemma quiet_intros:
  "quiet kids (ret_c x)" "quiet kids (throw_c e)" "quiet kids (throw_errno msg)"
  "(\<And>s. kids (world (snd (f s))) = kids (world s)) \<Longrightarrow> quiet kids (call f)"
  "b \<Longrightarrow> quiet kids m \<Longrightarrow> quiet kids (if b then m else n)" "\<not> b \<Longrightarrow> quiet kids n \<Longrightarrow> quiet kids (if b then m else n)"
  by (simp_all add: quiet_def cmd_simps)

lemma quiet_bind: "quiet kids m \<Longrightarrow> (\<And>x. quiet kids (f x)) \<Longrightarrow> quiet kids (bind_c m f)"
  unfolding quiet_def by (auto simp: cmd_simps split: prod.splits res.splits) (metis snd_conv)+

lemma open_quiet:
  assumes "fd_quiet_law K kids"
  shows "quiet kids (pipe_fd K flags)" and "quiet kids (open_nocloexec K path flags)"
  using assms
  by (auto simp: quiet_def fd_quiet_law_def pipe_defs open_nocloexec_def open_nocloexec_mode_def cmd_simps
      open_nothrow_nocloexec_mode_def split: prod.splits) (metis snd_conv)?

lemma open_streams_quiet: "fd_quiet_law K kids \<Longrightarrow> quiet kids (open_streams K ss)"
proof -
  assume law: "fd_quiet_law K kids"
  have "quiet kids (open_or_default K st)" for st
    by (auto simp: open_or_default_def stream_open_def pipe_stream_open_def null_stream_open_def path_stream_open_def
        fd_stream_open_def split: option.splits stream.splits intro!: quiet_intros quiet_bind open_quiet law)
  then show ?thesis by (simp add: open_streams_def quiet_bind quiet_intros)
qed

lemma keep_parent_end_quiet:
  "quiet_law K kids \<Longrightarrow> kids (world (snd (keep_parent_end K present a b u s))) = kids (world s)"
  by (auto simp: keep_parent_end_def handle_parent_stream_def unique_fd_defs default_close_def quiet_law_def fd_quiet_law_def Let_def)

lemma keep_parent_ends_quiet:
  "quiet_law K kids \<Longrightarrow> kids (world (snd (keep_parent_ends K i q e p s))) = kids (world s)"
  by (simp add: keep_parent_ends_def case_prod_beta keep_parent_end_quiet)

lemma signal_mutex_quiet:
  assumes "quiet_law K kids"
  shows "signal_mutex_lock K (m, s) = (r, (m', s')) \<Longrightarrow> kids (world s') = kids (world s)"
    and "signal_mutex_unlock K (m, s) = (r, (m', s')) \<Longrightarrow> kids (world s') = kids (world s)"
  using assms
  by (auto simp: signal_mutex_lock_def signal_mutex_unlock_def quiet_law_def cmd_simps split: prod.splits if_splits)
    (metis snd_conv)?

lemma reap_failed_child_kids:
  assumes "child_law K kids" "wait_law K kids blocked sigs" "pid \<in> kids (world s)" "sigs \<subseteq> blocked (world s)"
  shows "kids (world (reap_failed_child K pid s)) = kids (world s) - {pid}"
proof -
  obtain ret i' s1 where w: "sys_waitid K P_PID pid WEXITED (zero_siginfo\<lparr>si_pid := 0\<rparr>) s = ((ret, i'), s1)"
    by (metis prod_cases3 surj_pair)
  have "ret \<noteq> - 1" using assms(2-4) w unfolding wait_law_def by (metis fst_conv)
  with child_lawD [OF assms(1) w] have "kids (world s1) = kids (world s) - {pid}"
    by (auto simp: WEXITED_def WNOHANG_def split: if_splits)
  then show ?thesis by (simp add: reap_failed_child_def waitid_def cmd_simps w)
qed

text \<open>The children after a spawn, when \<open>reaps\<close> says that a failed child can be waited for.\<close>

definition kids_after :: "bool \<Rightarrow> ('w \<Rightarrow> int set) \<Rightarrow> 'w sys \<Rightarrow> popen res \<Rightarrow> 'w sys \<Rightarrow> bool" where
  "kids_after reaps kids s r s' \<longleftrightarrow>
     (case r of
        Ok p \<Rightarrow> popen_bool p \<and> id_get (popen_pid p) \<notin> kids (world s)
          \<and> kids (world s') = insert (id_get (popen_pid p)) (kids (world s)) \<and> popen_inv kids (p, s')
      | _ \<Rightarrow> reaps \<longrightarrow> kids (world s') = kids (world s))"

lemma kids_after_cong:
  "kids_after b kids s r s' \<Longrightarrow> (b' \<longrightarrow> b) \<Longrightarrow> kids (world t) = kids (world s) \<Longrightarrow> kids (world t') = kids (world s')
    \<Longrightarrow> kids_after b' kids t r t'"
  by (auto simp: kids_after_def popen_inv_def split: res.splits)

lemma keep_parent_ends_other:
  "keep_parent_ends K i q e p s = (p', s') \<Longrightarrow> child_pid p' = child_pid p \<and> child_status p' = child_status p"
  by (auto simp: keep_parent_ends_def split: prod.splits)

lemma after_clone_kids:
  assumes laws: "child_law K kids" "quiet_law K kids" "spawn_law K kids"
    and clone: "sys_clone K stk flags child 0 s1 = Some ((ret, st), s2)"
    and run: "after_clone K ends ret st (popen_default, s2) = (r, (p, s3))"
  shows "kids_after (wait_law K kids blocked sigs \<and> sigs \<subseteq> blocked (world s2)) kids s1 (built r p) s3"
proof -
  have c: "if ret = - 1 then kids (world s2) = kids (world s1)
      else 0 < ret \<and> ret \<notin> kids (world s1) \<and> kids (world s2) = insert ret (kids (world s1))"
    using laws(3) clone unfolding spawn_law_def by blast
  consider "ret = - 1" | "ret \<noteq> - 1" "st \<noteq> 0" | "ret \<noteq> - 1" "st = 0" by blast
  then show ?thesis
  proof cases
    case 1
    with run c show ?thesis by (auto simp: after_clone_def kids_after_def built_def)
  next
    case 2
    with c have "kids (world (reap_failed_child K ret s2)) = kids (world s1)"
      if "wait_law K kids blocked sigs" "sigs \<subseteq> blocked (world s2)"
      using reap_failed_child_kids [OF laws(1) that(1) _ that(2), of ret] by auto
    with 2 run show ?thesis by (auto simp: after_clone_def kids_after_def built_def)
  next
    case 3
    obtain i q e p' s' where ends: "ends = (i, q, e)" and k: "keep_parent_ends K i q e popen_default s2 = (p', s')"
      by (metis prod_cases3 surj_pair)
    have "kids (world s') = kids (world s2)" using keep_parent_ends_quiet [OF laws(2)] k by (metis snd_conv)
    moreover have "built r p = Ok (p'\<lparr>child_pid := int_descriptor_of ret\<rparr>)" "s3 = s'"
      using 3 run k by (auto simp: after_clone_def built_def ends)
    moreover have "child_status p' = status_default"
      using keep_parent_ends_other [OF k] by (simp add: popen_default_def)
    moreover have "\<not> exited status_default" by (simp add: exited_def status_default_def)
    ultimately show ?thesis
      using 3 c
      by (simp add: kids_after_def popen_bool_def popen_pid_def popen_inv_def popen_status_def int_descriptor_defs
          invalid_pid_def)
  qed
qed

lemma clone_locked_kids:
  assumes laws: "child_law K kids" "quiet_law K kids" "spawn_law K kids"
    and run: "clone_locked K E executable args ss (popen_default, g, s) = Some (r, (p, g', s'))"
  shows "kids_after (wait_law K kids blocked sigs \<and> mask_law K blocked \<and> sigs \<subseteq> blocked (world s)) kids s (built r p) s'"
proof -
  obtain st g1 where es: "ensure_stack E (g, s) = (Ok st, (g1, s))" using ensure_stack_ok by metis
  obtain ro s1 where os: "open_streams K ss s = (ro, s1)" by fastforce
  have k1: "kids (world s1) = kids (world s)"
    using open_streams_quiet [of K kids ss] laws(2) os unfolding quiet_def quiet_law_def by (metis snd_conv)
  have b1: "blocked (world s1) = blocked (world s)" if "mask_law K blocked"
    using open_streams_quiet [of K blocked ss] that os unfolding quiet_def mask_law_def by (metis snd_conv)
  show ?thesis
  proof (cases ro)
    case (Ok ends)
    obtain i q e where ends: "ends = (i, q, e)" by (metis prod_cases3)
    from run es os Ok obtain ret stat s2 where
      clone: "sys_clone K (stack_get st) ((CLONE_VM OR CLONE_VFORK) OR SIGCHLD)
         (clone_handler K (strtoi E) (all_signals E) (policy_of executable args ends)) 0 s1 = Some ((ret, stat), s2)"
      and after: "after_clone K ends ret stat (popen_default, s2) = (r, (p, s'))"
      by (auto simp: clone_locked_def prepare_clone_def cmd_simps ends split: option.splits prod.splits)
    have "blocked (world s2) = blocked (world s1)" if "mask_law K blocked"
      using that clone unfolding mask_law_def by blast
    with kids_after_cong [OF after_clone_kids [OF laws clone after, where blocked = blocked and sigs = sigs]] k1 b1
    show ?thesis by auto
  qed (use run es os k1 in \<open>auto simp: clone_locked_def prepare_clone_def cmd_simps kids_after_def built_def\<close>)
qed

lemma popen_ctor_kids:
  assumes laws: "child_law K kids" "quiet_law K kids" "spawn_law K kids"
    and run: "popen_ctor K E executable args ss (g, s) = Some (r, (g', s'))"
  shows "kids_after (wait_law K kids blocked sigs \<and> mask_law K blocked \<and> sigs \<subseteq> sm_sigset (signal_mutex_object g))
     kids s r s'"
proof -
  from run obtain rc p where rc: "popen_clone K E executable args ss (popen_default, g, s) = Some (rc, (p, g', s'))"
    by (auto simp: popen_ctor_def split: option.splits res.splits prod.splits)
  then have r: "r = built rc p" using run popen_ctor_built [OF rc] by simp
  obtain l m s1 where lock: "signal_mutex_lock K (signal_mutex_object g, s) = (l, (m, s1))" by (metis prod_cases3)
  note k1 = signal_mutex_quiet(1) [OF laws(2) lock]
  show ?thesis
  proof (cases l)
    case (Ok u)
    with rc lock obtain r1 p1 g1 s2 where
      c: "clone_locked K E executable args ss (popen_default, g\<lparr>signal_mutex_object := m\<rparr>, s1) = Some (r1, (p1, g1, s2))"
      and u: "unlock_signals K (r1, (p1, g1, s2)) = (rc, (p, g', s'))"
      by (auto simp: popen_clone_def)
    obtain lr m' s3 where ul: "signal_mutex_unlock K (signal_mutex_object g1, s2) = (lr, (m', s3))" by (metis prod_cases3)
    from u ul signal_mutex_quiet(2) [OF laws(2) ul] have "r1 = rc" "p1 = p" "kids (world s') = kids (world s2)"
      by (auto simp: unlock_signals_def)
    moreover have "sigs \<subseteq> blocked (world s1)" if "mask_law K blocked" "sigs \<subseteq> sm_sigset (signal_mutex_object g)"
      using signal_mutex_lock_mask [OF _ lock, of blocked] that Ok unfolding mask_law_def by auto
    ultimately show ?thesis
      using kids_after_cong [OF clone_locked_kids [OF laws c, where blocked = blocked and sigs = sigs]] k1
      by (auto simp: r)
  qed (use rc lock k1 r in \<open>auto simp: popen_clone_def kids_after_def built_def\<close>)
qed

subsection \<open>The laws hold in the example process\<close>

abbreviation demo_kids :: "demo_world \<Rightarrow> int set" where
  "demo_kids w \<equiv> {pid \<in> set (dw_children w). 0 < pid}"

lemma demo_child_law: "child_law demo_calls demo_kids"
  by (auto simp: child_law_def demo_waitid_def cld_consts)

lemma demo_quiet_law: "quiet_law demo_calls demo_kids"
  by (simp add: quiet_law_def fd_quiet_law_def demo_pipe2_def Let_def demo_sigmask_def demo_calls_def demo_ev_calls_def
      idle_ev_calls_def ev_calls.extend_def)

lemma demo_spawn_law: "spawn_law demo_calls demo_kids"
  using demo_pid_new by (auto simp: spawn_law_def demo_clone_def Let_def)

lemma demo_mask_law: "mask_law demo_calls dw_mask"
  by (auto simp: mask_law_def sigmask_law_def fd_quiet_law_def demo_sigmask_def demo_pipe2_def demo_clone_def Let_def
      demo_calls_def demo_ev_calls_def idle_ev_calls_def ev_calls.extend_def proc_calls.fields_def)

lemma demo_wait_law: "wait_law demo_calls demo_kids dw_mask sigs"
  by (simp add: wait_law_def demo_waitid_def)

lemmas demo_child_laws = demo_child_law demo_quiet_law demo_spawn_law

subsection \<open>Properties\<close>

text \<open>
  C27. The constructor leaves no child behind when it fails: a child that could not execute the program has been
  waited for, since the wait runs under the signal lock, which blocks every signal that could interrupt it. When
  the constructor succeeds there is one child more, the one the object owns.
\<close>

theorem popen_no_zombie:
  assumes "child_law K kids" "quiet_law K kids" "spawn_law K kids"
    and "mask_law K blocked" "wait_law K kids blocked (all_signals E)"
    and "sm_sigset (signal_mutex_object g) = all_signals E"
    and "popen_ctor K E executable args ss (g, s) = Some (r, (g', s'))"
  shows "case r of
      Ok p \<Rightarrow> popen_bool p \<and> id_get (popen_pid p) \<notin> kids (world s)
        \<and> kids (world s') = insert (id_get (popen_pid p)) (kids (world s))
    | _ \<Rightarrow> kids (world s') = kids (world s)"
  using popen_ctor_kids [OF assms(1-3,7), of blocked "all_signals E"] assms(4-6)
  by (auto simp: kids_after_def split: res.splits)

lemma demo_spawn_fails:
  "\<exists>g' s'. popen_ctor demo_calls demo_env ''/bin/none'' argv_default streams_default (demo_globals, demo_sys [])
      = Some (Throw (System_error ENOENT ''subprocess execution failed''), (g', s'))"
  by (simp add: demo_run close_entries.simps demo_pid_def ENOENT_def)

theorem popen_no_zombie_witness:
  "\<exists>g' s'. popen_ctor demo_calls demo_env ''/bin/none'' argv_default streams_default (demo_globals, demo_sys [])
      = Some (Throw (System_error ENOENT ''subprocess execution failed''), (g', s')) \<and> demo_kids (world s') = {}"
proof -
  obtain g' s' where run: "popen_ctor demo_calls demo_env ''/bin/none'' argv_default streams_default
      (demo_globals, demo_sys []) = Some (Throw (System_error ENOENT ''subprocess execution failed''), (g', s'))"
    using demo_spawn_fails by blast
  have g: "sm_sigset (signal_mutex_object demo_globals) = all_signals demo_env"
    by (simp add: demo_globals_def demo_env_def signal_mutex_ctor_def)
  from popen_no_zombie [OF demo_child_laws demo_mask_law demo_wait_law g run] run show ?thesis
    by (simp add: demo_sys_def)
qed

text \<open>
  C26. In every history of an object that the constructor returned, moves and swaps with other objects included, as long as it has a pid that is the pid of a child that has
  not been waited for, so that no signal and no wait reaches another process. Without a pid, a wait
  returns the status of the child, a signal throws, and neither calls the kernel; destroying the object ends the
  program if and only if it still has a pid.
\<close>

theorem popen_never_stale:
  assumes laws: "child_law K kids" "quiet_law K kids" "spawn_law K kids"
    and ctor: "popen_ctor K E executable args ss (g, s) = Some (Ok p, (g', s'))"
    and history: "(popen_step K kids)\<^sup>*\<^sup>* (p, s') (p2, s2)"
  shows "(popen_bool p2 \<longrightarrow> id_get (popen_pid p2) \<in> kids (world s2) \<and> \<not> exited (popen_status p2)
       \<and> popen_destroy K p2 s2 = (Terminated, s2))
     \<and> (\<not> popen_bool p2 \<longrightarrow> popen_wait K (p2, s2) = (Ok (popen_status p2), (p2, s2))
       \<and> popen_poll K (p2, s2) = (Ok (popen_status p2), (p2, s2))
       \<and> popen_signal K sig (p2, s2) = (Throw (Logic_error ''child pid not set''), (p2, s2))
       \<and> fst (popen_destroy K p2 s2) = Ok ())"
proof -
  have "popen_inv kids (p, s')"
    using popen_ctor_kids [OF laws ctor] by (simp add: kids_after_def)
  then have "popen_inv kids (p2, s2)"
    using popen_life.kept_star [OF history] laws(1) by blast
  then show ?thesis
    by (simp add: popen_inv_def popen_wait_def popen_poll_def popen_wait_unset popen_signal_run popen_destroy_def
        popen_bool_def popen_pid_def cmd_simps)
qed

theorem popen_never_stale_witness:
  "\<exists>p g' s'. popen_ctor demo_calls demo_env ''/bin/cat'' argv_default streams_default (demo_globals, demo_sys [])
      = Some (Ok p, (g', s')) \<and> popen_destroy demo_calls p s' = (Terminated, s')"
proof -
  obtain p g' s' where run: "popen_ctor demo_calls demo_env ''/bin/cat'' argv_default streams_default
      (demo_globals, demo_sys []) = Some (Ok p, (g', s'))" and "popen_bool p"
    using demo_spawn by blast
  with popen_never_stale [OF demo_child_laws run rtranclp.rtrancl_refl] show ?thesis by blast
qed

text \<open>
  C28. A wait on an object with a pid throws and changes nothing, or returns the status of a child that has ended:
  the child has been waited for, the object has no pid any more, and whatever is done with it afterwards, also when it is moved or
  swapped, the status it reports stays the same. A poll may also find the child still running and return the default status.
\<close>

theorem popen_wait_reaps:
  assumes law: "child_law K kids" and inv: "popen_inv kids (p, s)" and live: "popen_bool p"
    and run: "popen_wait_options K options (p, s) = (r, (p', s'))"
  shows "(\<exists>t. r = Ok t \<and> exited t \<and> status_wf t \<and> \<not> popen_bool p'
       \<and> kids (world s') = kids (world s) - {id_get (popen_pid p)}
       \<and> (\<forall>p2 s2. (popen_step K kids)\<^sup>*\<^sup>* (p', s') (p2, s2) \<longrightarrow> popen_status p2 = t))
     \<or> (r = Throw (System_error (errno s') ''waitid failed'') \<and> p' = p \<and> kids (world s') = kids (world s))
     \<or> (r = Ok status_default \<and> p' = p \<and> kids (world s') = kids (world s) \<and> options = WEXITED OR WNOHANG)"
  using law live run
proof (cases rule: popen_wait_cases)
  case (reaped t)
  have "popen_status p2 = t" if "(popen_step K kids)\<^sup>*\<^sup>* (p', s') (p2, s2)" for p2 s2
    using popen_final.kept_star [OF that, of p'] reaped by simp
  with reaped show ?thesis by blast
next
  case running
  with inv live show ?thesis by (auto simp: popen_inv_def status_wf_def exited_def)
qed simp

theorem popen_wait_reaps_witness:
  "\<exists>r c'. popen_wait_options demo_calls WEXITED
      (popen_default\<lparr>child_pid := int_descriptor_of 100\<rparr>, on_world (\<lambda>w. w\<lparr>dw_children := [100]\<rparr>) (demo_sys [])) = (r, c')
    \<and> \<not> popen_bool (fst c') \<and> demo_kids (world (snd c')) = {}"
proof -
  let ?p = "popen_default\<lparr>child_pid := int_descriptor_of 100\<rparr>"
    and ?s = "on_world (\<lambda>w. w\<lparr>dw_children := [100]\<rparr>) (demo_sys [])"
  obtain r p' s' where run: "popen_wait_options demo_calls WEXITED (?p, ?s) = (r, (p', s'))" by (metis prod_cases3)
  have live: "popen_bool ?p" by (simp add: popen_bool_def int_descriptor_defs invalid_pid_def)
  have inv: "popen_inv demo_kids (?p, ?s)"
    by (simp add: popen_inv_def popen_status_def popen_default_def demo_sys_def popen_pid_def int_descriptor_defs exited_def
        status_wf_def status_default_def)
  have "r \<noteq> Throw (System_error (errno s') ''waitid failed'')"
    using run by (auto simp: popen_wait_options_def popen_pid_def int_descriptor_defs invalid_pid_def waitid_def cmd_simps
        demo_waitid_def demo_sys_def zero_siginfo_def Let_def status_of_def split: if_splits)
  with popen_wait_reaps [OF demo_child_law inv live run] run show ?thesis
    by (auto simp: demo_sys_def popen_pid_def int_descriptor_defs WEXITED_def WNOHANG_def)
qed

end
